theory Spec2Isabelle
  imports Main "HOL-Library.Sublist" "HOL-Library.Option_ord" "HOL-Library.Char_ord"
    "HOL-Library.List_Lexorder"
begin

section \<open>Configuration (config.ts)\<close>

definition DEFAULT_TTL_MS :: int where
  "DEFAULT_TTL_MS = 30 * 24 * 60 * 60 * 1000"

definition FILE_STORAGE_THRESHOLD_BYTES :: nat where
  "FILE_STORAGE_THRESHOLD_BYTES = 1024 * 1024"

definition STUCK_JOB_TIMEOUT_MS :: int where
  "STUCK_JOB_TIMEOUT_MS = 5 * 60 * 1000"

definition CLEANUP_BATCH_SIZE :: nat where
  "CLEANUP_BATCH_SIZE = 100"

definition MAX_URL_LENGTH :: nat where
  "MAX_URL_LENGTH = 2000"

section \<open>Strings\<close>

text \<open>
  A JavaScript string is a sequence of UTF-16 code units, and \<^verbatim>\<open>s.length\<close> counts
  them. Strings are modelled as \<^typ>\<open>string\<close> with one character per code unit, which
  covers the code units below 256 (U+0000 to U+00FF).
\<close>

definition ascii_upper :: string where
  "ascii_upper = ''ABCDEFGHIJKLMNOPQRSTUVWXYZ''"

definition ascii_lower :: string where
  "ascii_lower = ''abcdefghijklmnopqrstuvwxyz''"

text \<open>The capital letters U+00C0 to U+00DE and the small letters U+00E0 to U+00FE.\<close>

definition latin1_upper :: string where
  "latin1_upper =
     [CHR 0xC0, CHR 0xC1, CHR 0xC2, CHR 0xC3, CHR 0xC4, CHR 0xC5, CHR 0xC6, CHR 0xC7, CHR
      0xC8, CHR 0xC9, CHR 0xCA, CHR 0xCB, CHR 0xCC, CHR 0xCD, CHR 0xCE, CHR 0xCF, CHR
      0xD0, CHR 0xD1, CHR 0xD2, CHR 0xD3, CHR 0xD4, CHR 0xD5, CHR 0xD6, CHR 0xD8, CHR
      0xD9, CHR 0xDA, CHR 0xDB, CHR 0xDC, CHR 0xDD, CHR 0xDE]"

definition latin1_lower :: string where
  "latin1_lower =
     [CHR 0xE0, CHR 0xE1, CHR 0xE2, CHR 0xE3, CHR 0xE4, CHR 0xE5, CHR 0xE6, CHR 0xE7, CHR
      0xE8, CHR 0xE9, CHR 0xEA, CHR 0xEB, CHR 0xEC, CHR 0xED, CHR 0xEE, CHR 0xEF, CHR
      0xF0, CHR 0xF1, CHR 0xF2, CHR 0xF3, CHR 0xF4, CHR 0xF5, CHR 0xF6, CHR 0xF8, CHR
      0xF9, CHR 0xFA, CHR 0xFB, CHR 0xFC, CHR 0xFD, CHR 0xFE]"

text \<open>\<open>translate xs ys c\<close> is the character of \<open>ys\<close> at the place of \<open>c\<close> in \<open>xs\<close>.\<close>

primrec translate :: "string \<Rightarrow> string \<Rightarrow> char \<Rightarrow> char" where
  "translate [] ys c = c"
| "translate (x # xs) ys c = (if c = x then hd ys else translate xs (tl ys) c)"

definition lower_char :: "char \<Rightarrow> char" where
  "lower_char c = translate ascii_upper ascii_lower (translate latin1_upper latin1_lower c)"

definition upper_char :: "char \<Rightarrow> char" where
  "upper_char c = translate ascii_lower ascii_upper (translate latin1_lower latin1_upper c)"

definition toLowerCase :: "string \<Rightarrow> string" where
  "toLowerCase s = map lower_char s"

text \<open>
  \<^verbatim>\<open>new TextEncoder().encode(str)\<close>: the UTF-8 bytes of the string; a code unit below
  128 is one byte, one from 128 to 255 is two.
\<close>

definition utf8_encode :: "string \<Rightarrow> nat list" where
  "utf8_encode s =
     concat (map (\<lambda>c. let n = (of_char c :: nat) in
                        if n < 128 then [n] else [192 + n div 64, 128 + n mod 64]) s)"

definition getByteLength :: "string \<Rightarrow> nat" where
  "getByteLength str = length (utf8_encode str)"

text \<open>The decimal text of a number, as a template literal prints it.\<close>

definition digit_char :: "nat \<Rightarrow> char" where
  "digit_char d = ''0123456789'' ! d"

function string_of_nat :: "nat \<Rightarrow> string" where
  "string_of_nat n =
     (if n < 10 then [digit_char n] else string_of_nat (n div 10) @ [digit_char (n mod 10)])"
  by pat_completeness auto
termination
  by (relation "measure id") auto

declare string_of_nat.simps [simp del]

subsection \<open>Regular expressions\<close>

text \<open>
  The fragment of regular expressions that \<^verbatim>\<open>PRIVATE_IP_PATTERNS\<close> uses: a
  character, a character class (\<open>OneOf\<close>, the list of its characters), sequence,
  alternative and bounded repetition. Every pattern there starts with \<^verbatim>\<open>^\<close>; a \<^verbatim>\<open>regex\<close> records the body, whether it ends with
  \<^verbatim>\<open>$\<close>, and the \<^verbatim>\<open>i\<close> flag. \<open>rx_run\<close> returns the rest of the input after each
  way of matching a prefix of it.
\<close>

datatype rx =
    Eps
  | Chr char
  | OneOf string
  | Seq rx rx
  | Alt rx rx
  | Rep nat nat rx

datatype regex = Regex rx bool bool

definition digits :: string where
  "digits = ''0123456789''"

definition is_digit :: "char \<Rightarrow> bool" where
  "is_digit c = (c \<in> set digits)"

text \<open>
  Whether a character of the input matches one of the pattern. Under the \<^verbatim>\<open>i\<close> flag
  both are compared in upper case.
\<close>

definition char_matches :: "bool \<Rightarrow> char \<Rightarrow> char \<Rightarrow> bool" where
  "char_matches ic x c = (if ic then upper_char x = upper_char c else x = c)"

primrec rx_rep :: "(string \<Rightarrow> string list) \<Rightarrow> nat \<Rightarrow> nat \<Rightarrow> string \<Rightarrow> string list" where
  "rx_rep m lo 0 s = (if lo = 0 then [s] else [])"
| "rx_rep m lo (Suc hi) s =
     (if lo = 0 then [s] else []) @ concat (map (rx_rep m (lo - 1) hi) (m s))"

fun rx_run :: "bool \<Rightarrow> rx \<Rightarrow> string \<Rightarrow> string list" where
  "rx_run ic Eps s = [s]"
| "rx_run ic (Chr c) s =
     (case s of [] \<Rightarrow> [] | x # xs \<Rightarrow> if char_matches ic x c then [xs] else [])"
| "rx_run ic (OneOf cs) s =
     (case s of [] \<Rightarrow> []
      | x # xs \<Rightarrow> if list_ex (char_matches ic x) cs then [xs] else [])"
| "rx_run ic (Seq a b) s = concat (map (rx_run ic b) (rx_run ic a s))"
| "rx_run ic (Alt a b) s = rx_run ic a s @ rx_run ic b s"
| "rx_run ic (Rep lo hi r) s = rx_rep (rx_run ic r) lo hi s"

fun rx_test :: "regex \<Rightarrow> string \<Rightarrow> bool" where
  "rx_test (Regex r anchored_end ic) s =
     (if anchored_end then [] \<in> set (rx_run ic r s) else rx_run ic r s \<noteq> [])"

primrec rx_str :: "string \<Rightarrow> rx" where
  "rx_str [] = Eps"
| "rx_str (c # cs) = Seq (Chr c) (rx_str cs)"

primrec rx_seq :: "rx list \<Rightarrow> rx" where
  "rx_seq [] = Eps"
| "rx_seq (r # rs) = Seq r (rx_seq rs)"

section \<open>Data model (schema.ts)\<close>

text \<open>
  Document and file identifiers are assigned by the store and never reused. They are
  modelled as the position at which the document (file) was inserted, so the order of
  identifiers is the order of creation.
\<close>

type_synonym job_id = nat
type_synonym file_id = nat

datatype status = Pending | Scraping | Completed | Failed

text \<open>Values of \<^verbatim>\<open>v.any()\<close> fields (extraction schema and result).\<close>

datatype json =
    JNull
  | JBool bool
  | JNum int
  | JStr string
  | JArr "json list"
  | JObj "(string \<times> json) list"

text \<open>\<^verbatim>\<open>errorCode: v.union(v.number(), v.string())\<close>\<close>

datatype error_code = CodeNum int | CodeStr string

record metadata =
  title :: "string option"
  description :: "string option"
  language :: "string option"
  sourceURL :: "string option"
  statusCode :: "int option"
  ogImage :: "string option"
  ogTitle :: "string option"
  ogDescription :: "string option"
  ogSiteName :: "string option"
  contentType :: "string option"
  cacheControl :: "string option"

text \<open>
  The options of \<^verbatim>\<open>startScrape\<close> (\<^verbatim>\<open>scrapeOptionsValidator\<close>) and the arguments
  it schedules \<^verbatim>\<open>scrapeAction\<close> with. Their fields are always written with the
  record's name, as in \<open>scrape_options.formats\<close>.
\<close>

datatype proxy_kind = Basic | Stealth | Auto

record scrape_options =
  formats :: "string list option"
  extractionSchema :: "json option"
  ttlMs :: "int option"
  force :: "bool option"
  onlyMainContent :: "bool option"
  includeTags :: "string list option"
  excludeTags :: "string list option"
  waitFor :: "int option"
  mobile :: "bool option"
  proxy :: "proxy_kind option"
  storeScreenshot :: "bool option"

record action_options =
  extractionSchema :: "json option"
  onlyMainContent :: "bool option"
  includeTags :: "string list option"
  excludeTags :: "string list option"
  waitFor :: "int option"
  mobile :: "bool option"
  proxy :: proxy_kind
  storeScreenshot :: "bool option"

record action_args =
  jobId :: job_id
  url :: string
  apiKey :: string
  formats :: "string list"
  options :: action_options
  ttlMs :: int

text \<open>
  The \<^verbatim>\<open>data\<close> object of a successful Firecrawl response, as \<^verbatim>\<open>scrapeAction\<close> reads
  it. An image is a URL or an object with a \<^verbatim>\<open>url\<close> property. The fields of this record
  are always written with the record's name, as in \<open>firecrawl_data.markdown\<close>;
  \<open>extracted\<close> is the property \<^verbatim>\<open>extract\<close>.
\<close>

datatype image = ImageString string | ImageObject string

record firecrawl_data =
  markdown :: "string option"
  html :: "string option"
  rawHtml :: "string option"
  summary :: "string option"
  links :: "string list option"
  images :: "image list option"
  screenshot :: "string option"
  extracted :: "json option"
  metadata :: "metadata option"

text \<open>
  The content fields of a document, which are also the content arguments of
  \<^verbatim>\<open>completeScrape\<close>: each is inline data or the identifier of a stored file.
\<close>

record content =
  markdown :: "string option"
  markdownFileId :: "file_id option"
  html :: "string option"
  htmlFileId :: "file_id option"
  rawHtml :: "string option"
  rawHtmlFileId :: "file_id option"
  summary :: "string option"
  links :: "string list option"
  linksFileId :: "file_id option"
  images :: "string list option"
  imagesFileId :: "file_id option"
  screenshotUrl :: "string option"
  screenshotFileId :: "file_id option"
  extractedJson :: "json option"
  extractedJsonFileId :: "file_id option"
  metadata :: "metadata option"

text \<open>
  One document of the \<^verbatim>\<open>scrapes\<close> table: the content fields and the fields below.
  Times are milliseconds since the epoch.
\<close>

record scrape = content +
  url :: string
  normalizedUrl :: string
  urlHash :: string
  status :: status
  formats :: "string list"
  extractionSchema :: "json option"
  error :: "string option"
  errorCode :: "error_code option"
  startedAt :: int
  scrapingAt :: "int option"
  scrapedAt :: "int option"
  expiresAt :: int

section \<open>The platform\<close>

text \<open>
  The URL object that \<^verbatim>\<open>new URL(url)\<close> returns, with the properties the component
  reads.
\<close>

record url_record =
  protocol :: string
  hostname :: string
  port :: string
  pathname :: string
  search :: string

text \<open>
  The built-in functions of the JavaScript runtime that the component calls. They are not
  part of the component, so every function below takes them as a parameter:
  \<^item> \<open>URL_new\<close> is \<^verbatim>\<open>new URL(url)\<close>, \<open>None\<close> when it throws;
  \<^item> \<open>URLSearchParams_new\<close> is \<^verbatim>\<open>new URLSearchParams(search)\<close>, the list of name-value
    pairs of a query string;
  \<^item> \<open>URLSearchParams_toString\<close> serialises such a list;
  \<^item> \<open>sha256\<close> is \<^verbatim>\<open>crypto.subtle.digest("SHA-256", data)\<close> on bytes;
  \<^item> \<open>JSON_stringify\<close> is \<^verbatim>\<open>JSON.stringify\<close>.
\<close>

record platform =
  URL_new :: "string \<Rightarrow> url_record option"
  URLSearchParams_new :: "string \<Rightarrow> (string \<times> string) list"
  URLSearchParams_toString :: "(string \<times> string) list \<Rightarrow> string"
  sha256 :: "nat list \<Rightarrow> nat list"
  JSON_stringify :: "json \<Rightarrow> string"

text \<open>
  \<^verbatim>\<open>URLSearchParams.get\<close> returns the first value of a name; \<^verbatim>\<open>set\<close> replaces the
  first pair of that name and removes the others, or appends a new pair.
\<close>

definition sp_get :: "(string \<times> string) list \<Rightarrow> string \<Rightarrow> string option" where
  "sp_get params name = map_of params name"

fun sp_set :: "(string \<times> string) list \<Rightarrow> string \<Rightarrow> string \<Rightarrow> (string \<times> string) list" where
  "sp_set [] name v = [(name, v)]"
| "sp_set ((k, x) # rest) name v =
     (if k = name then (name, v) # filter (\<lambda>p. fst p \<noteq> name) rest
      else (k, x) # sp_set rest name v)"

section \<open>URL utilities (url.ts)\<close>

definition TRACKING_PARAMS :: "string list" where
  "TRACKING_PARAMS =
     [''utm_source'', ''utm_medium'', ''utm_campaign'', ''utm_term'', ''utm_content'',
      ''utm_id'', ''utm_source_platform'', ''utm_creative_format'', ''utm_marketing_tactic'',
      ''gclid'', ''gclsrc'', ''dclid'',
      ''fbclid'', ''fb_action_ids'', ''fb_action_types'', ''fb_source'', ''fb_ref'',
      ''msclkid'',
      ''twclid'',
      ''hsa_acc'', ''hsa_cam'', ''hsa_grp'', ''hsa_ad'', ''hsa_src'', ''hsa_tgt'',
      ''hsa_kw'', ''hsa_mt'', ''hsa_net'', ''hsa_ver'',
      ''ref'', ''source'', ''mc_cid'', ''mc_eid'', ''_ga'', ''_gl'']"

definition octet :: rx where
  "octet = Rep 1 3 (OneOf digits)"

definition PRIVATE_IP_PATTERNS :: "regex list" where
  "PRIVATE_IP_PATTERNS =
     [Regex (rx_str ''localhost'') True True,
      Regex (rx_seq [rx_str ''127.'', octet, Chr CHR ''.'', octet, Chr CHR ''.'', octet])
        True False,
      Regex (rx_str ''::1'') True False,
      Regex (rx_str ''[::1]'') True False,
      Regex (rx_seq [rx_str ''10.'', octet, Chr CHR ''.'', octet, Chr CHR ''.'', octet])
        True False,
      Regex (rx_seq [rx_str ''172.'',
                     Alt (Seq (Chr CHR ''1'') (OneOf ''6789''))
                       (Alt (Seq (Chr CHR ''2'') (OneOf digits))
                            (Seq (Chr CHR ''3'') (OneOf ''01''))),
                     Chr CHR ''.'', octet, Chr CHR ''.'', octet]) True False,
      Regex (rx_seq [rx_str ''192.168.'', octet, Chr CHR ''.'', octet]) True False,
      Regex (rx_seq [rx_str ''169.254.'', octet, Chr CHR ''.'', octet]) True False,
      Regex (rx_str ''fe80:'') False True,
      Regex (rx_str ''fc00:'') False True,
      Regex (rx_seq [rx_str ''fd'',
                     Rep 2 2 (OneOf ''0123456789abcdef''),
                     Chr CHR '':'']) False True,
      Regex (rx_str ''0.0.0.0'') True False,
      Regex (rx_str ''[::]'') True False]"

definition BLOCKED_HOSTNAME_SUFFIXES :: "string list" where
  "BLOCKED_HOSTNAME_SUFFIXES = [''.local'', ''.internal'', ''.localhost'']"

datatype UrlValidationError =
    Too_long nat nat
  | Invalid_url string
  | Invalid_scheme string
  | Private_ip string
  | Blocked_hostname string

datatype UrlValidationResult = Valid | Invalid UrlValidationError

definition validateUrl :: "platform \<Rightarrow> string \<Rightarrow> UrlValidationResult" where
  "validateUrl env u =
     (if length u > MAX_URL_LENGTH then Invalid (Too_long MAX_URL_LENGTH (length u))
      else case URL_new env u of
        None \<Rightarrow> Invalid (Invalid_url ''Invalid URL format'')
      | Some parsed \<Rightarrow>
          if protocol parsed \<noteq> ''http:'' \<and> protocol parsed \<noteq> ''https:''
          then Invalid (Invalid_scheme (protocol parsed))
          else
            let host = toLowerCase (hostname parsed) in
            if list_ex (\<lambda>pattern. rx_test pattern host) PRIVATE_IP_PATTERNS
            then Invalid (Private_ip host)
            else if list_ex (\<lambda>sfx. suffix sfx host) BLOCKED_HOSTNAME_SUFFIXES
            then Invalid (Blocked_hostname host)
            else Valid)"

fun formatValidationError :: "UrlValidationError \<Rightarrow> string" where
  "formatValidationError (Too_long maxLength actualLength) =
     ''URL exceeds maximum length of '' @ string_of_nat maxLength @ '' characters (got '' @
     string_of_nat actualLength @ '')''"
| "formatValidationError (Invalid_url message) = ''Invalid URL: '' @ message"
| "formatValidationError (Invalid_scheme scheme) =
     ''Invalid URL scheme: '' @ scheme @ ''. Only http and https are allowed''"
| "formatValidationError (Private_ip host) =
     ''Private/local IP addresses are not allowed: '' @ host"
| "formatValidationError (Blocked_hostname host) =
     ''Blocked hostname: '' @ host @ ''. Private network hostnames are not allowed''"

definition isTrackingParam :: "string \<Rightarrow> bool" where
  "isTrackingParam name =
     (let lowerName = toLowerCase name in
      if lowerName \<in> set TRACKING_PARAMS then True
      else if prefix ''utm_'' lowerName then True
      else False)"

text \<open>What a function of the component throws.\<close>

datatype exn =
    Error string
  | TypeError string
  | DocumentNotFound job_id
  | FileNotFound file_id

definition normalizeUrl :: "platform \<Rightarrow> string \<Rightarrow> exn + string" where
  "normalizeUrl env u =
     (case URL_new env u of
        None \<Rightarrow> Inl (TypeError ''Invalid URL'')
      | Some parsed \<Rightarrow>
          let normalized = protocol parsed @ ''//'' @ toLowerCase (hostname parsed);
              isDefaultPort =
                ((protocol parsed = ''http:'' \<and> port parsed = ''80'') \<or>
                 (protocol parsed = ''https:'' \<and> port parsed = ''443'') \<or>
                 port parsed = []);
              normalized = (if \<not> isDefaultPort then normalized @ '':'' @ port parsed
                            else normalized);
              path = pathname parsed;
              path = (if length path > 1 \<and> suffix ''/'' path then butlast path else path);
              params = URLSearchParams_new env (search parsed);
              paramNames = sort (filter (\<lambda>name. \<not> isTrackingParam name) (map fst params));
              sortedParams =
                fold (\<lambda>name sp. case sp_get params name of
                                    None \<Rightarrow> sp
                                  | Some v \<Rightarrow> sp_set sp name v)
                     paramNames [];
              queryString = URLSearchParams_toString env sortedParams;
              normalized = (if path = ''/'' \<and> queryString \<noteq> [] then normalized
                            else normalized @ path);
              normalized = (if queryString \<noteq> [] then normalized @ ''?'' @ queryString
                            else normalized)
          in Inr normalized)"

definition hex_digit :: "nat \<Rightarrow> char" where
  "hex_digit d = ''0123456789abcdef'' ! d"

definition hashUrl :: "platform \<Rightarrow> string \<Rightarrow> string" where
  "hashUrl env input =
     concat (map (\<lambda>b. [hex_digit (b div 16 mod 16), hex_digit (b mod 16)])
                 (sha256 env (utf8_encode input)))"

section \<open>The document store and the file storage\<close>

text \<open>
  A table is the list of its slots in the order of insertion; a deleted document leaves
  an empty slot. \<^verbatim>\<open>ctx.db.patch\<close> and \<^verbatim>\<open>ctx.db.delete\<close> throw when the document does
  not exist.
\<close>

type_synonym 'a table = "'a option list"

definition db_get :: "'a table \<Rightarrow> nat \<Rightarrow> 'a option" where
  "db_get t i = (if i < length t then t ! i else None)"

definition db_insert :: "'a table \<Rightarrow> 'a \<Rightarrow> nat \<times> 'a table" where
  "db_insert t x = (length t, t @ [Some x])"

definition db_patch :: "'a table \<Rightarrow> nat \<Rightarrow> ('a \<Rightarrow> 'a) \<Rightarrow> exn + 'a table" where
  "db_patch t i f =
     (case db_get t i of
        None \<Rightarrow> Inl (DocumentNotFound i)
      | Some x \<Rightarrow> Inr (t[i := Some (f x)]))"

definition db_delete :: "'a table \<Rightarrow> nat \<Rightarrow> exn + 'a table" where
  "db_delete t i =
     (case db_get t i of
        None \<Rightarrow> Inl (DocumentNotFound i)
      | Some x \<Rightarrow> Inr (t[i := None]))"

text \<open>The documents of a table with their identifiers, oldest first.\<close>

fun docs_from :: "nat \<Rightarrow> 'a table \<Rightarrow> (nat \<times> 'a) list" where
  "docs_from n [] = []"
| "docs_from n (None # t) = docs_from (Suc n) t"
| "docs_from n (Some x # t) = (n, x) # docs_from (Suc n) t"

definition docs :: "'a table \<Rightarrow> (nat \<times> 'a) list" where
  "docs t = docs_from 0 t"

record blob =
  data :: string
  mime :: string

definition storage_store :: "blob table \<Rightarrow> blob \<Rightarrow> file_id \<times> blob table" where
  "storage_store fs b = (length fs, fs @ [Some b])"

definition storage_delete :: "blob table \<Rightarrow> file_id \<Rightarrow> exn + blob table" where
  "storage_delete fs i =
     (case db_get fs i of
        None \<Rightarrow> Inl (FileNotFound i)
      | Some b \<Rightarrow> Inr (fs[i := None]))"

text \<open>
  The state a mutation runs on: the \<^verbatim>\<open>scrapes\<close> table, the file storage and the
  functions scheduled with \<^verbatim>\<open>ctx.scheduler.runAfter\<close>. A mutation is a transaction:
  when it throws (result \<open>Inl\<close>) the state stays as it was.
\<close>

record store =
  scrapes :: "scrape table"
  files :: "blob table"
  scheduled :: "action_args list"

text \<open>The indexes of the table (schema.ts), each ordered by its fields and then by creation.\<close>

definition by_url_hash :: "scrape table \<Rightarrow> string \<Rightarrow> (job_id \<times> scrape) list" where
  "by_url_hash t h = filter (\<lambda>d. urlHash (snd d) = h) (docs t)"

text \<open>
  \<^verbatim>\<open>.withIndex("by_url_hash", q => q.eq("urlHash", h)).order("desc").take(n)\<close>: the
  \<open>n\<close> newest documents of a hash, newest first.
\<close>

definition latest_by_url_hash :: "scrape table \<Rightarrow> string \<Rightarrow> nat \<Rightarrow> (job_id \<times> scrape) list" where
  "latest_by_url_hash t h n = take n (rev (by_url_hash t h))"

definition by_expires_lt :: "scrape table \<Rightarrow> int \<Rightarrow> (job_id \<times> scrape) list" where
  "by_expires_lt t bound =
     filter (\<lambda>d. expiresAt (snd d) < bound) (sort_key (\<lambda>d. expiresAt (snd d)) (docs t))"

text \<open>
  The index \<^verbatim>\<open>by_status_scraping\<close> on (status, scrapingAt). A missing field sorts
  before every number, which is the order of \<^typ>\<open>int option\<close> (\<open>None\<close> first).
\<close>

definition by_status_scraping_lt ::
    "scrape table \<Rightarrow> status \<Rightarrow> int \<Rightarrow> (job_id \<times> scrape) list" where
  "by_status_scraping_lt t st bound =
     filter (\<lambda>d. status (snd d) = st \<and> scrapingAt (snd d) < Some bound)
       (sort_key (\<lambda>d. scrapingAt (snd d)) (docs t))"

section \<open>Queries and mutations (lib.ts)\<close>

text \<open>
  Every handler takes the value of \<^verbatim>\<open>Date.now()\<close> as the argument \<open>now\<close>. A mutation
  returns \<open>Inl\<close> of what it throws, or \<open>Inr\<close> of its result and the new state.
\<close>

definition formatsSatisfied :: "string list \<Rightarrow> string list \<Rightarrow> bool" where
  "formatsSatisfied cached requested = list_all (\<lambda>f. f \<in> set cached) requested"

text \<open>Whether a JavaScript value counts as true in a condition.\<close>

fun truthy_json :: "json \<Rightarrow> bool" where
  "truthy_json JNull = False"
| "truthy_json (JBool b) = b"
| "truthy_json (JNum n) = (n \<noteq> 0)"
| "truthy_json (JStr s) = (s \<noteq> [])"
| "truthy_json (JArr xs) = True"
| "truthy_json (JObj kvs) = True"

definition truthy_string :: "string option \<Rightarrow> bool" where
  "truthy_string x = (case x of None \<Rightarrow> False | Some s \<Rightarrow> s \<noteq> [])"

definition is_cache_hit :: "int \<Rightarrow> string list \<Rightarrow> job_id \<times> scrape \<Rightarrow> bool" where
  "is_cache_hit now requested d =
     (status (snd d) = Completed \<and> expiresAt (snd d) > now \<and>
      formatsSatisfied (formats (snd d)) requested)"

definition getCached ::
    "platform \<Rightarrow> string \<Rightarrow> string list option \<Rightarrow> int \<Rightarrow> store \<Rightarrow>
     exn + (job_id \<times> scrape) option" where
  "getCached env u fmts now s =
     (case validateUrl env u of
        Invalid e \<Rightarrow> Inr None
      | Valid \<Rightarrow>
          (case normalizeUrl env u of
             Inl e \<Rightarrow> Inl e
           | Inr normalized \<Rightarrow>
               let h = hashUrl env normalized;
                   requestedFormats = (case fmts of None \<Rightarrow> [''markdown''] | Some fs \<Rightarrow> fs);
                   found = latest_by_url_hash (scrapes s) h 10
               in Inr (find (is_cache_hit now requestedFormats) found)))"

definition getByUrl ::
    "platform \<Rightarrow> string \<Rightarrow> store \<Rightarrow> exn + (job_id \<times> scrape) option" where
  "getByUrl env u s =
     (case validateUrl env u of
        Invalid e \<Rightarrow> Inr None
      | Valid \<Rightarrow>
          (case normalizeUrl env u of
             Inl e \<Rightarrow> Inl e
           | Inr normalized \<Rightarrow>
               let h = hashUrl env normalized in
               Inr (case latest_by_url_hash (scrapes s) h 1 of [] \<Rightarrow> None | d # ds \<Rightarrow> Some d)))"

text \<open>The file identifiers of a document that are set.\<close>

definition fileIds :: "scrape \<Rightarrow> file_id list" where
  "fileIds d =
     List.map_filter (\<lambda>x. x)
       [markdownFileId d, htmlFileId d, rawHtmlFileId d, screenshotFileId d,
        linksFileId d, imagesFileId d, extractedJsonFileId d]"

text \<open>
  The loop of the \<^verbatim>\<open>force\<close> option: every completed document among those loaded
  loses its files and is deleted. A failing deletion is not caught here.
\<close>

fun delete_files :: "file_id list \<Rightarrow> blob table \<Rightarrow> exn + blob table" where
  "delete_files [] fs = Inr fs"
| "delete_files (fileId # rest) fs =
     (case storage_delete fs fileId of
        Inl e \<Rightarrow> Inl e
      | Inr fs' \<Rightarrow> delete_files rest fs')"

fun force_delete :: "(job_id \<times> scrape) list \<Rightarrow> store \<Rightarrow> exn + store" where
  "force_delete [] s = Inr s"
| "force_delete (d # rest) s =
     (if status (snd d) = Completed then
        (case delete_files (fileIds (snd d)) (files s) of
           Inl e \<Rightarrow> Inl e
         | Inr fs' \<Rightarrow>
             (case db_delete (scrapes s) (fst d) of
                Inl e \<Rightarrow> Inl e
              | Inr t' \<Rightarrow> force_delete rest (s\<lparr>scrapes := t', files := fs'\<rparr>)))
      else force_delete rest s)"

definition is_active :: "job_id \<times> scrape \<Rightarrow> bool" where
  "is_active d = (status (snd d) = Pending \<or> status (snd d) = Scraping)"

definition new_scrape ::
    "string \<Rightarrow> string \<Rightarrow> string \<Rightarrow> string list \<Rightarrow> int \<Rightarrow> int \<Rightarrow> json option \<Rightarrow> scrape" where
  "new_scrape u normalized h fmts now ttl schema =
     \<lparr> markdown = None, markdownFileId = None, html = None, htmlFileId = None,
       rawHtml = None, rawHtmlFileId = None, summary = None, links = None,
       linksFileId = None, images = None, imagesFileId = None, screenshotUrl = None,
       screenshotFileId = None, extractedJson = None, extractedJsonFileId = None,
       metadata = None,
       url = u, normalizedUrl = normalized, urlHash = h, status = Pending, formats = fmts,
       extractionSchema =
         (case schema of None \<Rightarrow> None
          | Some j \<Rightarrow> if truthy_json j then Some j else None),
       error = None, errorCode = None, startedAt = now, scrapingAt = None,
       scrapedAt = None, expiresAt = now + ttl \<rparr>"

definition startScrape ::
    "platform \<Rightarrow> string \<Rightarrow> string \<Rightarrow> scrape_options \<Rightarrow> int \<Rightarrow> store \<Rightarrow>
     exn + (job_id \<times> store)" where
  "startScrape env u key opts now s =
     (case validateUrl env u of
        Invalid e \<Rightarrow> Inl (Error (formatValidationError e))
      | Valid \<Rightarrow>
     (case normalizeUrl env u of
        Inl e \<Rightarrow> Inl e
      | Inr normalized \<Rightarrow>
     let h = hashUrl env normalized;
         fmts = (case scrape_options.formats opts of None \<Rightarrow> [''markdown''] | Some fs \<Rightarrow> fs);
         forced = (scrape_options.force opts = Some True)
     in
     (case (if forced then force_delete (latest_by_url_hash (scrapes s) h 10) s
            else Inr s) of
        Inl e \<Rightarrow> Inl e
      | Inr s1 \<Rightarrow>
     let pendingJobs = latest_by_url_hash (scrapes s1) h 10 in
     (case find is_active pendingJobs of
        Some job \<Rightarrow>
          Inl (Error (''Scrape already in progress for this URL. Job ID: '' @
                      string_of_nat (fst job)))
      | None \<Rightarrow>
     (case (if \<not> forced then find (is_cache_hit now fmts) pendingJobs else None) of
        Some job \<Rightarrow> Inr (fst job, s1)
      | None \<Rightarrow>
     let ttl = (case scrape_options.ttlMs opts of None \<Rightarrow> DEFAULT_TTL_MS | Some t \<Rightarrow> t);
         ins = db_insert (scrapes s1)
                 (new_scrape u normalized h fmts now ttl (scrape_options.extractionSchema opts));
         args = \<lparr> action_args.jobId = fst ins, action_args.url = u,
                  action_args.apiKey = key, action_args.formats = fmts,
                  action_args.options =
                    \<lparr> action_options.extractionSchema = scrape_options.extractionSchema opts,
                      action_options.onlyMainContent = scrape_options.onlyMainContent opts,
                      action_options.includeTags = scrape_options.includeTags opts,
                      action_options.excludeTags = scrape_options.excludeTags opts,
                      action_options.waitFor = scrape_options.waitFor opts,
                      action_options.mobile = scrape_options.mobile opts,
                      action_options.proxy =
                        (case scrape_options.proxy opts of None \<Rightarrow> Basic | Some p \<Rightarrow> p),
                      action_options.storeScreenshot = scrape_options.storeScreenshot opts \<rparr>,
                  action_args.ttlMs = ttl \<rparr>
     in Inr (fst ins, s1\<lparr>scrapes := snd ins, scheduled := scheduled s1 @ [args]\<rparr>))))))"

text \<open>\<^verbatim>\<open>invalidate\<close> returns \<^verbatim>\<open>{success, invalidatedCount}\<close>.\<close>

fun invalidate_loop ::
    "(job_id \<times> scrape) list \<Rightarrow> int \<Rightarrow> scrape table \<Rightarrow> nat \<Rightarrow> exn + (scrape table \<times> nat)" where
  "invalidate_loop [] now t invalidatedCount = Inr (t, invalidatedCount)"
| "invalidate_loop (d # rest) now t invalidatedCount =
     (if status (snd d) = Completed \<and> expiresAt (snd d) > now then
        (case db_patch t (fst d) (\<lambda>j. j\<lparr>expiresAt := now\<rparr>) of
           Inl e \<Rightarrow> Inl e
         | Inr t' \<Rightarrow> invalidate_loop rest now t' (invalidatedCount + 1))
      else invalidate_loop rest now t invalidatedCount)"

definition invalidate ::
    "platform \<Rightarrow> string \<Rightarrow> int \<Rightarrow> store \<Rightarrow> exn + ((bool \<times> nat) \<times> store)" where
  "invalidate env u now s =
     (case validateUrl env u of
        Invalid e \<Rightarrow> Inr ((False, 0), s)
      | Valid \<Rightarrow>
          (case normalizeUrl env u of
             Inl e \<Rightarrow> Inl e
           | Inr normalized \<Rightarrow>
               let h = hashUrl env normalized in
               (case invalidate_loop (by_url_hash (scrapes s) h) now (scrapes s) 0 of
                  Inl e \<Rightarrow> Inl e
                | Inr (t', invalidatedCount) \<Rightarrow>
                    Inr ((True, invalidatedCount), s\<lparr>scrapes := t'\<rparr>))))"

text \<open>
  The deletion loop of \<^verbatim>\<open>deleteScrape\<close> and \<^verbatim>\<open>cleanupExpired\<close>: a failing deletion is
  caught and not counted.
\<close>

fun delete_files_counting :: "file_id list \<Rightarrow> blob table \<Rightarrow> nat \<Rightarrow> blob table \<times> nat" where
  "delete_files_counting [] fs deletedFileCount = (fs, deletedFileCount)"
| "delete_files_counting (fileId # rest) fs deletedFileCount =
     (case storage_delete fs fileId of
        Inl e \<Rightarrow> delete_files_counting rest fs deletedFileCount
      | Inr fs' \<Rightarrow> delete_files_counting rest fs' (deletedFileCount + 1))"

definition status_text :: "status \<Rightarrow> string" where
  "status_text st =
     (case st of Pending \<Rightarrow> ''pending'' | Scraping \<Rightarrow> ''scraping''
      | Completed \<Rightarrow> ''completed'' | Failed \<Rightarrow> ''failed'')"

definition deleteScrape :: "job_id \<Rightarrow> store \<Rightarrow> exn + ((bool \<times> nat) \<times> store)" where
  "deleteScrape i s =
     (case db_get (scrapes s) i of
        None \<Rightarrow> Inr ((False, 0), s)
      | Some d \<Rightarrow>
          if status d = Pending \<or> status d = Scraping then
            Inl (Error (''Cannot delete scrape with status '' @ [CHR 0x22] @
                        status_text (status d) @ [CHR 0x22] @
                        ''. Wait for scrape to complete or fail.''))
          else
            let r = delete_files_counting (fileIds d) (files s) 0 in
            (case db_delete (scrapes s) i of
               Inl e \<Rightarrow> Inl e
             | Inr t' \<Rightarrow> Inr ((True, snd r), s\<lparr>scrapes := t', files := fst r\<rparr>)))"

definition markScraping :: "job_id \<Rightarrow> int \<Rightarrow> store \<Rightarrow> exn + store" where
  "markScraping i now s =
     (case db_patch (scrapes s) i (\<lambda>j. j\<lparr>status := Scraping, scrapingAt := Some now\<rparr>) of
        Inl e \<Rightarrow> Inl e
      | Inr t' \<Rightarrow> Inr (s\<lparr>scrapes := t'\<rparr>))"

text \<open>
  \<^verbatim>\<open>ctx.db.patch\<close> with the content arguments of \<^verbatim>\<open>completeScrape\<close>: an argument
  that was passed overwrites the field, one that was not leaves it.
\<close>

definition passed :: "'a option \<Rightarrow> 'a option \<Rightarrow> 'a option" where
  "passed arg old = (case arg of None \<Rightarrow> old | Some v \<Rightarrow> Some v)"

definition patch_content :: "content \<Rightarrow> scrape \<Rightarrow> scrape" where
  "patch_content c j =
     j\<lparr> markdown := passed (markdown c) (markdown j),
        markdownFileId := passed (markdownFileId c) (markdownFileId j),
        html := passed (html c) (html j),
        htmlFileId := passed (htmlFileId c) (htmlFileId j),
        rawHtml := passed (rawHtml c) (rawHtml j),
        rawHtmlFileId := passed (rawHtmlFileId c) (rawHtmlFileId j),
        summary := passed (summary c) (summary j),
        links := passed (links c) (links j),
        linksFileId := passed (linksFileId c) (linksFileId j),
        images := passed (images c) (images j),
        imagesFileId := passed (imagesFileId c) (imagesFileId j),
        screenshotUrl := passed (screenshotUrl c) (screenshotUrl j),
        screenshotFileId := passed (screenshotFileId c) (screenshotFileId j),
        extractedJson := passed (extractedJson c) (extractedJson j),
        extractedJsonFileId := passed (extractedJsonFileId c) (extractedJsonFileId j),
        metadata := passed (metadata c) (metadata j) \<rparr>"

definition completeScrape :: "job_id \<Rightarrow> content \<Rightarrow> int \<Rightarrow> int \<Rightarrow> store \<Rightarrow> exn + store" where
  "completeScrape i c ttl now s =
     (case db_get (scrapes s) i of
        None \<Rightarrow> Inr s
      | Some job \<Rightarrow>
          if status job \<noteq> Pending \<and> status job \<noteq> Scraping then Inr s
          else
            (case db_patch (scrapes s) i
                    (\<lambda>j. patch_content c
                            (j\<lparr>status := Completed, scrapedAt := Some now,
                               expiresAt := now + ttl\<rparr>)) of
               Inl e \<Rightarrow> Inl e
             | Inr t' \<Rightarrow> Inr (s\<lparr>scrapes := t'\<rparr>)))"

definition failScrape ::
    "job_id \<Rightarrow> string \<Rightarrow> error_code option \<Rightarrow> store \<Rightarrow> exn + store" where
  "failScrape i err code s =
     (case db_get (scrapes s) i of
        None \<Rightarrow> Inr s
      | Some job \<Rightarrow>
          if status job = Completed \<or> status job = Failed then Inr s
          else
            (case db_patch (scrapes s) i
                    (\<lambda>j. j\<lparr>status := Failed, error := Some err, errorCode := code\<rparr>) of
               Inl e \<Rightarrow> Inl e
             | Inr t' \<Rightarrow> Inr (s\<lparr>scrapes := t'\<rparr>)))"

text \<open>\<^verbatim>\<open>cleanupExpired\<close> returns \<^verbatim>\<open>{deletedCount, deletedFileCount}\<close>.\<close>

fun cleanup_loop ::
    "(job_id \<times> scrape) list \<Rightarrow> store \<Rightarrow> nat \<Rightarrow> nat \<Rightarrow> exn + ((nat \<times> nat) \<times> store)" where
  "cleanup_loop [] s deletedCount deletedFileCount =
     Inr ((deletedCount, deletedFileCount), s)"
| "cleanup_loop (entry # rest) s deletedCount deletedFileCount =
     (if status (snd entry) \<noteq> Completed \<and> status (snd entry) \<noteq> Failed
      then cleanup_loop rest s deletedCount deletedFileCount
      else
        let r = delete_files_counting (fileIds (snd entry)) (files s) deletedFileCount in
        (case db_delete (scrapes s) (fst entry) of
           Inl e \<Rightarrow> Inl e
         | Inr t' \<Rightarrow>
             cleanup_loop rest (s\<lparr>scrapes := t', files := fst r\<rparr>) (deletedCount + 1) (snd r)))"

definition cleanupExpired :: "int \<Rightarrow> store \<Rightarrow> exn + ((nat \<times> nat) \<times> store)" where
  "cleanupExpired now s =
     (let expired = take CLEANUP_BATCH_SIZE (by_expires_lt (scrapes s) now)
      in cleanup_loop expired s 0 0)"

text \<open>\<^verbatim>\<open>markStuckJobsFailed\<close> returns \<^verbatim>\<open>{markedFailedCount}\<close>.\<close>

fun stuck_loop ::
    "(job_id \<times> scrape) list \<Rightarrow> scrape table \<Rightarrow> nat \<Rightarrow> exn + (nat \<times> scrape table)" where
  "stuck_loop [] t markedFailedCount = Inr (markedFailedCount, t)"
| "stuck_loop (job # rest) t markedFailedCount =
     (case db_patch t (fst job)
             (\<lambda>j. j\<lparr>status := Failed, error := Some ''Scrape timed out after 5 minutes''\<rparr>) of
        Inl e \<Rightarrow> Inl e
      | Inr t' \<Rightarrow> stuck_loop rest t' (markedFailedCount + 1))"

definition markStuckJobsFailed :: "int \<Rightarrow> store \<Rightarrow> exn + (nat \<times> store)" where
  "markStuckJobsFailed now s =
     (let cutoffTime = now - STUCK_JOB_TIMEOUT_MS;
          stuckJobs = by_status_scraping_lt (scrapes s) Scraping cutoffTime
      in case stuck_loop stuckJobs (scrapes s) 0 of
           Inl e \<Rightarrow> Inl e
         | Inr (markedFailedCount, t') \<Rightarrow> Inr (markedFailedCount, s\<lparr>scrapes := t'\<rparr>))"

section \<open>Storing the result of a scrape (scrapeAction in lib.ts)\<close>

text \<open>
  The block that \<^verbatim>\<open>scrapeAction\<close> repeats for each field that may go to file storage:
  when the text is longer than the threshold it is stored as a file and the field's
  \<^verbatim>\<open>FileId\<close> is set, otherwise the value is set inline. The result is the inline
  value, the file identifier, and the file storage.
\<close>

definition store_field ::
    "'a \<Rightarrow> string \<Rightarrow> string \<Rightarrow> blob table \<Rightarrow> ('a option \<times> file_id option) \<times> blob table" where
  "store_field v text mimeType fs =
     (if getByteLength text > FILE_STORAGE_THRESHOLD_BYTES then
        ((None, Some (fst (storage_store fs \<lparr> data = text, mime = mimeType \<rparr>))),
         snd (storage_store fs \<lparr> data = text, mime = mimeType \<rparr>))
      else ((Some v, None), fs))"

text \<open>\<^verbatim>\<open>if (data.markdown) {...}\<close>, and the same for html and rawHtml.\<close>

definition text_content ::
    "string option \<Rightarrow> string \<Rightarrow> blob table \<Rightarrow> (string option \<times> file_id option) \<times> blob table" where
  "text_content x mimeType fs =
     (case x of
        None \<Rightarrow> ((None, None), fs)
      | Some s \<Rightarrow> if s = [] then ((None, None), fs) else store_field s s mimeType fs)"

text \<open>\<^verbatim>\<open>if (data.links) {...}\<close>: an array is true in a condition, also when it is empty.\<close>

definition links_content ::
    "platform \<Rightarrow> string list option \<Rightarrow> blob table \<Rightarrow>
     (string list option \<times> file_id option) \<times> blob table" where
  "links_content env x fs =
     (case x of
        None \<Rightarrow> ((None, None), fs)
      | Some ls \<Rightarrow>
          store_field ls (JSON_stringify env (JArr (map JStr ls))) ''application/json'' fs)"

fun image_url :: "image \<Rightarrow> string" where
  "image_url (ImageString s) = s"
| "image_url (ImageObject u) = u"

definition images_content ::
    "platform \<Rightarrow> image list option \<Rightarrow> blob table \<Rightarrow>
     (string list option \<times> file_id option) \<times> blob table" where
  "images_content env x fs =
     (case x of
        None \<Rightarrow> ((None, None), fs)
      | Some imgs \<Rightarrow>
          store_field (map image_url imgs)
            (JSON_stringify env (JArr (map JStr (map image_url imgs)))) ''application/json'' fs)"

text \<open>
  The screenshot URL is always set inline. With \<^verbatim>\<open>storeScreenshot\<close> the image is also
  fetched and stored; \<open>fetch\<close> returns \<open>None\<close> when the request fails or its status is
  not ok, and then only the URL is kept.
\<close>

definition screenshot_content ::
    "(string \<Rightarrow> blob option) \<Rightarrow> bool option \<Rightarrow> string option \<Rightarrow> blob table \<Rightarrow>
     (string option \<times> file_id option) \<times> blob table" where
  "screenshot_content fetch storeShot x fs =
     (case x of
        None \<Rightarrow> ((None, None), fs)
      | Some s \<Rightarrow>
          if s = [] then ((None, None), fs)
          else if storeShot = Some True then
            (case fetch s of
               None \<Rightarrow> ((Some s, None), fs)
             | Some b \<Rightarrow> ((Some s, Some (fst (storage_store fs b))), snd (storage_store fs b)))
          else ((Some s, None), fs))"

definition extract_content ::
    "platform \<Rightarrow> json option \<Rightarrow> blob table \<Rightarrow> (json option \<times> file_id option) \<times> blob table" where
  "extract_content env x fs =
     (case x of
        None \<Rightarrow> ((None, None), fs)
      | Some e \<Rightarrow>
          if \<not> truthy_json e then ((None, None), fs)
          else store_field e (JSON_stringify env e) ''application/json'' fs)"

text \<open>A property of the metadata is copied when it is true in a condition.\<close>

definition kept :: "string option \<Rightarrow> string option" where
  "kept x = (if truthy_string x then x else None)"

definition empty_metadata :: metadata where
  "empty_metadata =
     \<lparr> title = None, description = None, language = None, sourceURL = None,
       statusCode = None, ogImage = None, ogTitle = None, ogDescription = None,
       ogSiteName = None, contentType = None, cacheControl = None \<rparr>"

definition metadata_content :: "metadata option \<Rightarrow> metadata option" where
  "metadata_content x =
     (case x of
        None \<Rightarrow> None
      | Some m \<Rightarrow>
          let copied =
            \<lparr> title = kept (title m), description = kept (description m),
              language = kept (language m), sourceURL = kept (sourceURL m),
              statusCode = (case statusCode m of
                              None \<Rightarrow> None
                            | Some c \<Rightarrow> if c = 0 then None else Some c),
              ogImage = kept (ogImage m), ogTitle = kept (ogTitle m),
              ogDescription = kept (ogDescription m), ogSiteName = kept (ogSiteName m),
              contentType = kept (contentType m), cacheControl = kept (cacheControl m) \<rparr>
          in if copied = empty_metadata then None else Some copied)"

text \<open>
  \<^verbatim>\<open>contentUpdate\<close>: the content arguments that the action passes to
  \<^verbatim>\<open>completeScrape\<close>, and the file storage after the files are stored. The fields are
  handled in the order of the source, on the file storage the one before left.
\<close>

definition contentUpdate ::
    "platform \<Rightarrow> (string \<Rightarrow> blob option) \<Rightarrow> action_options \<Rightarrow> firecrawl_data \<Rightarrow>
     blob table \<Rightarrow> content \<times> blob table" where
  "contentUpdate env fetch opts d fs =
     (let md = text_content (firecrawl_data.markdown d) ''text/markdown'' fs;
          ht = text_content (firecrawl_data.html d) ''text/html'' (snd md);
          rw = text_content (firecrawl_data.rawHtml d) ''text/html'' (snd ht);
          ln = links_content env (firecrawl_data.links d) (snd rw);
          im = images_content env (firecrawl_data.images d) (snd ln);
          sc = screenshot_content fetch (action_options.storeScreenshot opts)
                 (firecrawl_data.screenshot d) (snd im);
          ex = extract_content env (firecrawl_data.extracted d) (snd sc)
      in (\<lparr> markdown = fst (fst md), markdownFileId = snd (fst md),
             html = fst (fst ht), htmlFileId = snd (fst ht),
             rawHtml = fst (fst rw), rawHtmlFileId = snd (fst rw),
             summary = kept (firecrawl_data.summary d),
             links = fst (fst ln), linksFileId = snd (fst ln),
             images = fst (fst im), imagesFileId = snd (fst im),
             screenshotUrl = fst (fst sc), screenshotFileId = snd (fst sc),
             extractedJson = fst (fst ex), extractedJsonFileId = snd (fst ex),
             metadata = metadata_content (firecrawl_data.metadata d) \<rparr>,
          snd ex))"

text \<open>
  The end of a successful \<^verbatim>\<open>scrapeAction\<close>: the files are stored, then the
  \<^verbatim>\<open>completeScrape\<close> mutation runs. The action is not a transaction, so the files
  stay when the mutation throws; the action then reports the failure with \<^verbatim>\<open>failScrape\<close>.
\<close>

fun exn_message :: "exn \<Rightarrow> string" where
  "exn_message (Error m) = m"
| "exn_message (TypeError m) = m"
| "exn_message (DocumentNotFound i) = ''Document not found''"
| "exn_message (FileNotFound i) = ''File not found''"

definition storeResult ::
    "platform \<Rightarrow> (string \<Rightarrow> blob option) \<Rightarrow> action_args \<Rightarrow> firecrawl_data \<Rightarrow> int \<Rightarrow>
     store \<Rightarrow> exn + store" where
  "storeResult env fetch args d now s =
     (let update = contentUpdate env fetch (action_args.options args) d (files s);
          s1 = s\<lparr>files := snd update\<rparr>
      in case completeScrape (action_args.jobId args) (fst update) (action_args.ttlMs args)
                now s1 of
           Inl e \<Rightarrow> failScrape (action_args.jobId args) (exn_message e) None s1
         | Inr s2 \<Rightarrow> Inr s2)"


section \<open>The component as a transition system\<close>

text \<open>
  What the deployed component can do, one transaction at a time. Clients call the public
  mutations \<^verbatim>\<open>startScrape\<close>, \<^verbatim>\<open>invalidate\<close> and \<^verbatim>\<open>deleteScrape\<close>; the cron jobs call
  \<^verbatim>\<open>cleanupExpired\<close> and \<^verbatim>\<open>markStuckJobsFailed\<close>; the internal mutations
  \<^verbatim>\<open>markScraping\<close>, \<^verbatim>\<open>completeScrape\<close> and \<^verbatim>\<open>failScrape\<close> are called by
  \<^verbatim>\<open>scrapeAction\<close> only. The scheduler runs each scheduled \<^verbatim>\<open>scrapeAction\<close> at most
  once: it begins with \<^verbatim>\<open>markScraping\<close> and, unless that throws, ends with the stored
  result or with \<^verbatim>\<open>failScrape\<close>. Other transactions may run between the two. A mutation
  that throws changes nothing, and queries change nothing. The times are not constrained.

  \<open>begun\<close> and \<open>ended\<close> hold the positions in \<open>scheduled\<close> of the actions that have begun and
  ended.
\<close>

record world =
  db :: store
  begun :: "nat set"
  ended :: "nat set"

definition initial_world :: world where
  "initial_world = \<lparr> db = \<lparr> scrapes = [], files = [], scheduled = [] \<rparr>, begun = {}, ended = {} \<rparr>"

inductive reachable :: "platform \<Rightarrow> (string \<Rightarrow> blob option) \<Rightarrow> world \<Rightarrow> bool"
  for env :: platform and fetch :: "string \<Rightarrow> blob option" where
  at_first: "reachable env fetch initial_world"
| started: "reachable env fetch w \<Longrightarrow> startScrape env u key opts now (db w) = Inr (i, s') \<Longrightarrow>
     reachable env fetch (w\<lparr>db := s'\<rparr>)"
| action_begins: "reachable env fetch w \<Longrightarrow> k < length (scheduled (db w)) \<Longrightarrow> k \<notin> begun w \<Longrightarrow>
     markScraping (action_args.jobId (scheduled (db w) ! k)) now (db w) = Inr s' \<Longrightarrow>
     reachable env fetch (w\<lparr>db := s', begun := insert k (begun w)\<rparr>)"
| action_throws: "reachable env fetch w \<Longrightarrow> k < length (scheduled (db w)) \<Longrightarrow> k \<notin> begun w \<Longrightarrow>
     markScraping (action_args.jobId (scheduled (db w) ! k)) now (db w) = Inl e \<Longrightarrow>
     reachable env fetch (w\<lparr>begun := insert k (begun w), ended := insert k (ended w)\<rparr>)"
| action_succeeds: "reachable env fetch w \<Longrightarrow> k < length (scheduled (db w)) \<Longrightarrow> k \<in> begun w \<Longrightarrow>
     k \<notin> ended w \<Longrightarrow>
     storeResult env fetch (scheduled (db w) ! k) d now (db w) = Inr s' \<Longrightarrow>
     reachable env fetch (w\<lparr>db := s', ended := insert k (ended w)\<rparr>)"
| action_fails: "reachable env fetch w \<Longrightarrow> k < length (scheduled (db w)) \<Longrightarrow> k \<in> begun w \<Longrightarrow>
     k \<notin> ended w \<Longrightarrow>
     failScrape (action_args.jobId (scheduled (db w) ! k)) err code (db w) = Inr s' \<Longrightarrow>
     reachable env fetch (w\<lparr>db := s', ended := insert k (ended w)\<rparr>)"
| invalidated: "reachable env fetch w \<Longrightarrow> invalidate env u now (db w) = Inr (r, s') \<Longrightarrow>
     reachable env fetch (w\<lparr>db := s'\<rparr>)"
| deleted: "reachable env fetch w \<Longrightarrow> deleteScrape i (db w) = Inr (r, s') \<Longrightarrow>
     reachable env fetch (w\<lparr>db := s'\<rparr>)"
| cleaned: "reachable env fetch w \<Longrightarrow> cleanupExpired now (db w) = Inr (r, s') \<Longrightarrow>
     reachable env fetch (w\<lparr>db := s'\<rparr>)"
| swept: "reachable env fetch w \<Longrightarrow> markStuckJobsFailed now (db w) = Inr (n, s') \<Longrightarrow>
     reachable env fetch (w\<lparr>db := s'\<rparr>)"





section \<open>A reference platform\<close>

text \<open>
  The theorems below hold for every platform. To run the component on concrete inputs, the
  built-in functions are given here for plain URLs
  \<^verbatim>\<open>scheme://host[:port][/path][?query][#fragment]\<close>: a scheme among http, https, ftp, ws
  and wss, a host of non-empty labels of letters, digits and hyphens (a host ending in a
  number only when it is a dotted quad in canonical decimal form), a decimal port, and a
  path and a query of letters, digits and the punctuation listed in \<open>path_char\<close> and
  \<open>query_char\<close>, the path without dot segments. On these the WHATWG URL parser does what
  \<open>plain_URL\<close> does. Any other string is rejected here, which the real parser need not do.
\<close>

definition is_alpha :: "char \<Rightarrow> bool" where
  "is_alpha c = (c \<in> set (ascii_upper @ ascii_lower))"

definition host_char :: "char \<Rightarrow> bool" where
  "host_char c = (is_alpha c \<or> is_digit c \<or> c = CHR ''-'' \<or> c = CHR ''.'')"

definition path_char :: "char \<Rightarrow> bool" where
  "path_char c = (is_alpha c \<or> is_digit c \<or> c \<in> set ''-._~!$&()*+,;=:@/'')"

definition query_char :: "char \<Rightarrow> bool" where
  "query_char c = (is_alpha c \<or> is_digit c \<or> c \<in> set ''-._~!$&()*+,;=:@/?'')"

text \<open>The part before the first \<open>c\<close>, and the part after it when there is one.\<close>

definition split_at :: "char \<Rightarrow> string \<Rightarrow> string \<times> string option" where
  "split_at c s =
     (takeWhile (\<lambda>x. x \<noteq> c) s,
      case dropWhile (\<lambda>x. x \<noteq> c) s of [] \<Rightarrow> None | x # r \<Rightarrow> Some r)"

fun split_on :: "char \<Rightarrow> string \<Rightarrow> string list" where
  "split_on c [] = [[]]"
| "split_on c (x # xs) =
     (if x = c then [] # split_on c xs
      else case split_on c xs of [] \<Rightarrow> [[x]] | p # ps \<Rightarrow> (x # p) # ps)"

definition nat_of_digits :: "string \<Rightarrow> nat" where
  "nat_of_digits ds = foldl (\<lambda>acc c. 10 * acc + length (takeWhile (\<lambda>d. d \<noteq> c) digits)) 0 ds"

definition canonical_octet :: "string \<Rightarrow> bool" where
  "canonical_octet l =
     (l \<noteq> [] \<and> list_all is_digit l \<and> (l = ''0'' \<or> hd l \<noteq> CHR ''0'') \<and>
      nat_of_digits l \<le> 255)"

definition plain_host :: "string \<Rightarrow> bool" where
  "plain_host h =
     (let labels = split_on CHR ''.'' h in
      list_all host_char h \<and> list_all (\<lambda>l. l \<noteq> []) labels \<and>
      list_all (\<lambda>l. \<not> prefix ''xn--'' (toLowerCase l)) labels \<and>
      (is_digit (hd (last labels)) \<longrightarrow>
         length labels = 4 \<and> list_all canonical_octet labels))"

definition default_port :: "string \<Rightarrow> nat" where
  "default_port scheme =
     (if scheme = ''http'' \<or> scheme = ''ws'' then 80
      else if scheme = ''https'' \<or> scheme = ''wss'' then 443
      else 21)"

definition plain_URL :: "string \<Rightarrow> url_record option" where
  "plain_URL u =
     (case split_at CHR '':'' u of
        (scheme0, None) \<Rightarrow> None
      | (scheme0, Some rest) \<Rightarrow>
          let scheme = toLowerCase scheme0 in
          if scheme \<notin> set [''http'', ''https'', ''ftp'', ''ws'', ''wss''] \<or> \<not> prefix ''//'' rest
          then None
          else
            let before_fragment = fst (split_at CHR ''#'' (drop 2 rest));
                before_query = fst (split_at CHR ''?'' before_fragment);
                query = snd (split_at CHR ''?'' before_fragment);
                authority = takeWhile (\<lambda>x. x \<noteq> CHR ''/'') before_query;
                path = dropWhile (\<lambda>x. x \<noteq> CHR ''/'') before_query;
                host = fst (split_at CHR '':'' authority);
                port_digits = (case snd (split_at CHR '':'' authority) of
                                 None \<Rightarrow> [] | Some ds \<Rightarrow> ds);
                q = (case query of None \<Rightarrow> [] | Some qs \<Rightarrow> qs)
            in
            if host = [] \<or> \<not> plain_host host \<or> \<not> list_all is_digit port_digits \<or>
               nat_of_digits port_digits > 65535 \<or> \<not> list_all path_char path \<or>
               list_ex (\<lambda>seg. seg = ''.'' \<or> seg = ''..'') (split_on CHR ''/'' path) \<or>
               \<not> list_all query_char q
            then None
            else Some
              \<lparr> protocol = scheme @ '':'',
                hostname = toLowerCase host,
                port = (if port_digits = [] \<or> nat_of_digits port_digits = default_port scheme
                        then [] else string_of_nat (nat_of_digits port_digits)),
                pathname = (if path = [] then ''/'' else path),
                search = (if q = [] then [] else ''?'' @ q) \<rparr>)"

text \<open>
  The name-value pairs of a query string without percent escapes: split at \<^verbatim>\<open>&\<close>, then
  at the first \<^verbatim>\<open>=\<close>, with \<^verbatim>\<open>+\<close> read as a space.
\<close>

definition plus_to_space :: "string \<Rightarrow> string" where
  "plus_to_space s = map (\<lambda>c. if c = CHR ''+'' then CHR '' '' else c) s"

definition plain_URLSearchParams :: "string \<Rightarrow> (string \<times> string) list" where
  "plain_URLSearchParams init =
     (let q = (if prefix ''?'' init then tl init else init) in
      map (\<lambda>seq. (plus_to_space (fst (split_at CHR ''='' seq)),
                  plus_to_space (case snd (split_at CHR ''='' seq) of
                                   None \<Rightarrow> [] | Some v \<Rightarrow> v)))
          (filter (\<lambda>seq. seq \<noteq> []) (split_on CHR ''&'' q)))"

text \<open>The \<^verbatim>\<open>application/x-www-form-urlencoded\<close> serialiser.\<close>

definition upper_hex_digit :: "nat \<Rightarrow> char" where
  "upper_hex_digit d = ''0123456789ABCDEF'' ! d"

definition form_byte :: "nat \<Rightarrow> string" where
  "form_byte b =
     (let c = (char_of b :: char) in
      if is_alpha c \<or> is_digit c \<or> c \<in> set ''*-._'' then [c]
      else if b = 32 then ''+''
      else [CHR ''%'', upper_hex_digit (b div 16), upper_hex_digit (b mod 16)])"

definition form_urlencode :: "string \<Rightarrow> string" where
  "form_urlencode s = concat (map form_byte (utf8_encode s))"

fun join :: "string \<Rightarrow> string list \<Rightarrow> string" where
  "join sep [] = []"
| "join sep [x] = x"
| "join sep (x # y # ys) = x @ sep @ join sep (y # ys)"

definition plain_toString :: "(string \<times> string) list \<Rightarrow> string" where
  "plain_toString params =
     join ''&'' (map (\<lambda>p. form_urlencode (fst p) @ ''='' @ form_urlencode (snd p)) params)"

text \<open>
  \<^verbatim>\<open>JSON.stringify\<close> on the values of \<^typ>\<open>json\<close>, for numbers that are integers
  of less than 22 digits: a larger number is printed with an exponent, which is not
  modelled.
\<close>

definition json_quote_char :: "char \<Rightarrow> string" where
  "json_quote_char c =
     (let n = (of_char c :: nat) in
      if n = 34 then [CHR 0x5C, CHR 0x22]
      else if n = 92 then [CHR 0x5C, CHR 0x5C]
      else if n = 8 then [CHR 0x5C, CHR ''b'']
      else if n = 9 then [CHR 0x5C, CHR ''t'']
      else if n = 10 then [CHR 0x5C, CHR ''n'']
      else if n = 12 then [CHR 0x5C, CHR ''f'']
      else if n = 13 then [CHR 0x5C, CHR ''r'']
      else if n < 32 then [CHR 0x5C, CHR ''u'', CHR ''0'', CHR ''0'', hex_digit (n div 16),
                           hex_digit (n mod 16)]
      else [c])"

definition json_quote :: "string \<Rightarrow> string" where
  "json_quote s = [CHR 0x22] @ concat (map json_quote_char s) @ [CHR 0x22]"

fun plain_stringify :: "json \<Rightarrow> string" where
  "plain_stringify JNull = ''null''"
| "plain_stringify (JBool b) = (if b then ''true'' else ''false'')"
| "plain_stringify (JNum n) =
     (if n < 0 then ''-'' @ string_of_nat (nat (- n)) else string_of_nat (nat n))"
| "plain_stringify (JStr s) = json_quote s"
| "plain_stringify (JArr xs) = ''['' @ join '','' (map plain_stringify xs) @ '']''"
| "plain_stringify (JObj kvs) =
     ''{'' @ join '','' (map (\<lambda>kv. json_quote (fst kv) @ '':'' @ plain_stringify (snd kv)) kvs) @
     ''}''"

text \<open>
  The digest is left as the identity on bytes: no theorem depends on what it computes.
\<close>

definition plain_platform :: platform where
  "plain_platform =
     \<lparr> URL_new = plain_URL,
       URLSearchParams_new = plain_URLSearchParams,
       URLSearchParams_toString = plain_toString,
       sha256 = (\<lambda>bytes. bytes),
       JSON_stringify = plain_stringify \<rparr>"

section \<open>Example data\<close>

definition example_page :: string where
  "example_page = ''https://example.com/page''"

text \<open>A document for \<open>example_page\<close> created at time 1000, with a status and an expiry.\<close>

definition example_job :: "status \<Rightarrow> int \<Rightarrow> scrape" where
  "example_job st expires =
     (new_scrape example_page example_page (hashUrl plain_platform example_page)
        [''markdown''] 1000 0 None)\<lparr>status := st, expiresAt := expires\<rparr>"

definition example_store :: "scrape table \<Rightarrow> store" where
  "example_store t = \<lparr> scrapes = t, files = [], scheduled = [] \<rparr>"

definition no_content :: content where
  "no_content =
     \<lparr> markdown = None, markdownFileId = None, html = None, htmlFileId = None,
       rawHtml = None, rawHtmlFileId = None, summary = None, links = None,
       linksFileId = None, images = None, imagesFileId = None, screenshotUrl = None,
       screenshotFileId = None, extractedJson = None, extractedJsonFileId = None,
       metadata = None \<rparr>"

definition terminal :: "status \<Rightarrow> bool" where
  "terminal st = (st = Completed \<or> st = Failed)"

text \<open>
  Three documents at time 1000000: one that began scraping 300001 ms ago, one that began
  299999 ms ago, and one still pending that was created at time 1000.
\<close>

definition stuck_example :: store where
  "stuck_example =
     example_store
       [Some ((example_job Scraping 5000)\<lparr>scrapingAt := Some 699999\<rparr>),
        Some ((example_job Scraping 5000)\<lparr>scrapingAt := Some 700001\<rparr>),
        Some (example_job Pending 5000)]"

text \<open>
  At time 1000: a completed document that expired at 500 and has a stored markdown file,
  a pending document whose placeholder expiry 500 has passed, and a failed document that
  expires at 2000.
\<close>

definition cleanup_example :: store where
  "cleanup_example =
     \<lparr> scrapes =
         [Some ((example_job Completed 500)\<lparr>markdownFileId := Some 0\<rparr>),
          Some (example_job Pending 500),
          Some (example_job Failed 2000)],
       files = [Some \<lparr> data = ''# Page'', mime = ''text/markdown'' \<rparr>],
       scheduled = [] \<rparr>"

text \<open>No option set, and the same with a time-to-live of one minute.\<close>

definition no_options :: scrape_options where
  "no_options =
     \<lparr> scrape_options.formats = None, scrape_options.extractionSchema = None,
       scrape_options.ttlMs = None, scrape_options.force = None,
       scrape_options.onlyMainContent = None, scrape_options.includeTags = None,
       scrape_options.excludeTags = None, scrape_options.waitFor = None,
       scrape_options.mobile = None, scrape_options.proxy = None,
       scrape_options.storeScreenshot = None \<rparr>"

definition one_minute :: scrape_options where
  "one_minute = no_options\<lparr>scrape_options.ttlMs := Some 60000\<rparr>"

text \<open>
  At time 2000: a completed document that expired at 1500, a failed document, and a
  completed document that expires at 5000.
\<close>

definition cached_example :: store where
  "cached_example =
     example_store
       [Some (example_job Completed 1500),
        Some (example_job Failed 5000),
        Some (example_job Completed 5000)]"

text \<open>
  At time 2000: a completed document with markdown that expires at 5000, and a newer
  pending document for the same URL that was started to fetch the html format, which the
  completed one does not have.
\<close>

definition conflict_example :: store where
  "conflict_example =
     example_store
       [Some (example_job Completed 5000),
        Some ((example_job Pending 5000)\<lparr>formats := [''html'']\<rparr>)]"

text \<open>Three URLs that validation rejects; the last one has 2020 characters.\<close>

definition localhost_url :: string where
  "localhost_url = ''http://localhost:3000/x''"

definition ftp_url :: string where
  "ftp_url = ''ftp://example.com''"

definition long_url :: string where
  "long_url = ''https://example.com/'' @ replicate 2000 CHR ''a''"

text \<open>A URL whose path ends in two slashes.\<close>

definition double_slash_url :: string where
  "double_slash_url = ''https://example.com/path//''"







text \<open>
  A URL with an IPv6 link-local address as its host. \<^verbatim>\<open>new URL(...).hostname\<close> keeps the
  brackets of an IPv6 address: it is \<^verbatim>\<open>[fe80::1]\<close> here. The reference platform does not
  read IPv6 hosts, so \<open>ipv6_platform\<close> adds this one URL to it.
\<close>

definition link_local_url :: string where
  "link_local_url = ''http://[fe80::1]/''"

definition ipv6_platform :: platform where
  "ipv6_platform =
     plain_platform\<lparr> URL_new :=
       (\<lambda>u. if u = link_local_url
            then Some \<lparr> protocol = ''http:'', hostname = ''[fe80::1]'', port = [],
                        pathname = ''/'', search = [] \<rparr>
            else plain_URL u) \<rparr>"

section \<open>Facts about the store\<close>

lemma db_get_update:
  "db_get (t[i := x]) k = (if k = i \<and> i < length t then x else db_get t k)"
  by (auto simp: db_get_def)

lemma db_get_SomeD: "db_get t i = Some x \<Longrightarrow> i < length t \<and> t ! i = Some x"
  by (auto simp: db_get_def split: if_splits)

lemma db_patch_Some: "db_get t i = Some x \<Longrightarrow> db_patch t i f = Inr (t[i := Some (f x)])"
  by (simp add: db_patch_def)

lemma status_patch_content [simp]: "status (patch_content c j) = status j"
  by (simp add: patch_content_def)

lemma docs_from_iff:
  "(i, x) \<in> set (docs_from n t) \<longleftrightarrow> n \<le> i \<and> i - n < length t \<and> t ! (i - n) = Some x"
proof (induction t arbitrary: n i x)
  case Nil
  then show ?case by simp
next
  case (Cons a t)
  have step: "\<And>m j y. (j, y) \<in> set (docs_from (Suc m) t) \<longleftrightarrow>
      Suc m \<le> j \<and> j - Suc m < length t \<and> t ! (j - Suc m) = Some y"
    using Cons.IH by blast
  show ?case
  proof (cases a)
    case None
    then show ?thesis
      by (cases "i = n") (auto simp: step nth_Cons' Suc_le_eq)
  next
    case (Some y)
    then show ?thesis
      by (cases "i = n") (auto simp: step nth_Cons' Suc_le_eq)
  qed
qed

lemma in_docs_iff: "(i, x) \<in> set (docs t) \<longleftrightarrow> db_get t i = Some x"
  by (auto simp: docs_def docs_from_iff db_get_def)

lemma docs_from_fst_ge: "d \<in> set (docs_from n t) \<Longrightarrow> n \<le> fst d"
  using docs_from_iff [of "fst d" "snd d" n t] by simp

lemma sorted_docs_from: "sorted (map fst (docs_from n t))"
proof (induction t arbitrary: n)
  case Nil
  then show ?case by simp
next
  case (Cons a t)
  show ?case
  proof (cases a)
    case None
    then show ?thesis using Cons.IH by simp
  next
    case (Some y)
    then show ?thesis
      using Cons.IH [of "Suc n"] docs_from_fst_ge [of _ "Suc n" t] by fastforce
  qed
qed

lemma distinct_docs_from: "distinct (map fst (docs_from n t))"
proof (induction t arbitrary: n)
  case Nil
  then show ?case by simp
next
  case (Cons a t)
  show ?case
  proof (cases a)
    case None
    then show ?thesis using Cons.IH by simp
  next
    case (Some y)
    then show ?thesis
      using Cons.IH [of "Suc n"] docs_from_fst_ge [of _ "Suc n" t] by fastforce
  qed
qed

lemma distinct_docs: "distinct (map fst (docs t))"
  by (simp add: docs_def distinct_docs_from)

lemma sorted_docs: "sorted (map fst (docs t))"
  by (simp add: docs_def sorted_docs_from)

lemma in_by_status_scraping_lt:
  "d \<in> set (by_status_scraping_lt t st b) \<longleftrightarrow>
     db_get t (fst d) = Some (snd d) \<and> status (snd d) = st \<and> scrapingAt (snd d) < Some b"
  using in_docs_iff [of "fst d" "snd d" t] by (auto simp: by_status_scraping_lt_def)

lemma distinct_by_status_scraping_lt: "distinct (map fst (by_status_scraping_lt t st b))"
proof -
  have "distinct (map fst (sort_key (\<lambda>d. scrapingAt (snd d)) (docs t)))"
    using distinct_docs [of t]
    by (metis (no_types, lifting) distinct_map distinct_sort inj_on_cong set_sort)
  then show ?thesis
    unfolding by_status_scraping_lt_def by (rule distinct_map_filter)
qed

lemma take_sorted_wrt:
  assumes "sorted_wrt R xs" and "x \<in> set xs" and "x \<notin> set (take n xs)"
  shows "length (take n xs) = n \<and> (\<forall>d\<in>set (take n xs). R d x)"
proof -
  have xs: "xs = take n xs @ drop n xs" by simp
  from assms(2,3) have d: "x \<in> set (drop n xs)"
    using xs by (metis Un_iff set_append)
  then have "n < length xs" by (cases "n < length xs") auto
  then have l: "length (take n xs) = n" by simp
  from assms(1) have "sorted_wrt R (take n xs @ drop n xs)" by simp
  then have "\<forall>a\<in>set (take n xs). \<forall>b\<in>set (drop n xs). R a b"
    unfolding sorted_wrt_append by blast
  with d l show ?thesis by blast
qed

lemma db_get_map: "db_get (map (map_option h) t) k = map_option h (db_get t k)"
  by (simp add: db_get_def)

lemma table_eqI:
  assumes "length t = length t'" and "\<And>k. db_get t k = db_get t' k"
  shows "t = t'"
proof (rule nth_equalityI)
  show "length t = length t'" by (rule assms(1))
next
  fix i assume "i < length t"
  then show "t ! i = t' ! i"
    using assms(1) assms(2) [of i] by (simp add: db_get_def)
qed

lemma stuck_loop_result:
  assumes "\<forall>d\<in>set ds. db_get t (fst d) \<noteq> None"
  shows "\<exists>t'. stuck_loop ds t n = Inr (n + length ds, t') \<and> length t' = length t \<and>
      (\<forall>k. db_get t' k =
         (if k \<in> fst ` set ds
          then map_option (\<lambda>j. j\<lparr>status := Failed,
                 error := Some ''Scrape timed out after 5 minutes''\<rparr>) (db_get t k)
          else db_get t k))"
  using assms
proof (induction ds arbitrary: t n)
  case Nil
  then show ?case by simp
next
  case (Cons d ds)
  let ?f = "\<lambda>j::scrape. j\<lparr>status := Failed, error := Some ''Scrape timed out after 5 minutes''\<rparr>"
  from Cons.prems obtain x where x: "db_get t (fst d) = Some x" by auto
  let ?t1 = "t[fst d := Some (?f x)]"
  have p: "db_patch t (fst d) ?f = Inr ?t1"
    using x by (rule db_patch_Some)
  have lt: "fst d < length t" using db_get_SomeD [OF x] by simp
  have ex: "\<forall>e\<in>set ds. db_get ?t1 (fst e) \<noteq> None"
    using Cons.prems by (auto simp: db_get_update)
  from Cons.IH [OF ex, of "n + 1"] obtain t' where
    r: "stuck_loop ds ?t1 (n + 1) = Inr (n + 1 + length ds, t')" and
    l: "length t' = length ?t1" and
    g: "\<And>k. db_get t' k =
         (if k \<in> fst ` set ds then map_option ?f (db_get ?t1 k) else db_get ?t1 k)"
    by blast
  have "stuck_loop (d # ds) t n = Inr (n + length (d # ds), t')"
    using p r by simp
  moreover have "length t' = length t" using l by simp
  moreover have "\<forall>k. db_get t' k =
         (if k \<in> fst ` set (d # ds) then map_option ?f (db_get t k) else db_get t k)"
    using g x lt by (auto simp: db_get_update)
  ultimately show ?case by blast
qed

lemma markStuck_char:
  "\<exists>s'. markStuckJobsFailed now s =
          Inr (length (by_status_scraping_lt (scrapes s) Scraping (now - STUCK_JOB_TIMEOUT_MS)), s') \<and>
        files s' = files s \<and> scheduled s' = scheduled s \<and>
        length (scrapes s') = length (scrapes s) \<and>
        (\<forall>k. db_get (scrapes s') k =
           (case db_get (scrapes s) k of
              None \<Rightarrow> None
            | Some j \<Rightarrow>
                if status j = Scraping \<and> scrapingAt j < Some (now - STUCK_JOB_TIMEOUT_MS)
                then Some (j\<lparr>status := Failed,
                             error := Some ''Scrape timed out after 5 minutes''\<rparr>)
                else Some j))"
proof -
  let ?ds = "by_status_scraping_lt (scrapes s) Scraping (now - STUCK_JOB_TIMEOUT_MS)"
  have ex: "\<forall>d\<in>set ?ds. db_get (scrapes s) (fst d) \<noteq> None"
    by (simp add: in_by_status_scraping_lt)
  from stuck_loop_result [OF ex, of 0] obtain t' where
    r: "stuck_loop ?ds (scrapes s) 0 = Inr (length ?ds, t')" and
    l: "length t' = length (scrapes s)" and
    g: "\<And>k. db_get t' k =
         (if k \<in> fst ` set ?ds
          then map_option (\<lambda>j. j\<lparr>status := Failed,
                 error := Some ''Scrape timed out after 5 minutes''\<rparr>) (db_get (scrapes s) k)
          else db_get (scrapes s) k)"
    by auto
  have sel: "\<And>k. k \<in> fst ` set ?ds \<longleftrightarrow>
      (\<exists>j. db_get (scrapes s) k = Some j \<and> status j = Scraping \<and>
           scrapingAt j < Some (now - STUCK_JOB_TIMEOUT_MS))"
  proof -
    fix k
    show "k \<in> fst ` set ?ds \<longleftrightarrow>
      (\<exists>j. db_get (scrapes s) k = Some j \<and> status j = Scraping \<and>
           scrapingAt j < Some (now - STUCK_JOB_TIMEOUT_MS))"
    proof
      assume "k \<in> fst ` set ?ds"
      then obtain d where "d \<in> set ?ds" and "k = fst d" by auto
      then show "\<exists>j. db_get (scrapes s) k = Some j \<and> status j = Scraping \<and>
           scrapingAt j < Some (now - STUCK_JOB_TIMEOUT_MS)"
        using in_by_status_scraping_lt [of d "scrapes s" Scraping] by auto
    next
      assume "\<exists>j. db_get (scrapes s) k = Some j \<and> status j = Scraping \<and>
           scrapingAt j < Some (now - STUCK_JOB_TIMEOUT_MS)"
      then obtain j where "db_get (scrapes s) k = Some j" "status j = Scraping"
        "scrapingAt j < Some (now - STUCK_JOB_TIMEOUT_MS)" by auto
      then have "(k, j) \<in> set ?ds"
        using in_by_status_scraping_lt [of "(k, j)" "scrapes s" Scraping] by simp
      then show "k \<in> fst ` set ?ds" by force
    qed
  qed
  have "markStuckJobsFailed now s = Inr (length ?ds, s\<lparr>scrapes := t'\<rparr>)"
    using r by (simp add: markStuckJobsFailed_def)
  moreover have "\<forall>k. db_get t' k =
           (case db_get (scrapes s) k of
              None \<Rightarrow> None
            | Some j \<Rightarrow>
                if status j = Scraping \<and> scrapingAt j < Some (now - STUCK_JOB_TIMEOUT_MS)
                then Some (j\<lparr>status := Failed,
                             error := Some ''Scrape timed out after 5 minutes''\<rparr>)
                else Some j)"
    unfolding g sel by (auto split: option.splits)
  ultimately show ?thesis using l by simp
qed

lemma less_Some_iff: "(x < Some b) = (case x of None \<Rightarrow> True | Some t \<Rightarrow> t < b)"
  by (cases x) simp_all

lemma length_by_status_scraping_lt:
  "length (by_status_scraping_lt t st b) =
     length (filter (\<lambda>d. status (snd d) = st \<and> scrapingAt (snd d) < Some b) (docs t))"
  unfolding by_status_scraping_lt_def
  by (metis (no_types, lifting) filter_sort length_sort)

lemma docs_from_map:
  "docs_from n (map (map_option h) t) = map (\<lambda>d. (fst d, h (snd d))) (docs_from n t)"
proof (induction t arbitrary: n)
  case Nil
  then show ?case by simp
next
  case (Cons a t)
  then show ?case by (cases a) simp_all
qed

lemma live_ids: "fst ` set (docs t) = {k. db_get t k \<noteq> None}"
proof -
  have "\<And>k. k \<in> fst ` set (docs t) \<longleftrightarrow> db_get t k \<noteq> None"
  proof -
    fix k
    show "k \<in> fst ` set (docs t) \<longleftrightarrow> db_get t k \<noteq> None"
    proof
      assume "k \<in> fst ` set (docs t)"
      then obtain d where "d \<in> set (docs t)" "k = fst d" by auto
      then show "db_get t k \<noteq> None"
        using in_docs_iff [of "fst d" "snd d" t] by simp
    next
      assume "db_get t k \<noteq> None"
      then obtain x where "db_get t k = Some x" by auto
      then have "(k, x) \<in> set (docs t)" by (simp add: in_docs_iff)
      then show "k \<in> fst ` set (docs t)" by force
    qed
  qed
  then show ?thesis by blast
qed

lemma length_docs_card: "length (docs t) = card {k. db_get t k \<noteq> None}"
proof -
  have "length (docs t) = length (map fst (docs t))" by simp
  also have "\<dots> = card (set (map fst (docs t)))"
    using distinct_docs [of t] distinct_card [of "map fst (docs t)"] by simp
  also have "\<dots> = card {k. db_get t k \<noteq> None}"
    using live_ids [of t] by simp
  finally show ?thesis .
qed

lemma finite_live: "finite {k. db_get t k \<noteq> None}"
  using live_ids [of t] by (metis List.finite_set finite_imageI)

lemma length_docs_delete:
  assumes "db_get t i = Some x"
  shows "Suc (length (docs (t[i := None]))) = length (docs t)"
proof -
  have lt: "i < length t" using db_get_SomeD [OF assms] by simp
  have "{k. db_get (t[i := None]) k \<noteq> None} = {k. db_get t k \<noteq> None} - {i}"
    using lt by (auto simp: db_get_update)
  moreover have "i \<in> {k. db_get t k \<noteq> None}" using assms by simp
  ultimately have "Suc (card {k. db_get (t[i := None]) k \<noteq> None}) = card {k. db_get t k \<noteq> None}"
    using finite_live [of t] card_Suc_Diff1 [of "{k. db_get t k \<noteq> None}" i] by simp
  then show ?thesis by (simp only: length_docs_card)
qed

lemma delete_files_counting_result:
  "\<exists>fs' n'. delete_files_counting ids fs n = (fs', n') \<and> length fs' = length fs \<and>
      n' + length (docs fs') = n + length (docs fs) \<and>
      (\<forall>k. db_get fs' k = (if k \<in> set ids then None else db_get fs k))"
proof (induction ids arbitrary: fs n)
  case Nil
  then show ?case by simp
next
  case (Cons i ids)
  show ?case
  proof (cases "db_get fs i")
    case None
    then have d: "storage_delete fs i = Inl (FileNotFound i)"
      by (simp add: storage_delete_def)
    from Cons.IH [of fs n] obtain fs' n' where
      "delete_files_counting ids fs n = (fs', n')" "length fs' = length fs"
      "n' + length (docs fs') = n + length (docs fs)"
      "\<And>k. db_get fs' k = (if k \<in> set ids then None else db_get fs k)"
      by blast
    then show ?thesis using d None by auto
  next
    case (Some b)
    then have d: "storage_delete fs i = Inr (fs[i := None])"
      by (simp add: storage_delete_def)
    have lt: "i < length fs" using db_get_SomeD [OF Some] by simp
    from Cons.IH [of "fs[i := None]" "n + 1"] obtain fs' n' where
      r: "delete_files_counting ids (fs[i := None]) (n + 1) = (fs', n')" and
      l: "length fs' = length (fs[i := None])" and
      c: "n' + length (docs fs') = n + 1 + length (docs (fs[i := None]))" and
      g: "\<And>k. db_get fs' k = (if k \<in> set ids then None else db_get (fs[i := None]) k)"
      by blast
    have "delete_files_counting (i # ids) fs n = (fs', n')" using d r by simp
    moreover have "length fs' = length fs" using l by simp
    moreover have "n' + length (docs fs') = n + length (docs fs)"
      using c length_docs_delete [OF Some] by simp
    moreover have "\<forall>k. db_get fs' k = (if k \<in> set (i # ids) then None else db_get fs k)"
      using g lt by (auto simp: db_get_update)
    ultimately show ?thesis by blast
  qed
qed

lemma db_delete_Some: "db_get t i = Some x \<Longrightarrow> db_delete t i = Inr (t[i := None])"
  by (simp add: db_delete_def)

lemma in_by_expires_lt:
  "d \<in> set (by_expires_lt t b) \<longleftrightarrow> db_get t (fst d) = Some (snd d) \<and> expiresAt (snd d) < b"
  using in_docs_iff [of "fst d" "snd d" t] by (auto simp: by_expires_lt_def)

lemma distinct_by_expires_lt: "distinct (map fst (by_expires_lt t b))"
proof -
  have "distinct (map fst (sort_key (\<lambda>d. expiresAt (snd d)) (docs t)))"
    using distinct_docs [of t]
    by (metis (no_types, lifting) distinct_map distinct_sort set_sort)
  then show ?thesis
    unfolding by_expires_lt_def by (rule distinct_map_filter)
qed

lemma cleanup_loop_result:
  assumes "distinct (map fst ds)"
    and "\<forall>d\<in>set ds. db_get (scrapes s) (fst d) = Some (snd d)"
  shows "\<exists>dc' fc' s'. cleanup_loop ds s dc fc = Inr ((dc', fc'), s') \<and>
      scheduled s' = scheduled s \<and>
      length (scrapes s') = length (scrapes s) \<and> length (files s') = length (files s) \<and>
      dc' + length (docs (scrapes s')) = dc + length (docs (scrapes s)) \<and>
      fc' + length (docs (files s')) = fc + length (docs (files s)) \<and>
      dc' \<le> dc + length ds \<and>
      (\<forall>k. db_get (scrapes s') k =
         (if \<exists>d\<in>set ds. k = fst d \<and> terminal (status (snd d)) then None
          else db_get (scrapes s) k)) \<and>
      (\<forall>k. db_get (files s') k =
         (if \<exists>d\<in>set ds. terminal (status (snd d)) \<and> k \<in> set (fileIds (snd d)) then None
          else db_get (files s) k))"
  using assms
proof (induction ds arbitrary: s dc fc)
  case Nil
  then show ?case by simp
next
  case (Cons e ds)
  have dist: "distinct (map fst ds)" and notin: "fst e \<notin> fst ` set ds"
    using Cons.prems(1) by auto
  have here: "db_get (scrapes s) (fst e) = Some (snd e)" using Cons.prems(2) by simp
  show ?case
  proof (cases "terminal (status (snd e))")
    case False
    then have skip: "cleanup_loop (e # ds) s dc fc = cleanup_loop ds s dc fc"
      by (cases "status (snd e)") (auto simp: terminal_def)
    have ex: "\<forall>d\<in>set ds. db_get (scrapes s) (fst d) = Some (snd d)"
      using Cons.prems(2) by simp
    from Cons.IH [OF dist ex, of dc fc] obtain dc' fc' s' where
      r: "cleanup_loop ds s dc fc = Inr ((dc', fc'), s')" and
      f: "scheduled s' = scheduled s" "length (scrapes s') = length (scrapes s)"
         "length (files s') = length (files s)"
         "dc' + length (docs (scrapes s')) = dc + length (docs (scrapes s))"
         "fc' + length (docs (files s')) = fc + length (docs (files s))"
         "dc' \<le> dc + length ds" and
      g: "\<And>k. db_get (scrapes s') k =
         (if \<exists>d\<in>set ds. k = fst d \<and> terminal (status (snd d)) then None
          else db_get (scrapes s) k)" and
      h: "\<And>k. db_get (files s') k =
         (if \<exists>d\<in>set ds. terminal (status (snd d)) \<and> k \<in> set (fileIds (snd d)) then None
          else db_get (files s) k)"
      by blast
    have "cleanup_loop (e # ds) s dc fc = Inr ((dc', fc'), s')" using skip r by simp
    moreover have "dc' \<le> dc + length (e # ds)" using f by simp
    moreover have "\<forall>k. db_get (scrapes s') k =
         (if \<exists>d\<in>set (e # ds). k = fst d \<and> terminal (status (snd d)) then None
          else db_get (scrapes s) k)"
      using g False by auto
    moreover have "\<forall>k. db_get (files s') k =
         (if \<exists>d\<in>set (e # ds). terminal (status (snd d)) \<and> k \<in> set (fileIds (snd d))
          then None else db_get (files s) k)"
      using h False by auto
    ultimately show ?thesis using f by blast
  next
    case True
    from delete_files_counting_result [of "fileIds (snd e)" "files s" fc]
    obtain fs1 n1 where
      df: "delete_files_counting (fileIds (snd e)) (files s) fc = (fs1, n1)" and
      dl: "length fs1 = length (files s)" and
      dcnt: "n1 + length (docs fs1) = fc + length (docs (files s))" and
      dg: "\<And>k. db_get fs1 k = (if k \<in> set (fileIds (snd e)) then None else db_get (files s) k)"
      by blast
    let ?t1 = "(scrapes s)[fst e := None]"
    let ?s1 = "s\<lparr>scrapes := ?t1, files := fs1\<rparr>"
    have del: "db_delete (scrapes s) (fst e) = Inr ?t1" using here by (rule db_delete_Some)
    have lt: "fst e < length (scrapes s)" using db_get_SomeD [OF here] by simp
    have step: "cleanup_loop (e # ds) s dc fc = cleanup_loop ds ?s1 (dc + 1) n1"
      using True df del by (auto simp: terminal_def Let_def)
    have ex: "\<forall>d\<in>set ds. db_get (scrapes ?s1) (fst d) = Some (snd d)"
    proof
      fix d assume d: "d \<in> set ds"
      then have "fst d \<in> fst ` set ds" by (rule imageI)
      then have "fst d \<noteq> fst e" using notin by metis
      then show "db_get (scrapes ?s1) (fst d) = Some (snd d)"
        using Cons.prems(2) d by (simp add: db_get_update)
    qed
    from Cons.IH [OF dist ex, of "dc + 1" n1] obtain dc' fc' s' where
      r: "cleanup_loop ds ?s1 (dc + 1) n1 = Inr ((dc', fc'), s')" and
      f: "scheduled s' = scheduled ?s1" "length (scrapes s') = length (scrapes ?s1)"
         "length (files s') = length (files ?s1)"
         "dc' + length (docs (scrapes s')) = dc + 1 + length (docs (scrapes ?s1))"
         "fc' + length (docs (files s')) = n1 + length (docs (files ?s1))"
         "dc' \<le> dc + 1 + length ds" and
      g: "\<And>k. db_get (scrapes s') k =
         (if \<exists>d\<in>set ds. k = fst d \<and> terminal (status (snd d)) then None
          else db_get (scrapes ?s1) k)" and
      h: "\<And>k. db_get (files s') k =
         (if \<exists>d\<in>set ds. terminal (status (snd d)) \<and> k \<in> set (fileIds (snd d)) then None
          else db_get (files ?s1) k)"
      by blast
    have "cleanup_loop (e # ds) s dc fc = Inr ((dc', fc'), s')" using step r by simp
    moreover have "scheduled s' = scheduled s" using f by simp
    moreover have "length (scrapes s') = length (scrapes s)" using f by simp
    moreover have "length (files s') = length (files s)" using f dl by simp
    moreover have "dc' + length (docs (scrapes s')) = dc + length (docs (scrapes s))"
      using f(4) length_docs_delete [OF here] by simp
    moreover have "fc' + length (docs (files s')) = fc + length (docs (files s))"
      using f(5) dcnt by simp
    moreover have "dc' \<le> dc + length (e # ds)" using f by simp
    moreover have "\<forall>k. db_get (scrapes s') k =
         (if \<exists>d\<in>set (e # ds). k = fst d \<and> terminal (status (snd d)) then None
          else db_get (scrapes s) k)"
      using g True lt by (auto simp: db_get_update)
    moreover have "\<forall>k. db_get (files s') k =
         (if \<exists>d\<in>set (e # ds). terminal (status (snd d)) \<and> k \<in> set (fileIds (snd d))
          then None else db_get (files s) k)"
      using h dg True by auto
    ultimately show ?thesis by blast
  qed
qed


lemma cleanupExpired_char:
  "CLEANUP_BATCH_SIZE = 100 \<and>
   (\<exists>deletedCount deletedFileCount s'.
      cleanupExpired now s = Inr ((deletedCount, deletedFileCount), s') \<and>
      scheduled s' = scheduled s \<and>
      (\<forall>k j. db_get (scrapes s') k = Some j \<longrightarrow> db_get (scrapes s) k = Some j) \<and>
      (\<forall>k j. db_get (scrapes s) k = Some j \<and> db_get (scrapes s') k = None \<longrightarrow>
         expiresAt j < now \<and> (status j = Completed \<or> status j = Failed) \<and>
         (k, j) \<in> set (take 100 (by_expires_lt (scrapes s) now))) \<and>
      (\<forall>d\<in>set (take 100 (by_expires_lt (scrapes s) now)).
         status (snd d) = Completed \<or> status (snd d) = Failed \<longrightarrow>
         db_get (scrapes s') (fst d) = None) \<and>
      (\<forall>k j. db_get (scrapes s) k = Some j \<and> (status j = Pending \<or> status j = Scraping) \<longrightarrow>
         db_get (scrapes s') k = Some j) \<and>
      deletedCount \<le> 100 \<and>
      deletedCount + length (docs (scrapes s')) = length (docs (scrapes s)) \<and>
      deletedFileCount + length (docs (files s')) = length (docs (files s)) \<and>
      (\<forall>k b. db_get (files s') k = Some b \<longrightarrow> db_get (files s) k = Some b) \<and>
      (\<forall>k b. db_get (files s) k = Some b \<and> db_get (files s') k = None \<longrightarrow>
         (\<exists>i j. db_get (scrapes s) i = Some j \<and> db_get (scrapes s') i = None \<and>
                k \<in> set (fileIds j))) \<and>
      (\<forall>i j k. db_get (scrapes s) i = Some j \<and> db_get (scrapes s') i = None \<and>
         k \<in> set (fileIds j) \<longrightarrow> db_get (files s') k = None))"
proof -
  have B: "CLEANUP_BATCH_SIZE = 100" by (simp add: CLEANUP_BATCH_SIZE_def)
  let ?ds = "take 100 (by_expires_lt (scrapes s) now)"
  have sub: "\<And>d. d \<in> set ?ds \<Longrightarrow> d \<in> set (by_expires_lt (scrapes s) now)"
    by (rule in_set_takeD)
  have dist: "distinct (map fst ?ds)"
    using distinct_by_expires_lt [of "scrapes s" now] by (simp add: take_map [symmetric] distinct_take)
  have ex: "\<forall>d\<in>set ?ds. db_get (scrapes s) (fst d) = Some (snd d)"
    using sub by (simp add: in_by_expires_lt)
  have old: "\<And>d. d \<in> set ?ds \<Longrightarrow> expiresAt (snd d) < now"
    using sub by (simp add: in_by_expires_lt)
  from cleanup_loop_result [OF dist ex, of 0 0] obtain dc fc s' where
    r: "cleanup_loop ?ds s 0 0 = Inr ((dc, fc), s')" and
    f: "scheduled s' = scheduled s"
       "dc + length (docs (scrapes s')) = length (docs (scrapes s))"
       "fc + length (docs (files s')) = length (docs (files s))"
       "dc \<le> length ?ds" and
    g: "\<And>k. db_get (scrapes s') k =
         (if \<exists>d\<in>set ?ds. k = fst d \<and> terminal (status (snd d)) then None
          else db_get (scrapes s) k)" and
    h: "\<And>k. db_get (files s') k =
         (if \<exists>d\<in>set ?ds. terminal (status (snd d)) \<and> k \<in> set (fileIds (snd d)) then None
          else db_get (files s) k)"
    by auto
  have run: "cleanupExpired now s = Inr ((dc, fc), s')"
    using r by (simp add: cleanupExpired_def B)
  have le: "dc \<le> 100" using f(4) by simp
  have kept: "\<forall>k j. db_get (scrapes s') k = Some j \<longrightarrow> db_get (scrapes s) k = Some j"
    unfolding g by (auto split: if_splits)
  have gone: "\<And>k j. db_get (scrapes s) k = Some j \<Longrightarrow> db_get (scrapes s') k = None \<Longrightarrow>
      (k, j) \<in> set ?ds \<and> terminal (status j)"
  proof -
    fix k j assume a: "db_get (scrapes s) k = Some j" and b: "db_get (scrapes s') k = None"
    from b a obtain d where d: "d \<in> set ?ds" "k = fst d" "terminal (status (snd d))"
      unfolding g by (auto split: if_splits)
    then have j: "snd d = j" using ex a by auto
    then have "d = (k, j)" using d(2) by (cases d) simp
    then show "(k, j) \<in> set ?ds \<and> terminal (status j)" using d j by auto
  qed
  have only: "\<forall>k j. db_get (scrapes s) k = Some j \<and> db_get (scrapes s') k = None \<longrightarrow>
         expiresAt j < now \<and> (status j = Completed \<or> status j = Failed) \<and> (k, j) \<in> set ?ds"
    using gone old by (fastforce simp: terminal_def)
  have all: "\<forall>d\<in>set ?ds. status (snd d) = Completed \<or> status (snd d) = Failed \<longrightarrow>
         db_get (scrapes s') (fst d) = None"
    unfolding g by (auto simp: terminal_def)
  have never: "\<forall>k j. db_get (scrapes s) k = Some j \<and> (status j = Pending \<or> status j = Scraping) \<longrightarrow>
         db_get (scrapes s') k = Some j"
  proof (intro allI impI)
    fix k j assume a: "db_get (scrapes s) k = Some j \<and> (status j = Pending \<or> status j = Scraping)"
    have "\<not> (\<exists>d\<in>set ?ds. k = fst d \<and> terminal (status (snd d)))"
    proof
      assume "\<exists>d\<in>set ?ds. k = fst d \<and> terminal (status (snd d))"
      then obtain d where d: "d \<in> set ?ds" "k = fst d" "terminal (status (snd d))" by blast
      then have "snd d = j" using ex a by auto
      then show False using d(3) a by (auto simp: terminal_def)
    qed
    then show "db_get (scrapes s') k = Some j" using a by (simp add: g)
  qed
  have fkept: "\<forall>k b. db_get (files s') k = Some b \<longrightarrow> db_get (files s) k = Some b"
    unfolding h by (auto split: if_splits)
  have fonly: "\<forall>k b. db_get (files s) k = Some b \<and> db_get (files s') k = None \<longrightarrow>
         (\<exists>i j. db_get (scrapes s) i = Some j \<and> db_get (scrapes s') i = None \<and>
                k \<in> set (fileIds j))"
  proof (intro allI impI)
    fix k b assume a: "db_get (files s) k = Some b \<and> db_get (files s') k = None"
    then obtain d where d: "d \<in> set ?ds" "terminal (status (snd d))" "k \<in> set (fileIds (snd d))"
      unfolding h by (auto split: if_splits)
    have "db_get (scrapes s) (fst d) = Some (snd d)" using ex d(1) by simp
    moreover have "db_get (scrapes s') (fst d) = None" using d by (auto simp: g)
    ultimately show "\<exists>i j. db_get (scrapes s) i = Some j \<and> db_get (scrapes s') i = None \<and>
                k \<in> set (fileIds j)"
      using d(3) by blast
  qed
  have fall: "\<forall>i j k. db_get (scrapes s) i = Some j \<and> db_get (scrapes s') i = None \<and>
         k \<in> set (fileIds j) \<longrightarrow> db_get (files s') k = None"
  proof (intro allI impI)
    fix i j k
    assume a: "db_get (scrapes s) i = Some j \<and> db_get (scrapes s') i = None \<and> k \<in> set (fileIds j)"
    then have "(i, j) \<in> set ?ds \<and> terminal (status j)" using gone by blast
    then have "\<exists>d\<in>set ?ds. terminal (status (snd d)) \<and> k \<in> set (fileIds (snd d))"
      using a by force
    then show "db_get (files s') k = None" by (simp add: h)
  qed
  from B run f(1) kept only all never le f(2) f(3) fkept fonly fall show ?thesis
    by blast
qed



section \<open>The reference platform on the example page\<close>

lemmas char_tables = ascii_upper_def ascii_lower_def latin1_upper_def latin1_lower_def digits_def

lemmas plain_URL_eval = plain_URL_def split_at_def plain_host_def host_char_def path_char_def
  query_char_def is_alpha_def is_digit_def toLowerCase_def lower_char_def char_tables
  nat_of_digits_def default_port_def

lemma plain_URL_example_page:
  "plain_URL example_page =
     Some \<lparr>protocol = ''https:'', hostname = ''example.com'', port = [], pathname = ''/page'',
           search = []\<rparr>"
  by (simp add: example_page_def plain_URL_eval)

lemma toLowerCase_example_host: "toLowerCase ''example.com'' = ''example.com''"
  by (simp add: toLowerCase_def lower_char_def char_tables)

lemma example_host_not_private:
  "\<not> list_ex (\<lambda>pattern. rx_test pattern ''example.com'') PRIVATE_IP_PATTERNS"
  by (simp add: PRIVATE_IP_PATTERNS_def char_matches_def upper_char_def char_tables)

lemma example_host_not_blocked:
  "\<not> list_ex (\<lambda>sfx. suffix sfx ''example.com'') BLOCKED_HOSTNAME_SUFFIXES"
  by (simp add: BLOCKED_HOSTNAME_SUFFIXES_def suffix_to_prefix)

lemma validateUrl_example_page: "validateUrl plain_platform example_page = Valid"
proof -
  have "length example_page \<le> MAX_URL_LENGTH"
    by (simp add: example_page_def MAX_URL_LENGTH_def)
  moreover have "URL_new plain_platform example_page = Some \<lparr>protocol = ''https:'', hostname = ''example.com'', port = [], pathname = ''/page'',
           search = []\<rparr>"
    by (simp add: plain_platform_def plain_URL_example_page)
  ultimately show ?thesis
    by (simp add: validateUrl_def toLowerCase_example_host example_host_not_private
        example_host_not_blocked)
qed

lemma plain_no_params:
  "URLSearchParams_new plain_platform [] = []" "URLSearchParams_toString plain_platform [] = []"
  by (simp_all add: plain_platform_def plain_URLSearchParams_def plain_toString_def)

lemma normalizeUrl_example_page: "normalizeUrl plain_platform example_page = Inr example_page"
proof -
  have "URL_new plain_platform example_page = Some \<lparr>protocol = ''https:'', hostname = ''example.com'', port = [], pathname = ''/page'',
           search = []\<rparr>"
    by (simp add: plain_platform_def plain_URL_example_page)
  then show ?thesis
    by (simp add: normalizeUrl_def toLowerCase_example_host plain_no_params suffix_to_prefix
        example_page_def)
qed


section \<open>Facts about \<open>startScrape\<close>\<close>

lemma valid_URL: "validateUrl env u = Valid \<Longrightarrow> \<exists>parsed. URL_new env u = Some parsed"
  by (cases "URL_new env u") (auto simp: validateUrl_def split: if_splits)

lemma valid_normalizes: "validateUrl env u = Valid \<Longrightarrow> \<exists>n. normalizeUrl env u = Inr n"
  using valid_URL [of env u] by (auto simp: normalizeUrl_def Let_def)

lemma startScrape_unfold:
  assumes "validateUrl env u = Valid" and "normalizeUrl env u = Inr n"
  shows "startScrape env u key opts now s =
    (case (if scrape_options.force opts = Some True
           then force_delete (latest_by_url_hash (scrapes s) (hashUrl env n) 10) s
           else Inr s) of
       Inl e \<Rightarrow> Inl e
     | Inr s1 \<Rightarrow>
        (case find is_active (latest_by_url_hash (scrapes s1) (hashUrl env n) 10) of
           Some job \<Rightarrow>
             Inl (Error (''Scrape already in progress for this URL. Job ID: '' @
                         string_of_nat (fst job)))
         | None \<Rightarrow>
            (case (if scrape_options.force opts \<noteq> Some True
                   then find (is_cache_hit now
                          (case scrape_options.formats opts of None \<Rightarrow> [''markdown''] | Some fs \<Rightarrow> fs))
                          (latest_by_url_hash (scrapes s1) (hashUrl env n) 10)
                   else None) of
               Some job \<Rightarrow> Inr (fst job, s1)
             | None \<Rightarrow>
                 Inr (length (scrapes s1),
                      s1\<lparr>scrapes := scrapes s1 @
                           [Some (new_scrape u n (hashUrl env n)
                              (case scrape_options.formats opts of None \<Rightarrow> [''markdown''] | Some fs \<Rightarrow> fs)
                              now
                              (case scrape_options.ttlMs opts of None \<Rightarrow> DEFAULT_TTL_MS | Some t \<Rightarrow> t)
                              (scrape_options.extractionSchema opts))],
                         scheduled := scheduled s1 @
                           [\<lparr> action_args.jobId = length (scrapes s1), action_args.url = u,
                              action_args.apiKey = key,
                              action_args.formats =
                                (case scrape_options.formats opts of None \<Rightarrow> [''markdown''] | Some fs \<Rightarrow> fs),
                              action_args.options =
                                \<lparr> action_options.extractionSchema = scrape_options.extractionSchema opts,
                                  action_options.onlyMainContent = scrape_options.onlyMainContent opts,
                                  action_options.includeTags = scrape_options.includeTags opts,
                                  action_options.excludeTags = scrape_options.excludeTags opts,
                                  action_options.waitFor = scrape_options.waitFor opts,
                                  action_options.mobile = scrape_options.mobile opts,
                                  action_options.proxy =
                                    (case scrape_options.proxy opts of None \<Rightarrow> Basic | Some p \<Rightarrow> p),
                                  action_options.storeScreenshot = scrape_options.storeScreenshot opts \<rparr>,
                              action_args.ttlMs =
                                (case scrape_options.ttlMs opts of None \<Rightarrow> DEFAULT_TTL_MS | Some t \<Rightarrow> t) \<rparr>]\<rparr>))))"
  using assms
  by (simp add: startScrape_def Let_def db_insert_def split: sum.splits option.splits)

lemma in_by_url_hash:
  "d \<in> set (by_url_hash t h) \<longleftrightarrow> db_get t (fst d) = Some (snd d) \<and> urlHash (snd d) = h"
  using in_docs_iff [of "fst d" "snd d" t] by (auto simp: by_url_hash_def)

lemma distinct_by_url_hash: "distinct (map fst (by_url_hash t h))"
  unfolding by_url_hash_def using distinct_docs [of t] by (rule distinct_map_filter)

lemma in_latestD:
  "d \<in> set (latest_by_url_hash t h n) \<Longrightarrow>
     db_get t (fst d) = Some (snd d) \<and> urlHash (snd d) = h"
  unfolding latest_by_url_hash_def
  using in_by_url_hash [of d t h] by (auto dest: in_set_takeD)




lemma startScrape_Inr:
  assumes "startScrape env u key opts now s = Inr (i, s')"
  shows "\<exists>n s1. validateUrl env u = Valid \<and> normalizeUrl env u = Inr n \<and>
     (if scrape_options.force opts = Some True
      then force_delete (latest_by_url_hash (scrapes s) (hashUrl env n) 10) s
      else Inr s) = Inr s1 \<and>
     find is_active (latest_by_url_hash (scrapes s1) (hashUrl env n) 10) = None \<and>
     ((scrape_options.force opts \<noteq> Some True \<and> s' = s1 \<and>
       (\<exists>job. find (is_cache_hit now
                   (case scrape_options.formats opts of None \<Rightarrow> [''markdown''] | Some fs \<Rightarrow> fs))
                 (latest_by_url_hash (scrapes s1) (hashUrl env n) 10) = Some job \<and>
              i = fst job)) \<or>
      ((scrape_options.force opts = Some True \<or>
        find (is_cache_hit now
               (case scrape_options.formats opts of None \<Rightarrow> [''markdown''] | Some fs \<Rightarrow> fs))
             (latest_by_url_hash (scrapes s1) (hashUrl env n) 10) = None) \<and>
       i = length (scrapes s1) \<and>
       scrapes s' = scrapes s1 @
         [Some (new_scrape u n (hashUrl env n)
            (case scrape_options.formats opts of None \<Rightarrow> [''markdown''] | Some fs \<Rightarrow> fs) now
            (case scrape_options.ttlMs opts of None \<Rightarrow> DEFAULT_TTL_MS | Some t \<Rightarrow> t)
            (scrape_options.extractionSchema opts))] \<and>
       files s' = files s1 \<and>
       (\<exists>args. scheduled s' = scheduled s1 @ [args] \<and> action_args.jobId args = i)))"
proof -
  have v: "validateUrl env u = Valid"
    using assms by (cases "validateUrl env u") (simp_all add: startScrape_def)
  from valid_normalizes [OF v] obtain n where n: "normalizeUrl env u = Inr n" by blast
  show ?thesis
    using assms unfolding startScrape_unfold [OF v n]
    by (auto simp: v n split: sum.splits option.splits if_splits)
qed


lemma failScrape_frame:
  assumes "failScrape i err code s = Inr s'"
  shows "files s' = files s \<and> scheduled s' = scheduled s \<and>
      length (scrapes s') = length (scrapes s) \<and>
      (\<forall>k. (db_get (scrapes s') k = None) = (db_get (scrapes s) k = None)) \<and>
      (\<forall>k j j'. db_get (scrapes s) k = Some j \<and> db_get (scrapes s') k = Some j' \<longrightarrow>
         j'\<lparr>status := status j, error := error j, errorCode := errorCode j\<rparr> = j)"
proof (cases "db_get (scrapes s) i")
  case None
  then show ?thesis using assms by (auto simp: failScrape_def)
next
  case (Some job)
  have lt: "i < length (scrapes s)" using db_get_SomeD [OF Some] by simp
  show ?thesis
    using assms Some lt
    by (auto simp: failScrape_def db_patch_Some db_get_update split: if_splits)
qed

lemma markScraping_frame:
  assumes "markScraping i now s = Inr s'"
  shows "files s' = files s \<and> scheduled s' = scheduled s \<and>
      length (scrapes s') = length (scrapes s) \<and>
      (\<forall>k. (db_get (scrapes s') k = None) = (db_get (scrapes s) k = None)) \<and>
      (\<forall>k j j'. db_get (scrapes s) k = Some j \<and> db_get (scrapes s') k = Some j' \<longrightarrow>
         j'\<lparr>status := status j, scrapingAt := scrapingAt j\<rparr> = j)"
proof (cases "db_get (scrapes s) i")
  case None
  then show ?thesis using assms by (auto simp: markScraping_def db_patch_def)
next
  case (Some job)
  have lt: "i < length (scrapes s)" using db_get_SomeD [OF Some] by simp
  show ?thesis
    using assms Some lt
    by (auto simp: markScraping_def db_patch_Some db_get_update split: if_splits)
qed

lemma markStuck_frame:
  assumes "markStuckJobsFailed now s = Inr (n, s')"
  shows "files s' = files s \<and> scheduled s' = scheduled s \<and>
      length (scrapes s') = length (scrapes s) \<and>
      (\<forall>k. (db_get (scrapes s') k = None) = (db_get (scrapes s) k = None)) \<and>
      (\<forall>k j j'. db_get (scrapes s) k = Some j \<and> db_get (scrapes s') k = Some j' \<longrightarrow>
         j'\<lparr>status := status j, error := error j\<rparr> = j)"
proof -
  from markStuck_char [of now s] assms have
    f: "files s' = files s" "scheduled s' = scheduled s"
       "length (scrapes s') = length (scrapes s)" and
    g: "\<And>k. db_get (scrapes s') k =
           (case db_get (scrapes s) k of
              None \<Rightarrow> None
            | Some j \<Rightarrow>
                if status j = Scraping \<and> scrapingAt j < Some (now - STUCK_JOB_TIMEOUT_MS)
                then Some (j\<lparr>status := Failed,
                             error := Some ''Scrape timed out after 5 minutes''\<rparr>)
                else Some j)"
    by auto
  show ?thesis
    using f by (auto simp: g split: option.splits if_splits)
qed

lemma startScrape_new_doc:
  assumes "startScrape env u key opts now s = Inr (i, s')" and "db_get (scrapes s) i = None"
  shows "\<exists>j. db_get (scrapes s') i = Some j \<and> status j = Pending \<and> startedAt j = now \<and>
     expiresAt j =
       now + (case scrape_options.ttlMs opts of None \<Rightarrow> DEFAULT_TTL_MS | Some t \<Rightarrow> t)"
proof -
  let ?fmts = "case scrape_options.formats opts of None \<Rightarrow> [''markdown''] | Some fs \<Rightarrow> fs"
  from startScrape_Inr [OF assms(1)] obtain n s1 where
    fd: "(if scrape_options.force opts = Some True
      then force_delete (latest_by_url_hash (scrapes s) (hashUrl env n) 10) s
      else Inr s) = Inr s1" and
    c: "(scrape_options.force opts \<noteq> Some True \<and> s' = s1 \<and>
       (\<exists>job. find (is_cache_hit now ?fmts)
                 (latest_by_url_hash (scrapes s1) (hashUrl env n) 10) = Some job \<and>
              i = fst job)) \<or>
      (i = length (scrapes s1) \<and>
       scrapes s' = scrapes s1 @
         [Some (new_scrape u n (hashUrl env n) ?fmts now
            (case scrape_options.ttlMs opts of None \<Rightarrow> DEFAULT_TTL_MS | Some t \<Rightarrow> t)
            (scrape_options.extractionSchema opts))])"
    by blast
  from c show ?thesis
  proof
    assume hit: "scrape_options.force opts \<noteq> Some True \<and> s' = s1 \<and>
       (\<exists>job. find (is_cache_hit now ?fmts)
                 (latest_by_url_hash (scrapes s1) (hashUrl env n) 10) = Some job \<and>
              i = fst job)"
    then have s1: "s1 = s" using fd by simp
    from hit obtain job where
      "find (is_cache_hit now ?fmts) (latest_by_url_hash (scrapes s1) (hashUrl env n) 10) = Some job"
      "i = fst job" by blast
    then have "job \<in> set (latest_by_url_hash (scrapes s) (hashUrl env n) 10)" "i = fst job"
      using s1 by (auto simp: find_Some_iff)
    then have "db_get (scrapes s) i \<noteq> None" using in_latestD by fastforce
    with assms(2) show ?thesis by simp
  next
    assume new: "i = length (scrapes s1) \<and>
       scrapes s' = scrapes s1 @
         [Some (new_scrape u n (hashUrl env n) ?fmts now
            (case scrape_options.ttlMs opts of None \<Rightarrow> DEFAULT_TTL_MS | Some t \<Rightarrow> t)
            (scrape_options.extractionSchema opts))]"
    then show ?thesis by (simp add: db_get_def new_scrape_def)
  qed
qed

lemma cleanup_keeps_unexpired:
  assumes "cleanupExpired now s = Inr (r, s')" and "db_get (scrapes s) k = Some j"
    and "now \<le> expiresAt j"
  shows "db_get (scrapes s') k = Some j"
proof -
  from cleanupExpired_char [of now s] assms(1) have
    kept: "\<forall>k j. db_get (scrapes s') k = Some j \<longrightarrow> db_get (scrapes s) k = Some j" and
    only: "\<forall>k j. db_get (scrapes s) k = Some j \<and> db_get (scrapes s') k = None \<longrightarrow>
         expiresAt j < now"
    by auto
  show ?thesis
  proof (cases "db_get (scrapes s') k")
    case None
    then show ?thesis using only assms(2,3) by force
  next
    case (Some j')
    then show ?thesis using kept assms(2) by force
  qed
qed

section \<open>Facts about \<open>invalidate\<close> and \<open>getCached\<close>\<close>

lemma invalidate_loop_result:
  assumes "distinct (map fst ds)" and "\<forall>d\<in>set ds. db_get t (fst d) = Some (snd d)"
  shows "\<exists>t'. invalidate_loop ds now t n =
        Inr (t', n + length (filter (\<lambda>d. status (snd d) = Completed \<and> expiresAt (snd d) > now) ds)) \<and>
      length t' = length t \<and>
      (\<forall>k. db_get t' k =
         (if \<exists>d\<in>set ds. k = fst d \<and> status (snd d) = Completed \<and> expiresAt (snd d) > now
          then map_option (\<lambda>j. j\<lparr>expiresAt := now\<rparr>) (db_get t k)
          else db_get t k))"
  using assms
proof (induction ds arbitrary: t n)
  case Nil
  then show ?case by simp
next
  case (Cons e ds)
  have dist: "distinct (map fst ds)" and notin: "fst e \<notin> fst ` set ds"
    using Cons.prems(1) by auto
  have here: "db_get t (fst e) = Some (snd e)" using Cons.prems(2) by simp
  have lt: "fst e < length t" using db_get_SomeD [OF here] by simp
  have nin: "\<And>d. d \<in> set ds \<Longrightarrow> fst d \<noteq> fst e"
  proof -
    fix d assume "d \<in> set ds"
    then have "fst d \<in> fst ` set ds" by (rule imageI)
    then show "fst d \<noteq> fst e" using notin by metis
  qed
  show ?case
  proof (cases "status (snd e) = Completed \<and> expiresAt (snd e) > now")
    case False
    have ex: "\<forall>d\<in>set ds. db_get t (fst d) = Some (snd d)" using Cons.prems(2) by simp
    from Cons.IH [OF dist ex, of n] obtain t' where
      r: "invalidate_loop ds now t n =
        Inr (t', n + length (filter (\<lambda>d. status (snd d) = Completed \<and> expiresAt (snd d) > now) ds))" and
      l: "length t' = length t" and
      g: "\<And>k. db_get t' k =
         (if \<exists>d\<in>set ds. k = fst d \<and> status (snd d) = Completed \<and> expiresAt (snd d) > now
          then map_option (\<lambda>j. j\<lparr>expiresAt := now\<rparr>) (db_get t k)
          else db_get t k)"
      by blast
    have "invalidate_loop (e # ds) now t n =
        Inr (t', n + length (filter (\<lambda>d. status (snd d) = Completed \<and> expiresAt (snd d) > now) (e # ds)))"
      using r False by auto
    moreover have "\<forall>k. db_get t' k =
         (if \<exists>d\<in>set (e # ds). k = fst d \<and> status (snd d) = Completed \<and> expiresAt (snd d) > now
          then map_option (\<lambda>j. j\<lparr>expiresAt := now\<rparr>) (db_get t k)
          else db_get t k)"
      using g False by auto
    ultimately show ?thesis using l by blast
  next
    case True
    let ?t1 = "t[fst e := Some ((snd e)\<lparr>expiresAt := now\<rparr>)]"
    have p: "db_patch t (fst e) (\<lambda>j. j\<lparr>expiresAt := now\<rparr>) = Inr ?t1"
      using here by (rule db_patch_Some)
    have ex: "\<forall>d\<in>set ds. db_get ?t1 (fst d) = Some (snd d)"
    proof
      fix d assume d: "d \<in> set ds"
      then have "fst d \<in> fst ` set ds" by (rule imageI)
      then have "fst d \<noteq> fst e" using notin by metis
      then show "db_get ?t1 (fst d) = Some (snd d)"
        using Cons.prems(2) d by (simp add: db_get_update)
    qed
    from Cons.IH [OF dist ex, of "n + 1"] obtain t' where
      r: "invalidate_loop ds now ?t1 (n + 1) =
        Inr (t', n + 1 + length (filter (\<lambda>d. status (snd d) = Completed \<and> expiresAt (snd d) > now) ds))" and
      l: "length t' = length ?t1" and
      g: "\<And>k. db_get t' k =
         (if \<exists>d\<in>set ds. k = fst d \<and> status (snd d) = Completed \<and> expiresAt (snd d) > now
          then map_option (\<lambda>j. j\<lparr>expiresAt := now\<rparr>) (db_get ?t1 k)
          else db_get ?t1 k)"
      by blast
    have "invalidate_loop (e # ds) now t n =
        Inr (t', n + length (filter (\<lambda>d. status (snd d) = Completed \<and> expiresAt (snd d) > now) (e # ds)))"
      using r True p by simp
    moreover have "length t' = length t" using l by simp
    moreover have "\<forall>k. db_get t' k =
         (if \<exists>d\<in>set (e # ds). k = fst d \<and> status (snd d) = Completed \<and> expiresAt (snd d) > now
          then map_option (\<lambda>j. j\<lparr>expiresAt := now\<rparr>) (db_get t k)
          else db_get t k)"
    proof
      fix k
      show "db_get t' k =
         (if \<exists>d\<in>set (e # ds). k = fst d \<and> status (snd d) = Completed \<and> expiresAt (snd d) > now
          then map_option (\<lambda>j. j\<lparr>expiresAt := now\<rparr>) (db_get t k)
          else db_get t k)"
      proof (cases "k = fst e")
        case True
        have "\<not> (\<exists>d\<in>set ds. k = fst d \<and> status (snd d) = Completed \<and> expiresAt (snd d) > now)"
          using nin True by blast
        then show ?thesis using g [of k] True \<open>status (snd e) = Completed \<and> expiresAt (snd e) > now\<close>
            here lt by (simp add: db_get_update)
      next
        case False
        then show ?thesis using g [of k] by (auto simp: db_get_update)
      qed
    qed
    ultimately show ?thesis by blast
  qed
qed

lemma invalidate_char:
  assumes "validateUrl env u = Valid" and "normalizeUrl env u = Inr n"
  shows "\<exists>s'. invalidate env u now s =
        Inr ((True, length (filter (\<lambda>d. urlHash (snd d) = hashUrl env n \<and>
                status (snd d) = Completed \<and> expiresAt (snd d) > now) (docs (scrapes s)))), s') \<and>
      files s' = files s \<and> scheduled s' = scheduled s \<and>
      length (scrapes s') = length (scrapes s) \<and>
      (\<forall>k. db_get (scrapes s') k =
         (case db_get (scrapes s) k of
            None \<Rightarrow> None
          | Some j \<Rightarrow>
              if urlHash j = hashUrl env n \<and> status j = Completed \<and> expiresAt j > now
              then Some (j\<lparr>expiresAt := now\<rparr>) else Some j))"
proof -
  let ?h = "hashUrl env n"
  let ?ds = "by_url_hash (scrapes s) ?h"
  have ex: "\<forall>d\<in>set ?ds. db_get (scrapes s) (fst d) = Some (snd d)"
    by (simp add: in_by_url_hash)
  from invalidate_loop_result [OF distinct_by_url_hash ex, of now 0] obtain t' where
    r: "invalidate_loop ?ds now (scrapes s) 0 =
        Inr (t', length (filter (\<lambda>d. status (snd d) = Completed \<and> expiresAt (snd d) > now) ?ds))" and
    l: "length t' = length (scrapes s)" and
    g: "\<And>k. db_get t' k =
         (if \<exists>d\<in>set ?ds. k = fst d \<and> status (snd d) = Completed \<and> expiresAt (snd d) > now
          then map_option (\<lambda>j. j\<lparr>expiresAt := now\<rparr>) (db_get (scrapes s) k)
          else db_get (scrapes s) k)"
    by auto
  have cnt: "length (filter (\<lambda>d. status (snd d) = Completed \<and> expiresAt (snd d) > now) ?ds) =
      length (filter (\<lambda>d. urlHash (snd d) = ?h \<and> status (snd d) = Completed \<and>
                expiresAt (snd d) > now) (docs (scrapes s)))"
    by (simp add: by_url_hash_def conj_commute conj_left_commute)
  have run: "invalidate env u now s =
      Inr ((True, length (filter (\<lambda>d. urlHash (snd d) = ?h \<and> status (snd d) = Completed \<and>
                expiresAt (snd d) > now) (docs (scrapes s)))), s\<lparr>scrapes := t'\<rparr>)"
    using assms r cnt by (simp add: invalidate_def)
  have sel: "\<And>k. (\<exists>d\<in>set ?ds. k = fst d \<and> status (snd d) = Completed \<and> expiresAt (snd d) > now) \<longleftrightarrow>
      (\<exists>j. db_get (scrapes s) k = Some j \<and> urlHash j = ?h \<and> status j = Completed \<and>
           expiresAt j > now)"
  proof -
    fix k
    show "(\<exists>d\<in>set ?ds. k = fst d \<and> status (snd d) = Completed \<and> expiresAt (snd d) > now) \<longleftrightarrow>
      (\<exists>j. db_get (scrapes s) k = Some j \<and> urlHash j = ?h \<and> status j = Completed \<and>
           expiresAt j > now)"
    proof
      assume "\<exists>d\<in>set ?ds. k = fst d \<and> status (snd d) = Completed \<and> expiresAt (snd d) > now"
      then obtain d where "d \<in> set ?ds" "k = fst d" "status (snd d) = Completed"
        "expiresAt (snd d) > now" by blast
      then show "\<exists>j. db_get (scrapes s) k = Some j \<and> urlHash j = ?h \<and> status j = Completed \<and>
           expiresAt j > now"
        using in_by_url_hash [of d "scrapes s" ?h] by auto
    next
      assume "\<exists>j. db_get (scrapes s) k = Some j \<and> urlHash j = ?h \<and> status j = Completed \<and>
           expiresAt j > now"
      then obtain j where j: "db_get (scrapes s) k = Some j" "urlHash j = ?h"
        "status j = Completed" "expiresAt j > now" by blast
      then have "(k, j) \<in> set ?ds"
        using in_by_url_hash [of "(k, j)" "scrapes s" ?h] by simp
      then show "\<exists>d\<in>set ?ds. k = fst d \<and> status (snd d) = Completed \<and> expiresAt (snd d) > now"
        using j by force
    qed
  qed
  have "\<forall>k. db_get t' k =
         (case db_get (scrapes s) k of
            None \<Rightarrow> None
          | Some j \<Rightarrow>
              if urlHash j = ?h \<and> status j = Completed \<and> expiresAt j > now
              then Some (j\<lparr>expiresAt := now\<rparr>) else Some j)"
    unfolding g sel by (auto split: option.splits)
  with run l show ?thesis by simp
qed


lemma getCached_valid:
  assumes "validateUrl env u = Valid" and "normalizeUrl env u = Inr n"
  shows "getCached env u fmts now s =
     Inr (find (is_cache_hit now (case fmts of None \<Rightarrow> [''markdown''] | Some fs \<Rightarrow> fs))
            (latest_by_url_hash (scrapes s) (hashUrl env n) 10))"
  using assms by (simp add: getCached_def Let_def)

lemma invalid_cases: "validateUrl env u \<noteq> Valid \<Longrightarrow> \<exists>e. validateUrl env u = Invalid e"
  by (cases "validateUrl env u") simp_all

lemma invalidate_then:
  assumes v: "validateUrl env u = Valid" and n: "normalizeUrl env u = Inr n"
    and r: "invalidate env u now s = Inr (res, s')" and le: "now \<le> now'"
  shows "getCached env u fmts now' s' = Inr None \<and>
         invalidate env u now' s' = Inr ((True, 0), s')"
proof -
  let ?h = "hashUrl env n"
  from invalidate_char [OF v n, of now s] r have
    g: "\<And>k. db_get (scrapes s') k =
         (case db_get (scrapes s) k of
            None \<Rightarrow> None
          | Some j \<Rightarrow>
              if urlHash j = ?h \<and> status j = Completed \<and> expiresAt j > now
              then Some (j\<lparr>expiresAt := now\<rparr>) else Some j)"
    by auto
  have none: "\<And>k j. db_get (scrapes s') k = Some j \<Longrightarrow> urlHash j = ?h \<Longrightarrow>
      status j = Completed \<Longrightarrow> \<not> expiresAt j > now'"
  proof -
    fix k j
    assume a: "db_get (scrapes s') k = Some j" "urlHash j = ?h" "status j = Completed"
    show "\<not> expiresAt j > now'"
    proof (cases "db_get (scrapes s) k")
      case None
      then show ?thesis using a(1) by (simp add: g)
    next
      case (Some j0)
      show ?thesis
      proof (cases "urlHash j0 = ?h \<and> status j0 = Completed \<and> expiresAt j0 > now")
        case True
        then have "j = j0\<lparr>expiresAt := now\<rparr>" using a(1) Some by (simp add: g)
        then show ?thesis using le by simp
      next
        case False
        then have "j = j0" using a(1) Some by (auto simp: g)
        then show ?thesis using False a le by auto
      qed
    qed
  qed
  have c: "find (is_cache_hit now' (case fmts of None \<Rightarrow> [''markdown''] | Some fs \<Rightarrow> fs))
            (latest_by_url_hash (scrapes s') ?h 10) = None"
  proof -
    have "\<And>d. d \<in> set (latest_by_url_hash (scrapes s') ?h 10) \<Longrightarrow>
        \<not> is_cache_hit now' (case fmts of None \<Rightarrow> [''markdown''] | Some fs \<Rightarrow> fs) d"
    proof -
      fix d assume "d \<in> set (latest_by_url_hash (scrapes s') ?h 10)"
      from in_latestD [OF this] show
        "\<not> is_cache_hit now' (case fmts of None \<Rightarrow> [''markdown''] | Some fs \<Rightarrow> fs) d"
        using none [of "fst d" "snd d"] by (auto simp: is_cache_hit_def)
    qed
    then show ?thesis by (simp add: find_None_iff)
  qed
  have cached: "getCached env u fmts now' s' = Inr None"
    by (simp add: getCached_valid [OF v n] c)
  from invalidate_char [OF v n, of now' s'] obtain s'' where
    r2: "invalidate env u now' s' =
        Inr ((True, length (filter (\<lambda>d. urlHash (snd d) = ?h \<and>
                status (snd d) = Completed \<and> expiresAt (snd d) > now') (docs (scrapes s')))), s'')" and
    f2: "files s'' = files s'" "scheduled s'' = scheduled s'"
        "length (scrapes s'') = length (scrapes s')" and
    g2: "\<And>k. db_get (scrapes s'') k =
         (case db_get (scrapes s') k of
            None \<Rightarrow> None
          | Some j \<Rightarrow>
              if urlHash j = ?h \<and> status j = Completed \<and> expiresAt j > now'
              then Some (j\<lparr>expiresAt := now'\<rparr>) else Some j)"
    by blast
  have zero: "filter (\<lambda>d. urlHash (snd d) = ?h \<and> status (snd d) = Completed \<and>
                expiresAt (snd d) > now') (docs (scrapes s')) = []"
  proof -
    have "\<And>d. d \<in> set (docs (scrapes s')) \<Longrightarrow>
        \<not> (urlHash (snd d) = ?h \<and> status (snd d) = Completed \<and> expiresAt (snd d) > now')"
    proof -
      fix d assume "d \<in> set (docs (scrapes s'))"
      then have "db_get (scrapes s') (fst d) = Some (snd d)"
        using in_docs_iff [of "fst d" "snd d" "scrapes s'"] by simp
      then show "\<not> (urlHash (snd d) = ?h \<and> status (snd d) = Completed \<and> expiresAt (snd d) > now')"
        using none by blast
    qed
    then show ?thesis by (simp add: filter_empty_conv)
  qed
  have same: "scrapes s'' = scrapes s'"
  proof (rule table_eqI)
    show "length (scrapes s'') = length (scrapes s')" by (rule f2(3))
  next
    fix k
    show "db_get (scrapes s'') k = db_get (scrapes s') k"
      unfolding g2 using none [of k] by (auto split: option.splits)
  qed
  have "s'' = s'" using same f2 by simp
  with r2 zero cached show ?thesis by simp
qed

section \<open>Facts about the cache lookup\<close>

lemma is_cache_hit_iff:
  "is_cache_hit now req d =
     (status (snd d) = Completed \<and> expiresAt (snd d) > now \<and> set req \<subseteq> set (formats (snd d)))"
  by (auto simp: is_cache_hit_def formatsSatisfied_def list_all_iff)

lemma find_cong_pred: "(\<And>x. P x = Q x) \<Longrightarrow> find P xs = find Q xs"
  by (induction xs) simp_all

lemma find_Some_ex: "(\<exists>d. find P xs = Some d) = (\<exists>d \<in> set xs. P d)"
  by (induction xs) auto

lemma getCached_char:
  assumes v: "validateUrl env u = Valid" and n: "normalizeUrl env u = Inr n"
  shows "getCached env u fmts now s =
     Inr (find (\<lambda>d. status (snd d) = Completed \<and> expiresAt (snd d) > now \<and>
                  set (case fmts of None \<Rightarrow> [''markdown''] | Some fs \<Rightarrow> fs) \<subseteq> set (formats (snd d)))
            (latest_by_url_hash (scrapes s) (hashUrl env n) 10))"
  unfolding getCached_valid [OF v n]
  by (simp add: find_cong_pred [of "is_cache_hit now req" _ _ for req, OF is_cache_hit_iff])

lemma startScrape_cached:
  assumes v: "validateUrl env u = Valid" and n: "normalizeUrl env u = Inr n"
    and f: "scrape_options.force opts \<noteq> Some True"
    and a: "\<forall>d \<in> set (latest_by_url_hash (scrapes s) (hashUrl env n) 10).
              status (snd d) \<noteq> Pending \<and> status (snd d) \<noteq> Scraping"
    and c: "getCached env u (scrape_options.formats opts) now s = Inr (Some d)"
  shows "startScrape env u key opts now s = Inr (fst d, s)"
proof -
  have "find is_active (latest_by_url_hash (scrapes s) (hashUrl env n) 10) = None"
    using a by (auto simp: find_None_iff is_active_def)
  moreover have "find (is_cache_hit now
       (case scrape_options.formats opts of None \<Rightarrow> [''markdown''] | Some fs \<Rightarrow> fs))
       (latest_by_url_hash (scrapes s) (hashUrl env n) 10) = Some d"
    using c unfolding getCached_valid [OF v n] by simp
  ultimately show ?thesis
    using f by (simp add: startScrape_unfold [OF v n])
qed

lemma startScrape_conflict:
  assumes v: "validateUrl env u = Valid" and n: "normalizeUrl env u = Inr n"
    and f: "scrape_options.force opts \<noteq> Some True"
    and a: "find is_active (latest_by_url_hash (scrapes s) (hashUrl env n) 10) = Some d"
  shows "startScrape env u key opts now s =
     Inl (Error (''Scrape already in progress for this URL. Job ID: '' @ string_of_nat (fst d)))"
  using f a by (simp add: startScrape_unfold [OF v n])

lemma sorted_wrt_docs: "sorted_wrt (\<lambda>a b. fst a < fst b) (docs t)"
proof -
  have "sorted_wrt (<) (map fst (docs t))"
    using sorted_docs [of t] distinct_docs [of t] by (simp add: strict_sorted_iff)
  then show ?thesis by (simp add: sorted_wrt_map)
qed

lemma sorted_latest: "sorted_wrt (\<lambda>a b. fst b < fst a) (latest_by_url_hash t h n)"
proof -
  have "sorted_wrt (\<lambda>a b. fst a < fst b) (by_url_hash t h)"
    unfolding by_url_hash_def by (rule sorted_wrt_filter) (rule sorted_wrt_docs)
  then have "sorted_wrt (\<lambda>a b. fst b < fst a) (rev (by_url_hash t h))"
    by (simp add: sorted_wrt_rev)
  then show ?thesis unfolding latest_by_url_hash_def by (rule sorted_wrt_take)
qed

lemma length_latest: "length (latest_by_url_hash t h n) \<le> n"
  by (simp add: latest_by_url_hash_def)

lemma latest_complete:
  assumes "db_get t k = Some j" and "urlHash j = h"
    and "(k, j) \<notin> set (latest_by_url_hash t h n)"
  shows "length (latest_by_url_hash t h n) = n \<and>
     (\<forall>d\<in>set (latest_by_url_hash t h n). k < fst d)"
proof -
  have s: "sorted_wrt (\<lambda>a b. fst b < fst a) (rev (by_url_hash t h))"
    using sorted_latest [of t h "length (by_url_hash t h)"]
    by (simp add: latest_by_url_hash_def)
  have m: "(k, j) \<in> set (rev (by_url_hash t h))"
    using assms(1,2) by (simp add: in_by_url_hash)
  from take_sorted_wrt [OF s m assms(3) [unfolded latest_by_url_hash_def]]
  show ?thesis by (simp add: latest_by_url_hash_def)
qed

lemma find_first:
  assumes "sorted_wrt R xs" and "find P xs = Some d" and "e \<in> set xs" and "P e"
  shows "e = d \<or> R d e"
  using assms
proof (induction xs)
  case Nil
  then show ?case by simp
next
  case (Cons x xs)
  show ?case
  proof (cases "P x")
    case True
    with Cons.prems show ?thesis by auto
  next
    case False
    with Cons.prems have "find P xs = Some d" "e \<in> set xs" "sorted_wrt R xs" by auto
    with Cons.IH Cons.prems(4) show ?thesis by blast
  qed
qed

lemma find_newest:
  assumes "find P (latest_by_url_hash t h n) = Some d"
    and "e \<in> set (latest_by_url_hash t h n)" and "P e"
  shows "fst e \<le> fst d"
  using find_first [OF sorted_latest assms] by auto

lemma startScrape_conflict_newest:
  assumes v: "validateUrl env u = Valid" and n: "normalizeUrl env u = Inr n"
    and f: "scrape_options.force opts \<noteq> Some True"
    and a: "\<exists>e\<in>set (latest_by_url_hash (scrapes s) (hashUrl env n) 10).
              status (snd e) = Pending \<or> status (snd e) = Scraping"
  shows "\<exists>d\<in>set (latest_by_url_hash (scrapes s) (hashUrl env n) 10).
     (status (snd d) = Pending \<or> status (snd d) = Scraping) \<and>
     (\<forall>e\<in>set (latest_by_url_hash (scrapes s) (hashUrl env n) 10).
        status (snd e) = Pending \<or> status (snd e) = Scraping \<longrightarrow> fst e \<le> fst d) \<and>
     startScrape env u key opts now s =
       Inl (Error (''Scrape already in progress for this URL. Job ID: '' @
                   string_of_nat (fst d)))"
proof -
  let ?L = "latest_by_url_hash (scrapes s) (hashUrl env n) 10"
  from a have "\<exists>e\<in>set ?L. is_active e" by (simp add: is_active_def)
  then obtain d where d: "find is_active ?L = Some d"
    using find_Some_ex [of is_active ?L] by blast
  then have m: "d \<in> set ?L" "is_active d"
    unfolding find_Some_iff by (auto simp: nth_mem)
  have newest: "\<forall>e\<in>set ?L. status (snd e) = Pending \<or> status (snd e) = Scraping \<longrightarrow>
      fst e \<le> fst d"
    using find_newest [OF d] by (auto simp: is_active_def)
  from startScrape_conflict [OF v n f d] m newest show ?thesis
    by (auto simp: is_active_def)
qed

lemma cached_example_latest:
  "latest_by_url_hash (scrapes cached_example) (hashUrl plain_platform example_page) 10 =
     [(2, example_job Completed 5000), (1, example_job Failed 5000),
      (0, example_job Completed 1500)]"
  by (simp add: latest_by_url_hash_def by_url_hash_def docs_def cached_example_def
      example_store_def example_job_def new_scrape_def)

lemma string_of_nat_1: "string_of_nat (Suc 0) = ''1''"
  by (simp add: string_of_nat.simps [of "Suc 0"] digit_char_def)

section \<open>Facts about validation\<close>

lemma invalid_rejected:
  assumes "validateUrl env u = Invalid e"
  shows "startScrape env u key opts now s = Inl (Error (formatValidationError e))"
    and "getCached env u fmts now s = Inr None"
    and "getByUrl env u s = Inr None"
  using assms by (simp_all add: startScrape_def getCached_def getByUrl_def)

lemma too_long_message:
  "sublist ''exceeds maximum length'' (formatValidationError (Too_long m a))"
  unfolding sublist_def
  by (rule exI [of _ "''URL ''"],
      rule exI [of _ "'' of '' @ string_of_nat m @ '' characters (got '' @ string_of_nat a @ '')''"])
     simp

lemma scheme_message:
  "sublist ''Invalid URL scheme'' (formatValidationError (Invalid_scheme p))"
  unfolding sublist_def
  by (rule exI [of _ "[]"], rule exI [of _ "'': '' @ p @ ''. Only http and https are allowed''"])
     simp

lemma private_message:
  "sublist ''Private/local'' (formatValidationError (Private_ip h))"
  unfolding sublist_def
  by (rule exI [of _ "[]"], rule exI [of _ "'' IP addresses are not allowed: '' @ h"]) simp

lemma validateUrl_too_long:
  "length u > MAX_URL_LENGTH \<Longrightarrow>
     validateUrl env u = Invalid (Too_long MAX_URL_LENGTH (length u))"
  by (simp add: validateUrl_def)

lemma validateUrl_scheme:
  "length u \<le> MAX_URL_LENGTH \<Longrightarrow> URL_new env u = Some p \<Longrightarrow>
   protocol p \<noteq> ''http:'' \<Longrightarrow> protocol p \<noteq> ''https:'' \<Longrightarrow>
     validateUrl env u = Invalid (Invalid_scheme (protocol p))"
  by (simp add: validateUrl_def)

lemma validateUrl_private:
  "length u \<le> MAX_URL_LENGTH \<Longrightarrow> URL_new env u = Some p \<Longrightarrow>
   protocol p = ''http:'' \<or> protocol p = ''https:'' \<Longrightarrow>
   list_ex (\<lambda>pattern. rx_test pattern (toLowerCase (hostname p))) PRIVATE_IP_PATTERNS \<Longrightarrow>
     validateUrl env u = Invalid (Private_ip (toLowerCase (hostname p)))"
  by (auto simp: validateUrl_def Let_def)

lemma plain_URL_localhost:
  "plain_URL localhost_url =
     Some \<lparr>protocol = ''http:'', hostname = ''localhost'', port = ''3000'', pathname = ''/x'',
           search = []\<rparr>"
  by (simp add: localhost_url_def plain_URL_eval string_of_nat.simps digit_char_def)

lemma plain_URL_ftp:
  "plain_URL ftp_url =
     Some \<lparr>protocol = ''ftp:'', hostname = ''example.com'', port = [], pathname = ''/'',
           search = []\<rparr>"
  by (simp add: ftp_url_def plain_URL_eval)

lemma localhost_private:
  "list_ex (\<lambda>pattern. rx_test pattern (toLowerCase ''localhost'')) PRIVATE_IP_PATTERNS"
proof -
  have "toLowerCase ''localhost'' = ''localhost''"
    by (simp add: toLowerCase_def lower_char_def char_tables)
  moreover have "rx_test (Regex (rx_str ''localhost'') True True) ''localhost''"
    by (simp add: rx_str_def rx_seq_def char_matches_def upper_char_def char_tables)
  ultimately show ?thesis by (simp add: PRIVATE_IP_PATTERNS_def)
qed

lemma too_long_text:
  "formatValidationError (Too_long 2000 2020) =
     ''URL exceeds maximum length of 2000 characters (got 2020)''"
  by (simp add: string_of_nat.simps digit_char_def)

text \<open>
  When \<open>validateUrl\<close> rejects a URL with the error \<open>e\<close>, \<open>startScrape\<close> throws an error whose
  message is \<open>formatValidationError e\<close>, while \<open>getCached\<close> and \<open>getByUrl\<close> return null and do
  not throw. The message contains \<^verbatim>\<open>exceeds maximum length\<close> when the URL has more than
  2000 characters; otherwise it contains \<^verbatim>\<open>Invalid URL scheme\<close> when the URL parses with
  a scheme other than http and https; otherwise it contains \<^verbatim>\<open>Private/local\<close> when the
  lower-case host name matches one of \<open>PRIVATE_IP_PATTERNS\<close>.
\<close>

lemma invalid_url_rejected:
  "(\<forall>e. validateUrl env u = Invalid e \<longrightarrow>
      startScrape env u key opts now s = Inl (Error (formatValidationError e)) \<and>
      getCached env u fmts now s = Inr None \<and>
      getByUrl env u s = Inr None) \<and>
   MAX_URL_LENGTH = 2000 \<and>
   (length u > MAX_URL_LENGTH \<longrightarrow>
      validateUrl env u = Invalid (Too_long MAX_URL_LENGTH (length u)) \<and>
      sublist ''exceeds maximum length''
        (formatValidationError (Too_long MAX_URL_LENGTH (length u)))) \<and>
   (\<forall>p. length u \<le> MAX_URL_LENGTH \<and> URL_new env u = Some p \<and>
        protocol p \<noteq> ''http:'' \<and> protocol p \<noteq> ''https:'' \<longrightarrow>
      validateUrl env u = Invalid (Invalid_scheme (protocol p)) \<and>
      sublist ''Invalid URL scheme'' (formatValidationError (Invalid_scheme (protocol p)))) \<and>
   (\<forall>p. length u \<le> MAX_URL_LENGTH \<and> URL_new env u = Some p \<and>
        (protocol p = ''http:'' \<or> protocol p = ''https:'') \<and>
        list_ex (\<lambda>pattern. rx_test pattern (toLowerCase (hostname p))) PRIVATE_IP_PATTERNS \<longrightarrow>
      validateUrl env u = Invalid (Private_ip (toLowerCase (hostname p))) \<and>
      sublist ''Private/local''
        (formatValidationError (Private_ip (toLowerCase (hostname p)))))"
proof -
  have a: "\<forall>e. validateUrl env u = Invalid e \<longrightarrow>
      startScrape env u key opts now s = Inl (Error (formatValidationError e)) \<and>
      getCached env u fmts now s = Inr None \<and>
      getByUrl env u s = Inr None"
    using invalid_rejected [of env u] by blast
  have b: "MAX_URL_LENGTH = 2000" by (simp add: MAX_URL_LENGTH_def)
  have c: "length u > MAX_URL_LENGTH \<longrightarrow>
      validateUrl env u = Invalid (Too_long MAX_URL_LENGTH (length u)) \<and>
      sublist ''exceeds maximum length''
        (formatValidationError (Too_long MAX_URL_LENGTH (length u)))"
    using validateUrl_too_long [of u env] too_long_message by blast
  have d: "\<forall>p. length u \<le> MAX_URL_LENGTH \<and> URL_new env u = Some p \<and>
        protocol p \<noteq> ''http:'' \<and> protocol p \<noteq> ''https:'' \<longrightarrow>
      validateUrl env u = Invalid (Invalid_scheme (protocol p)) \<and>
      sublist ''Invalid URL scheme'' (formatValidationError (Invalid_scheme (protocol p)))"
    using validateUrl_scheme [of u env] scheme_message by blast
  have e: "\<forall>p. length u \<le> MAX_URL_LENGTH \<and> URL_new env u = Some p \<and>
        (protocol p = ''http:'' \<or> protocol p = ''https:'') \<and>
        list_ex (\<lambda>pattern. rx_test pattern (toLowerCase (hostname p))) PRIVATE_IP_PATTERNS \<longrightarrow>
      validateUrl env u = Invalid (Private_ip (toLowerCase (hostname p))) \<and>
      sublist ''Private/local''
        (formatValidationError (Private_ip (toLowerCase (hostname p))))"
    using validateUrl_private [of u env] private_message by blast
  show ?thesis
    by (intro conjI) (rule a b c d e)+
qed

text \<open>The three URLs of the specification's scenario.\<close>

lemma invalid_url_examples:
  "startScrape plain_platform localhost_url ''key'' no_options 2000 cached_example =
     Inl (Error ''Private/local IP addresses are not allowed: localhost'') \<and>
   getCached plain_platform localhost_url None 2000 cached_example = Inr None \<and>
   getByUrl plain_platform localhost_url cached_example = Inr None \<and>
   startScrape plain_platform ftp_url ''key'' no_options 2000 cached_example =
     Inl (Error ''Invalid URL scheme: ftp:. Only http and https are allowed'') \<and>
   getCached plain_platform ftp_url None 2000 cached_example = Inr None \<and>
   getByUrl plain_platform ftp_url cached_example = Inr None \<and>
   startScrape plain_platform long_url ''key'' no_options 2000 cached_example =
     Inl (Error ''URL exceeds maximum length of 2000 characters (got 2020)'') \<and>
   getCached plain_platform long_url None 2000 cached_example = Inr None \<and>
   getByUrl plain_platform long_url cached_example = Inr None"
proof -
  let ?local = "\<lparr>protocol = ''http:'', hostname = ''localhost'', port = ''3000'',
                  pathname = ''/x'', search = []\<rparr>"
  let ?ftp = "\<lparr>protocol = ''ftp:'', hostname = ''example.com'', port = [],
                pathname = ''/'', search = []\<rparr>"
  note T = invalid_url_rejected [where env = plain_platform and key = "''key''" and
      opts = no_options and now = 2000 and s = cached_example and fmts = None]
  have len1: "length localhost_url \<le> MAX_URL_LENGTH"
    by (simp add: localhost_url_def MAX_URL_LENGTH_def)
  have len2: "length ftp_url \<le> MAX_URL_LENGTH"
    by (simp add: ftp_url_def MAX_URL_LENGTH_def)
  have len3: "length long_url = 2020" by (simp add: long_url_def)
  have u1: "URL_new plain_platform localhost_url = Some ?local"
    by (simp add: plain_platform_def plain_URL_localhost)
  have u2: "URL_new plain_platform ftp_url = Some ?ftp"
    by (simp add: plain_platform_def plain_URL_ftp)
  have v1: "validateUrl plain_platform localhost_url = Invalid (Private_ip ''localhost'')"
  proof -
    have "validateUrl plain_platform localhost_url =
        Invalid (Private_ip (toLowerCase (hostname ?local)))"
      using T [of localhost_url, THEN conjunct2, THEN conjunct2, THEN conjunct2, THEN conjunct2,
          rule_format, of ?local] len1 u1 localhost_private
      by simp
    then show ?thesis by (simp add: toLowerCase_def lower_char_def char_tables)
  qed
  have v2: "validateUrl plain_platform ftp_url = Invalid (Invalid_scheme ''ftp:'')"
    using T [of ftp_url, THEN conjunct2, THEN conjunct2, THEN conjunct2, THEN conjunct1,
        rule_format, of ?ftp] len2 u2
    by simp
  have v3: "validateUrl plain_platform long_url = Invalid (Too_long 2000 2020)"
    using T [of long_url, THEN conjunct2, THEN conjunct2, THEN conjunct1]
    by (simp add: len3 MAX_URL_LENGTH_def)
  have r1: "startScrape plain_platform localhost_url ''key'' no_options 2000 cached_example =
       Inl (Error ''Private/local IP addresses are not allowed: localhost'') \<and>
     getCached plain_platform localhost_url None 2000 cached_example = Inr None \<and>
     getByUrl plain_platform localhost_url cached_example = Inr None"
    using T [of localhost_url, THEN conjunct1, rule_format, OF v1] by simp
  have r2: "startScrape plain_platform ftp_url ''key'' no_options 2000 cached_example =
       Inl (Error ''Invalid URL scheme: ftp:. Only http and https are allowed'') \<and>
     getCached plain_platform ftp_url None 2000 cached_example = Inr None \<and>
     getByUrl plain_platform ftp_url cached_example = Inr None"
    using T [of ftp_url, THEN conjunct1, rule_format, OF v2] by simp
  have r3: "startScrape plain_platform long_url ''key'' no_options 2000 cached_example =
       Inl (Error ''URL exceeds maximum length of 2000 characters (got 2020)'') \<and>
     getCached plain_platform long_url None 2000 cached_example = Inr None \<and>
     getByUrl plain_platform long_url cached_example = Inr None"
    using T [of long_url, THEN conjunct1, rule_format, OF v3] unfolding too_long_text .
  from r1 r2 r3 show ?thesis by blast
qed

text \<open>Hosts in brackets.\<close>

lemma rx_run_str:
  "rx_run False (rx_str lit) s = (if prefix lit s then [drop (length lit) s] else [])"
proof (induction lit arbitrary: s)
  case Nil
  then show ?case by simp
next
  case (Cons c cs)
  show ?case
  proof (cases s)
    case Nil
    then show ?thesis by simp
  next
    case (Cons x xs)
    then show ?thesis using Cons.IH [of xs] by (simp add: char_matches_def)
  qed
qed

lemma rx_test_literal: "rx_test (Regex (rx_str lit) True False) s = (s = lit)"
proof -
  have "(prefix lit s \<and> drop (length lit) s = []) = (s = lit)"
    by (auto simp: prefix_def)
  then show ?thesis by (auto simp: rx_run_str)
qed

lemma bracket_not_private:
  assumes "a \<noteq> ''::1''" and "a \<noteq> ''::''"
  shows "\<not> list_ex (\<lambda>pattern. rx_test pattern (CHR ''['' # a @ '']'')) PRIVATE_IP_PATTERNS"
proof -
  have l1: "\<not> rx_test (Regex (rx_str ''[::1]'') True False) (CHR ''['' # a @ '']'')"
    unfolding rx_test_literal using assms(1) by simp
  have l2: "\<not> rx_test (Regex (rx_str ''[::]'') True False) (CHR ''['' # a @ '']'')"
    unfolding rx_test_literal using assms(2) by simp
  show ?thesis
    unfolding PRIVATE_IP_PATTERNS_def list_ex_Cons_iff list_ex_Nil_iff de_Morgan_disj
    apply (intro conjI l1 l2)
    apply (simp_all add: char_matches_def upper_char_def char_tables octet_def)
    done
qed

lemma bracket_not_blocked:
  "\<not> list_ex (\<lambda>sfx. suffix sfx (CHR ''['' # a @ '']'')) BLOCKED_HOSTNAME_SUFFIXES"
proof -
  have "\<And>sfx. sfx \<noteq> [] \<Longrightarrow> last sfx \<noteq> CHR '']'' \<Longrightarrow> \<not> suffix sfx (CHR ''['' # a @ '']'')"
  proof
    fix sfx :: string
    assume n: "sfx \<noteq> []" and l: "last sfx \<noteq> CHR '']''" and s: "suffix sfx (CHR ''['' # a @ '']'')"
    from s obtain ys where "CHR ''['' # a @ '']'' = ys @ sfx" by (auto simp: suffix_def)
    then have "last (CHR ''['' # a @ '']'') = last (ys @ sfx)" by simp
    with n l show False by simp
  qed
  then show ?thesis by (simp add: BLOCKED_HOSTNAME_SUFFIXES_def)
qed

lemma validateUrl_bracketed:
  assumes "length u \<le> MAX_URL_LENGTH" and "URL_new env u = Some p"
    and "protocol p = ''http:'' \<or> protocol p = ''https:''"
    and "toLowerCase (hostname p) = CHR ''['' # a @ '']''"
    and "a \<noteq> ''::1''" and "a \<noteq> ''::''"
  shows "validateUrl env u = Valid"
  using assms bracket_not_private [of a] bracket_not_blocked [of a]
  by (auto simp: validateUrl_def Let_def)

lemma startScrape_empty:
  assumes v: "validateUrl env u = Valid"
  shows "\<exists>s'. startScrape env u key opts now \<lparr> scrapes = [], files = [], scheduled = [] \<rparr> =
           Inr (0, s')"
proof -
  from valid_normalizes [OF v] obtain n where n: "normalizeUrl env u = Inr n" by blast
  show ?thesis
    by (simp add: startScrape_unfold [OF v n] latest_by_url_hash_def by_url_hash_def docs_def)
qed

section \<open>The reference platform on paths that end in a slash\<close>

lemma plain_URL_double_slash:
  "plain_URL double_slash_url =
     Some \<lparr>protocol = ''https:'', hostname = ''example.com'', port = [],
           pathname = ''/path//'', search = []\<rparr>"
  by (simp add: double_slash_url_def plain_URL_eval)

lemma plain_URL_single_slash:
  "plain_URL ''https://example.com/path/'' =
     Some \<lparr>protocol = ''https:'', hostname = ''example.com'', port = [],
           pathname = ''/path/'', search = []\<rparr>"
  by (simp add: plain_URL_eval)

section \<open>Facts about the stored content\<close>






lemma store_field_not_both:
  "fst (fst (store_field v t m fs)) = None \<or> snd (fst (store_field v t m fs)) = None"
  by (simp add: store_field_def)







lemma text_content_absent:
  "x = None \<or> x = Some [] \<Longrightarrow> fst (text_content x m fs) = (None, None)"
  by (auto simp: text_content_def)

















section \<open>Facts about the files of a document and the batch of the expiry sweep\<close>

lemma set_map_filter_id: "k \<in> set (List.map_filter (\<lambda>x. x) xs) \<longleftrightarrow> Some k \<in> set xs"
  by (induction xs) (auto simp: map_filter_simps split: option.splits)

lemma set_fileIds:
  "k \<in> set (fileIds j) \<longleftrightarrow>
     markdownFileId j = Some k \<or> htmlFileId j = Some k \<or> rawHtmlFileId j = Some k \<or>
     screenshotFileId j = Some k \<or> linksFileId j = Some k \<or> imagesFileId j = Some k \<or>
     extractedJsonFileId j = Some k"
  unfolding fileIds_def set_map_filter_id by auto

lemma sorted_by_expires_lt:
  "sorted_wrt (\<lambda>a b. expiresAt (snd a) \<le> expiresAt (snd b)) (by_expires_lt t bound)"
proof -
  have "sorted (map (\<lambda>d. expiresAt (snd d)) (sort_key (\<lambda>d. expiresAt (snd d)) (docs t)))"
    by (rule sorted_sort_key)
  then have "sorted (map (\<lambda>d. expiresAt (snd d)) (by_expires_lt t bound))"
    unfolding by_expires_lt_def by (rule sorted_filter)
  then show ?thesis by (simp add: sorted_map)
qed

lemma cleanup_batch:
  assumes "db_get t k = Some j" and "expiresAt j < bound"
    and "(k, j) \<notin> set (take n (by_expires_lt t bound))"
  shows "length (take n (by_expires_lt t bound)) = n \<and>
     (\<forall>d\<in>set (take n (by_expires_lt t bound)). expiresAt (snd d) \<le> expiresAt j)"
proof -
  have "(k, j) \<in> set (by_expires_lt t bound)"
    using assms(1,2) by (simp add: in_by_expires_lt)
  from take_sorted_wrt [OF sorted_by_expires_lt this assms(3)] show ?thesis by simp
qed

section \<open>Inline content and stored files\<close>




section \<open>Status transitions\<close>

text \<open>
  Claim C3. \<open>completeScrape\<close> and \<open>failScrape\<close> never throw. On a job that does not exist
  or is already completed or failed each returns the state as it was. On a pending or
  scraping job the first makes it completed and the second failed. Whenever either
  changes the status of a document, that document is the job named, it was pending or
  scraping, and its new status is completed or failed: no transition leaves a terminal
  status.
\<close>

theorem complete_fail_guarded:
  "(\<exists>s'. completeScrape i c ttl now s = Inr s') \<and>
   (\<exists>s'. failScrape i err code s = Inr s') \<and>
   ((db_get (scrapes s) i = None \<or>
     (\<exists>job. db_get (scrapes s) i = Some job \<and> terminal (status job))) \<longrightarrow>
      completeScrape i c ttl now s = Inr s \<and> failScrape i err code s = Inr s) \<and>
   (\<forall>job. db_get (scrapes s) i = Some job \<and> (status job = Pending \<or> status job = Scraping) \<longrightarrow>
      (\<exists>s' job'. completeScrape i c ttl now s = Inr s' \<and>
          db_get (scrapes s') i = Some job' \<and> status job' = Completed) \<and>
      (\<exists>s' job'. failScrape i err code s = Inr s' \<and>
          db_get (scrapes s') i = Some job' \<and> status job' = Failed)) \<and>
   (\<forall>s' k. (completeScrape i c ttl now s = Inr s' \<or> failScrape i err code s = Inr s') \<and>
       map_option status (db_get (scrapes s') k) \<noteq> map_option status (db_get (scrapes s) k) \<longrightarrow>
       k = i \<and>
       (\<exists>job job'. db_get (scrapes s) i = Some job \<and> db_get (scrapes s') i = Some job' \<and>
          (status job = Pending \<or> status job = Scraping) \<and> terminal (status job')))"
proof -
  show ?thesis
  proof (cases "db_get (scrapes s) i")
    case None
    then show ?thesis by (simp add: completeScrape_def failScrape_def)
  next
    case (Some job)
    note lt = db_get_SomeD [OF Some]
    show ?thesis
    proof (cases "terminal (status job)")
      case True
      then show ?thesis using Some
        by (cases "status job") (auto simp: completeScrape_def failScrape_def terminal_def)
    next
      case False
      then have act: "status job = Pending \<or> status job = Scraping"
        by (cases "status job") (auto simp: terminal_def)
      have c: "completeScrape i c ttl now s =
          Inr (s\<lparr>scrapes := (scrapes s)[i := Some (patch_content c
            (job\<lparr>status := Completed, scrapedAt := Some now, expiresAt := now + ttl\<rparr>))]\<rparr>)"
        using Some act by (auto simp: completeScrape_def db_patch_Some)
      have f: "failScrape i err code s =
          Inr (s\<lparr>scrapes := (scrapes s)[i := Some
            (job\<lparr>status := Failed, error := Some err, errorCode := code\<rparr>)]\<rparr>)"
        using Some act by (auto simp: failScrape_def db_patch_Some)
      show ?thesis
        unfolding c f using Some act lt
        by (auto simp: db_get_update terminal_def split: if_splits)
    qed
  qed
qed

theorem complete_fail_guarded_witness:
  "terminal (status (example_job Failed 5000)) \<and>
   completeScrape 0 no_content 1000 2000 (example_store [Some (example_job Failed 5000)]) =
     Inr (example_store [Some (example_job Failed 5000)]) \<and>
   failScrape 0 ''late'' None (example_store [Some (example_job Failed 5000)]) =
     Inr (example_store [Some (example_job Failed 5000)]) \<and>
   status (example_job Scraping 5000) = Scraping \<and>
   (\<exists>s' job'. completeScrape 0 no_content 1000 2000
        (example_store [Some (example_job Scraping 5000)]) = Inr s' \<and>
      db_get (scrapes s') 0 = Some job' \<and> status job' = Completed) \<and>
   (\<exists>s' job'. failScrape 0 ''late'' None
        (example_store [Some (example_job Scraping 5000)]) = Inr s' \<and>
      db_get (scrapes s') 0 = Some job' \<and> status job' = Failed)"
proof -
  have g1: "db_get (scrapes (example_store [Some (example_job Failed 5000)])) 0 =
      Some (example_job Failed 5000)"
    by (simp add: db_get_def example_store_def)
  have t1: "terminal (status (example_job Failed 5000))"
    by (simp add: example_job_def terminal_def)
  have g2: "db_get (scrapes (example_store [Some (example_job Scraping 5000)])) 0 =
      Some (example_job Scraping 5000)"
    by (simp add: db_get_def example_store_def)
  have t2: "status (example_job Scraping 5000) = Scraping"
    by (simp add: example_job_def)
  from complete_fail_guarded [of 0 no_content 1000 2000
      "example_store [Some (example_job Failed 5000)]" "''late''" None] g1 t1
  have a: "completeScrape 0 no_content 1000 2000 (example_store [Some (example_job Failed 5000)]) =
     Inr (example_store [Some (example_job Failed 5000)]) \<and>
   failScrape 0 ''late'' None (example_store [Some (example_job Failed 5000)]) =
     Inr (example_store [Some (example_job Failed 5000)])"
    by blast
  from complete_fail_guarded [of 0 no_content 1000 2000
      "example_store [Some (example_job Scraping 5000)]" "''late''" None] g2 t2
  have b: "(\<exists>s' job'. completeScrape 0 no_content 1000 2000
        (example_store [Some (example_job Scraping 5000)]) = Inr s' \<and>
      db_get (scrapes s') 0 = Some job' \<and> status job' = Completed) \<and>
   (\<exists>s' job'. failScrape 0 ''late'' None
        (example_store [Some (example_job Scraping 5000)]) = Inr s' \<and>
      db_get (scrapes s') 0 = Some job' \<and> status job' = Failed)"
    by blast
  from a b t1 t2 show ?thesis by blast
qed

section \<open>Cache lookup\<close>

text \<open>
  Claim C4. \<open>getCached\<close> returns null on an invalid URL. On a valid URL it never throws.
  It loads the ten most recent documents of the normalized URL's hash, newest first: at
  most ten documents of that hash, in descending order of creation, and a document of the
  hash that is not loaded is older than each of the ten that are. It returns the first
  loaded document that is completed, has \<open>expiresAt > now\<close> and whose formats contain every
  requested format (\<open>["markdown"]\<close> when none is requested), which is the newest such
  document among the loaded ones; it returns a document exactly when one of them
  satisfies this. \<open>startScrape\<close> without \<open>force\<close> returns the identifier of that document
  and leaves the state as it was, provided none of the loaded documents is pending or
  scraping; when one is, it throws the conflict error with the identifier of the newest
  loaded document that is pending or scraping.
\<close>

theorem cache_lookup:
  "(validateUrl env u \<noteq> Valid \<longrightarrow> getCached env u fmts now s = Inr None) \<and>
   (validateUrl env u = Valid \<longrightarrow>
      (\<exists>n. normalizeUrl env u = Inr n \<and>
         (\<forall>d \<in> set (latest_by_url_hash (scrapes s) (hashUrl env n) 10).
            db_get (scrapes s) (fst d) = Some (snd d) \<and> urlHash (snd d) = hashUrl env n) \<and>
         length (latest_by_url_hash (scrapes s) (hashUrl env n) 10) \<le> 10 \<and>
         sorted_wrt (\<lambda>a b. fst b < fst a) (latest_by_url_hash (scrapes s) (hashUrl env n) 10) \<and>
         (\<forall>k j. db_get (scrapes s) k = Some j \<and> urlHash j = hashUrl env n \<and>
            (k, j) \<notin> set (latest_by_url_hash (scrapes s) (hashUrl env n) 10) \<longrightarrow>
            length (latest_by_url_hash (scrapes s) (hashUrl env n) 10) = 10 \<and>
            (\<forall>d \<in> set (latest_by_url_hash (scrapes s) (hashUrl env n) 10). k < fst d)) \<and>
         getCached env u fmts now s =
           Inr (find (\<lambda>d. status (snd d) = Completed \<and> expiresAt (snd d) > now \<and>
                    set (case fmts of None \<Rightarrow> [''markdown''] | Some fs \<Rightarrow> fs)
                      \<subseteq> set (formats (snd d)))
                  (latest_by_url_hash (scrapes s) (hashUrl env n) 10)) \<and>
         ((\<exists>d. getCached env u fmts now s = Inr (Some d)) =
            (\<exists>d \<in> set (latest_by_url_hash (scrapes s) (hashUrl env n) 10).
               status (snd d) = Completed \<and> expiresAt (snd d) > now \<and>
               set (case fmts of None \<Rightarrow> [''markdown''] | Some fs \<Rightarrow> fs)
                 \<subseteq> set (formats (snd d)))) \<and>
         (\<forall>d e. getCached env u fmts now s = Inr (Some d) \<and>
            e \<in> set (latest_by_url_hash (scrapes s) (hashUrl env n) 10) \<and>
            status (snd e) = Completed \<and> expiresAt (snd e) > now \<and>
            set (case fmts of None \<Rightarrow> [''markdown''] | Some fs \<Rightarrow> fs)
              \<subseteq> set (formats (snd e)) \<longrightarrow>
            fst e \<le> fst d) \<and>
         (\<forall>d key opts.
            scrape_options.force opts \<noteq> Some True \<and>
            (\<forall>e \<in> set (latest_by_url_hash (scrapes s) (hashUrl env n) 10).
               status (snd e) \<noteq> Pending \<and> status (snd e) \<noteq> Scraping) \<and>
            getCached env u (scrape_options.formats opts) now s = Inr (Some d) \<longrightarrow>
            startScrape env u key opts now s = Inr (fst d, s)) \<and>
         (\<forall>key opts.
            scrape_options.force opts \<noteq> Some True \<and>
            (\<exists>e \<in> set (latest_by_url_hash (scrapes s) (hashUrl env n) 10).
               status (snd e) = Pending \<or> status (snd e) = Scraping) \<longrightarrow>
            (\<exists>d \<in> set (latest_by_url_hash (scrapes s) (hashUrl env n) 10).
               (status (snd d) = Pending \<or> status (snd d) = Scraping) \<and>
               (\<forall>e \<in> set (latest_by_url_hash (scrapes s) (hashUrl env n) 10).
                  status (snd e) = Pending \<or> status (snd e) = Scraping \<longrightarrow>
                  fst e \<le> fst d) \<and>
               startScrape env u key opts now s =
                 Inl (Error (''Scrape already in progress for this URL. Job ID: '' @
                             string_of_nat (fst d)))))))"
proof (intro conjI impI)
  assume "validateUrl env u \<noteq> Valid"
  from invalid_cases [OF this] show "getCached env u fmts now s = Inr None"
    by (auto simp: getCached_def)
next
  assume v: "validateUrl env u = Valid"
  from valid_normalizes [OF v] obtain n where n: "normalizeUrl env u = Inr n" by blast
  let ?L = "latest_by_url_hash (scrapes s) (hashUrl env n) 10"
  let ?P = "\<lambda>d. status (snd d) = Completed \<and> expiresAt (snd d) > now \<and>
                    set (case fmts of None \<Rightarrow> [''markdown''] | Some fs \<Rightarrow> fs)
                      \<subseteq> set (formats (snd d))"
  have a: "\<forall>d \<in> set ?L. db_get (scrapes s) (fst d) = Some (snd d) \<and> urlHash (snd d) = hashUrl env n"
    using in_latestD by blast
  have l1: "length ?L \<le> 10" by (rule length_latest)
  have l2: "sorted_wrt (\<lambda>a b. fst b < fst a) ?L" by (rule sorted_latest)
  have l3: "\<forall>k j. db_get (scrapes s) k = Some j \<and> urlHash j = hashUrl env n \<and>
            (k, j) \<notin> set ?L \<longrightarrow> length ?L = 10 \<and> (\<forall>d \<in> set ?L. k < fst d)"
    using latest_complete [of "scrapes s" _ _ "hashUrl env n" 10] by blast
  have b: "getCached env u fmts now s = Inr (find ?P ?L)"
    by (rule getCached_char [OF v n])
  have c: "(\<exists>d. getCached env u fmts now s = Inr (Some d)) = (\<exists>d \<in> set ?L. ?P d)"
  proof -
    have "(\<exists>d. find ?P ?L = Some d) = (\<exists>d \<in> set ?L. ?P d)"
      by (rule find_Some_ex)
    then show ?thesis unfolding b by simp
  qed
  have c2: "\<forall>d e. getCached env u fmts now s = Inr (Some d) \<and> e \<in> set ?L \<and>
            status (snd e) = Completed \<and> expiresAt (snd e) > now \<and>
            set (case fmts of None \<Rightarrow> [''markdown''] | Some fs \<Rightarrow> fs)
              \<subseteq> set (formats (snd e)) \<longrightarrow>
            fst e \<le> fst d"
  proof (intro allI impI)
    fix d e :: "job_id \<times> scrape"
    assume h: "getCached env u fmts now s = Inr (Some d) \<and> e \<in> set ?L \<and>
            status (snd e) = Completed \<and> expiresAt (snd e) > now \<and>
            set (case fmts of None \<Rightarrow> [''markdown''] | Some fs \<Rightarrow> fs)
              \<subseteq> set (formats (snd e))"
    then have f: "find ?P ?L = Some d" unfolding b by simp
    from h have "e \<in> set ?L" "?P e" by simp_all
    from find_newest [of ?P, OF f this] show "fst e \<le> fst d" .
  qed
  have d: "\<forall>d key opts.
            scrape_options.force opts \<noteq> Some True \<and>
            (\<forall>e \<in> set ?L. status (snd e) \<noteq> Pending \<and> status (snd e) \<noteq> Scraping) \<and>
            getCached env u (scrape_options.formats opts) now s = Inr (Some d) \<longrightarrow>
            startScrape env u key opts now s = Inr (fst d, s)"
    using startScrape_cached [OF v n] by blast
  have e: "\<forall>key opts.
            scrape_options.force opts \<noteq> Some True \<and>
            (\<exists>e \<in> set ?L. status (snd e) = Pending \<or> status (snd e) = Scraping) \<longrightarrow>
            (\<exists>d \<in> set ?L.
               (status (snd d) = Pending \<or> status (snd d) = Scraping) \<and>
               (\<forall>e \<in> set ?L. status (snd e) = Pending \<or> status (snd e) = Scraping \<longrightarrow>
                  fst e \<le> fst d) \<and>
               startScrape env u key opts now s =
                 Inl (Error (''Scrape already in progress for this URL. Job ID: '' @
                             string_of_nat (fst d))))"
    using startScrape_conflict_newest [OF v n] by blast
  show "\<exists>n. normalizeUrl env u = Inr n \<and>
         (\<forall>d \<in> set (latest_by_url_hash (scrapes s) (hashUrl env n) 10).
            db_get (scrapes s) (fst d) = Some (snd d) \<and> urlHash (snd d) = hashUrl env n) \<and>
         length (latest_by_url_hash (scrapes s) (hashUrl env n) 10) \<le> 10 \<and>
         sorted_wrt (\<lambda>a b. fst b < fst a) (latest_by_url_hash (scrapes s) (hashUrl env n) 10) \<and>
         (\<forall>k j. db_get (scrapes s) k = Some j \<and> urlHash j = hashUrl env n \<and>
            (k, j) \<notin> set (latest_by_url_hash (scrapes s) (hashUrl env n) 10) \<longrightarrow>
            length (latest_by_url_hash (scrapes s) (hashUrl env n) 10) = 10 \<and>
            (\<forall>d \<in> set (latest_by_url_hash (scrapes s) (hashUrl env n) 10). k < fst d)) \<and>
         getCached env u fmts now s =
           Inr (find (\<lambda>d. status (snd d) = Completed \<and> expiresAt (snd d) > now \<and>
                    set (case fmts of None \<Rightarrow> [''markdown''] | Some fs \<Rightarrow> fs)
                      \<subseteq> set (formats (snd d)))
                  (latest_by_url_hash (scrapes s) (hashUrl env n) 10)) \<and>
         ((\<exists>d. getCached env u fmts now s = Inr (Some d)) =
            (\<exists>d \<in> set (latest_by_url_hash (scrapes s) (hashUrl env n) 10).
               status (snd d) = Completed \<and> expiresAt (snd d) > now \<and>
               set (case fmts of None \<Rightarrow> [''markdown''] | Some fs \<Rightarrow> fs)
                 \<subseteq> set (formats (snd d)))) \<and>
         (\<forall>d e. getCached env u fmts now s = Inr (Some d) \<and>
            e \<in> set (latest_by_url_hash (scrapes s) (hashUrl env n) 10) \<and>
            status (snd e) = Completed \<and> expiresAt (snd e) > now \<and>
            set (case fmts of None \<Rightarrow> [''markdown''] | Some fs \<Rightarrow> fs)
              \<subseteq> set (formats (snd e)) \<longrightarrow>
            fst e \<le> fst d) \<and>
         (\<forall>d key opts.
            scrape_options.force opts \<noteq> Some True \<and>
            (\<forall>e \<in> set (latest_by_url_hash (scrapes s) (hashUrl env n) 10).
               status (snd e) \<noteq> Pending \<and> status (snd e) \<noteq> Scraping) \<and>
            getCached env u (scrape_options.formats opts) now s = Inr (Some d) \<longrightarrow>
            startScrape env u key opts now s = Inr (fst d, s)) \<and>
         (\<forall>key opts.
            scrape_options.force opts \<noteq> Some True \<and>
            (\<exists>e \<in> set (latest_by_url_hash (scrapes s) (hashUrl env n) 10).
               status (snd e) = Pending \<or> status (snd e) = Scraping) \<longrightarrow>
            (\<exists>d \<in> set (latest_by_url_hash (scrapes s) (hashUrl env n) 10).
               (status (snd d) = Pending \<or> status (snd d) = Scraping) \<and>
               (\<forall>e \<in> set (latest_by_url_hash (scrapes s) (hashUrl env n) 10).
                  status (snd e) = Pending \<or> status (snd e) = Scraping \<longrightarrow>
                  fst e \<le> fst d) \<and>
               startScrape env u key opts now s =
                 Inl (Error (''Scrape already in progress for this URL. Job ID: '' @
                             string_of_nat (fst d)))))"
    by (rule exI [of _ n], intro conjI) (rule n a l1 l2 l3 b c c2 d e)+
qed

theorem cache_lookup_witness:
  "getCached plain_platform example_page None 2000 cached_example =
     Inr (Some (2, example_job Completed 5000)) \<and>
   getCached plain_platform example_page (Some [''markdown'', ''html'']) 2000 cached_example =
     Inr None \<and>
   startScrape plain_platform example_page ''key'' no_options 2000 cached_example =
     Inr (2, cached_example)"
proof -
  let ?h = "hashUrl plain_platform example_page"
  have n: "\<And>n. normalizeUrl plain_platform example_page = Inr n \<Longrightarrow> n = example_page"
    by (simp add: normalizeUrl_example_page)
  from cache_lookup [of plain_platform example_page None 2000 cached_example,
      THEN conjunct2, rule_format, OF validateUrl_example_page] n
  have g1: "getCached plain_platform example_page None 2000 cached_example =
           Inr (find (\<lambda>d. status (snd d) = Completed \<and> expiresAt (snd d) > 2000 \<and>
                    set [''markdown''] \<subseteq> set (formats (snd d)))
                  (latest_by_url_hash (scrapes cached_example) ?h 10))" and
    st: "\<And>d key opts.
            scrape_options.force opts \<noteq> Some True \<Longrightarrow>
            (\<forall>e \<in> set (latest_by_url_hash (scrapes cached_example) ?h 10).
               status (snd e) \<noteq> Pending \<and> status (snd e) \<noteq> Scraping) \<Longrightarrow>
            getCached plain_platform example_page (scrape_options.formats opts) 2000 cached_example
              = Inr (Some d) \<Longrightarrow>
            startScrape plain_platform example_page key opts 2000 cached_example =
              Inr (fst d, cached_example)"
    by auto
  from cache_lookup [of plain_platform example_page "Some [''markdown'', ''html'']" 2000
      cached_example, THEN conjunct2, rule_format, OF validateUrl_example_page] n
  have g2: "getCached plain_platform example_page (Some [''markdown'', ''html'']) 2000
              cached_example =
           Inr (find (\<lambda>d. status (snd d) = Completed \<and> expiresAt (snd d) > 2000 \<and>
                    set [''markdown'', ''html''] \<subseteq> set (formats (snd d)))
                  (latest_by_url_hash (scrapes cached_example) ?h 10))"
    by auto
  have a: "getCached plain_platform example_page None 2000 cached_example =
     Inr (Some (2, example_job Completed 5000))"
    unfolding g1 cached_example_latest by (simp add: example_job_def new_scrape_def)
  have b: "getCached plain_platform example_page (Some [''markdown'', ''html'']) 2000
     cached_example = Inr None"
    unfolding g2 cached_example_latest by (simp add: example_job_def new_scrape_def)
  have c: "startScrape plain_platform example_page ''key'' no_options 2000 cached_example =
     Inr (2, cached_example)"
    using st [of no_options "(2, example_job Completed 5000)" "''key''"] a
    unfolding cached_example_latest
    by (simp add: no_options_def example_job_def new_scrape_def)
  from a b c show ?thesis by simp
qed

text \<open>
  The proviso is needed: with a pending document among the ten, \<open>startScrape\<close> throws the
  conflict error although \<open>getCached\<close> finds a completed, unexpired document with the
  requested format.
\<close>

theorem cache_hit_behind_active_job:
  "getCached plain_platform example_page None 2000 conflict_example =
     Inr (Some (0, example_job Completed 5000)) \<and>
   startScrape plain_platform example_page ''key'' no_options 2000 conflict_example =
     Inl (Error ''Scrape already in progress for this URL. Job ID: 1'')"
proof -
  have l: "latest_by_url_hash (scrapes conflict_example) (hashUrl plain_platform example_page) 10 =
     [(1, (example_job Pending 5000)\<lparr>formats := [''html'']\<rparr>), (0, example_job Completed 5000)]"
    by (simp add: latest_by_url_hash_def by_url_hash_def docs_def conflict_example_def
      example_store_def example_job_def new_scrape_def)
  have a: "getCached plain_platform example_page None 2000 conflict_example =
     Inr (Some (0, example_job Completed 5000))"
    unfolding getCached_valid [OF validateUrl_example_page normalizeUrl_example_page] l
    by (simp add: is_cache_hit_def formatsSatisfied_def example_job_def new_scrape_def)
  have b: "startScrape plain_platform example_page ''key'' no_options 2000 conflict_example =
     Inl (Error ''Scrape already in progress for this URL. Job ID: 1'')"
    unfolding startScrape_unfold [OF validateUrl_example_page normalizeUrl_example_page]
    by (simp add: no_options_def l is_active_def example_job_def new_scrape_def string_of_nat_1)
  from a b show ?thesis by simp
qed

section \<open>Normalizing twice\<close>

text \<open>
  Claim C5. \<open>normalizeUrl\<close> is not idempotent: it removes one trailing slash of the path, so
  a path that ends in two slashes keeps one, which a second run removes. On
  \<^verbatim>\<open>https://example.com/path//\<close> it returns \<^verbatim>\<open>https://example.com/path/\<close>, and on that it
  returns \<^verbatim>\<open>https://example.com/path\<close>.
\<close>

theorem normalizeUrl_twice:
  "normalizeUrl plain_platform double_slash_url = Inr ''https://example.com/path/'' \<and>
   normalizeUrl plain_platform ''https://example.com/path/'' = Inr ''https://example.com/path''"
proof -
  have u1: "URL_new plain_platform double_slash_url =
      Some \<lparr>protocol = ''https:'', hostname = ''example.com'', port = [],
           pathname = ''/path//'', search = []\<rparr>"
    by (simp add: plain_platform_def plain_URL_double_slash)
  have u2: "URL_new plain_platform ''https://example.com/path/'' =
      Some \<lparr>protocol = ''https:'', hostname = ''example.com'', port = [],
           pathname = ''/path/'', search = []\<rparr>"
    by (simp add: plain_platform_def plain_URL_single_slash)
  have a: "normalizeUrl plain_platform double_slash_url = Inr ''https://example.com/path/''"
    by (simp add: normalizeUrl_def u1 toLowerCase_example_host plain_no_params suffix_to_prefix)
  have b: "normalizeUrl plain_platform ''https://example.com/path/'' =
      Inr ''https://example.com/path''"
    by (simp add: normalizeUrl_def u2 toLowerCase_example_host plain_no_params suffix_to_prefix)
  from a b show ?thesis by simp
qed


section \<open>The stuck-job sweep\<close>

text \<open>
  Claim C6. The stuck-job timeout is 300000 ms (5 minutes). \<open>markStuckJobsFailed\<close> never
  throws; it returns the number of documents whose status is scraping and whose
  \<open>scrapingAt\<close> is strictly less than \<open>now - 300000\<close> (a missing \<open>scrapingAt\<close> sorts before
  every number in the index and counts as less), sets the status of exactly these to
  failed with the error text "Scrape timed out after 5 minutes", and leaves every other
  document and every other field as it was. \<open>startedAt\<close> plays no part: changing the
  \<open>startedAt\<close> of the documents in any way changes neither the count nor what is done
  to each document.
\<close>

theorem stuck_sweep_exact:
  "STUCK_JOB_TIMEOUT_MS = 300000 \<and>
   (\<exists>s'. markStuckJobsFailed now s =
          Inr (length (filter (\<lambda>d. status (snd d) = Scraping \<and>
                  (case scrapingAt (snd d) of None \<Rightarrow> True | Some t \<Rightarrow> t < now - 300000))
                (docs (scrapes s))), s') \<and>
      files s' = files s \<and> scheduled s' = scheduled s \<and>
      length (scrapes s') = length (scrapes s) \<and>
      (\<forall>k. db_get (scrapes s') k =
         (case db_get (scrapes s) k of
            None \<Rightarrow> None
          | Some j \<Rightarrow>
              if status j = Scraping \<and>
                 (case scrapingAt j of None \<Rightarrow> True | Some t \<Rightarrow> t < now - 300000)
              then Some (j\<lparr>status := Failed,
                           error := Some ''Scrape timed out after 5 minutes''\<rparr>)
              else Some j)) \<and>
      (\<forall>g. \<exists>s2. markStuckJobsFailed now
                (s\<lparr>scrapes := map (map_option (startedAt_update g)) (scrapes s)\<rparr>) =
             Inr (length (filter (\<lambda>d. status (snd d) = Scraping \<and>
                     (case scrapingAt (snd d) of None \<Rightarrow> True | Some t \<Rightarrow> t < now - 300000))
                   (docs (scrapes s))), s2) \<and>
             scrapes s2 = map (map_option (startedAt_update g)) (scrapes s')))"
proof -
  have T: "STUCK_JOB_TIMEOUT_MS = 300000"
    by (simp add: STUCK_JOB_TIMEOUT_MS_def)
  let ?P = "\<lambda>j. status j = Scraping \<and>
                 (case scrapingAt j of None \<Rightarrow> True | Some t \<Rightarrow> t < now - 300000)"
  let ?f = "\<lambda>j::scrape. j\<lparr>status := Failed, error := Some ''Scrape timed out after 5 minutes''\<rparr>"
  have char: "\<exists>s'. markStuckJobsFailed now s =
          Inr (length (filter (\<lambda>d. ?P (snd d)) (docs (scrapes s))), s') \<and>
        files s' = files s \<and> scheduled s' = scheduled s \<and>
        length (scrapes s') = length (scrapes s) \<and>
        (\<forall>k. db_get (scrapes s') k =
           (case db_get (scrapes s) k of
              None \<Rightarrow> None | Some j \<Rightarrow> if ?P j then Some (?f j) else Some j))" for s
    using markStuck_char [of now s]
    unfolding T length_by_status_scraping_lt less_Some_iff .
  from char [of s] obtain s' where
    r: "markStuckJobsFailed now s =
          Inr (length (filter (\<lambda>d. ?P (snd d)) (docs (scrapes s))), s')" and
    fr: "files s' = files s" "scheduled s' = scheduled s"
        "length (scrapes s') = length (scrapes s)" and
    g: "\<And>k. db_get (scrapes s') k =
           (case db_get (scrapes s) k of
              None \<Rightarrow> None | Some j \<Rightarrow> if ?P j then Some (?f j) else Some j)"
    by blast
  have indep: "\<exists>s2. markStuckJobsFailed now
                (s\<lparr>scrapes := map (map_option (startedAt_update g)) (scrapes s)\<rparr>) =
             Inr (length (filter (\<lambda>d. ?P (snd d)) (docs (scrapes s))), s2) \<and>
             scrapes s2 = map (map_option (startedAt_update g)) (scrapes s')" for g
  proof -
    let ?h = "startedAt_update g :: scrape \<Rightarrow> scrape"
    let ?s1 = "s\<lparr>scrapes := map (map_option ?h) (scrapes s)\<rparr>"
    from char [of ?s1] obtain s2 where
      r2: "markStuckJobsFailed now ?s1 =
          Inr (length (filter (\<lambda>d. ?P (snd d)) (docs (scrapes ?s1))), s2)" and
      l2: "length (scrapes s2) = length (scrapes ?s1)" and
      g2: "\<And>k. db_get (scrapes s2) k =
           (case db_get (scrapes ?s1) k of
              None \<Rightarrow> None | Some j \<Rightarrow> if ?P j then Some (?f j) else Some j)"
      by blast
    have n: "length (filter (\<lambda>d. ?P (snd d)) (docs (scrapes ?s1))) =
        length (filter (\<lambda>d. ?P (snd d)) (docs (scrapes s)))"
      by (simp add: docs_def docs_from_map filter_map comp_def)
    have "scrapes s2 = map (map_option ?h) (scrapes s')"
    proof (rule table_eqI)
      show "length (scrapes s2) = length (map (map_option ?h) (scrapes s'))"
        using l2 fr by simp
    next
      fix k
      show "db_get (scrapes s2) k = db_get (map (map_option ?h) (scrapes s')) k"
        unfolding g2 db_get_map g
        by (cases "db_get (scrapes s) k") (simp_all add: db_get_map)
    qed
    with r2 n show ?thesis by auto
  qed
  from T r fr g indep show ?thesis by blast
qed


theorem stuck_sweep_exact_witness:
  "\<exists>s'. markStuckJobsFailed 1000000 stuck_example = Inr (1, s') \<and>
      db_get (scrapes s') 0 =
        Some ((example_job Scraping 5000)\<lparr>scrapingAt := Some 699999, status := Failed,
                error := Some ''Scrape timed out after 5 minutes''\<rparr>) \<and>
      db_get (scrapes s') 1 = Some ((example_job Scraping 5000)\<lparr>scrapingAt := Some 700001\<rparr>) \<and>
      db_get (scrapes s') 2 = Some (example_job Pending 5000)"
proof -
  let ?P = "\<lambda>j. status j = Scraping \<and>
              (case scrapingAt j of None \<Rightarrow> True | Some t \<Rightarrow> t < (1000000::int) - 300000)"
  from stuck_sweep_exact [of 1000000 stuck_example] obtain s' where
    r: "markStuckJobsFailed 1000000 stuck_example =
          Inr (length (filter (\<lambda>d. ?P (snd d)) (docs (scrapes stuck_example))), s')" and
    g: "\<And>k. db_get (scrapes s') k =
         (case db_get (scrapes stuck_example) k of
            None \<Rightarrow> None
          | Some j \<Rightarrow>
              if ?P j
              then Some (j\<lparr>status := Failed,
                           error := Some ''Scrape timed out after 5 minutes''\<rparr>)
              else Some j)"
    by blast
  have n: "length (filter (\<lambda>d. ?P (snd d)) (docs (scrapes stuck_example))) = 1"
    by (simp add: stuck_example_def example_store_def docs_def example_job_def new_scrape_def)
  have g0: "db_get (scrapes s') 0 =
        Some ((example_job Scraping 5000)\<lparr>scrapingAt := Some 699999, status := Failed,
                error := Some ''Scrape timed out after 5 minutes''\<rparr>)"
    unfolding g
    by (simp add: stuck_example_def example_store_def db_get_def example_job_def new_scrape_def)
  have g1: "db_get (scrapes s') 1 = Some ((example_job Scraping 5000)\<lparr>scrapingAt := Some 700001\<rparr>)"
    unfolding g
    by (simp add: stuck_example_def example_store_def db_get_def example_job_def new_scrape_def)
  have g2: "db_get (scrapes s') 2 = Some (example_job Pending 5000)"
    unfolding g
    by (simp add: stuck_example_def example_store_def db_get_def example_job_def new_scrape_def)
  from r n g0 g1 g2 show ?thesis by auto
qed

section \<open>The expiry sweep\<close>

text \<open>
  Claim C7. The batch size is 100. \<open>cleanupExpired\<close> never throws. It loads the first 100
  documents with \<open>expiresAt < now\<close> in the order of the expiry index, so a document with
  \<open>expiresAt < now\<close> is left out only when 100 are loaded and none of them expires later
  than it. It deletes exactly the loaded documents that are completed or failed: a
  document it deletes has \<open>expiresAt < now\<close> and status completed or failed, a pending or
  scraping document is never deleted, and no document is changed or created.
  \<open>deletedCount\<close> is the number of documents deleted, at most 100. Every file that one of
  the seven file fields of a deleted document names (markdown, html, rawHtml, screenshot,
  links, images, extractedJson) is gone afterwards, a file is deleted only when a deleted
  document names it in one of these fields, and \<open>deletedFileCount\<close> is the number of files
  deleted.
\<close>

theorem cleanup_exact:
  "CLEANUP_BATCH_SIZE = 100 \<and>
   (\<forall>d\<in>set (take 100 (by_expires_lt (scrapes s) now)).
      db_get (scrapes s) (fst d) = Some (snd d) \<and> expiresAt (snd d) < now) \<and>
   (\<forall>k j. db_get (scrapes s) k = Some j \<and> expiresAt j < now \<and>
      (k, j) \<notin> set (take 100 (by_expires_lt (scrapes s) now)) \<longrightarrow>
      length (take 100 (by_expires_lt (scrapes s) now)) = 100 \<and>
      (\<forall>d\<in>set (take 100 (by_expires_lt (scrapes s) now)).
         expiresAt (snd d) \<le> expiresAt j)) \<and>
   (\<exists>deletedCount deletedFileCount s'.
      cleanupExpired now s = Inr ((deletedCount, deletedFileCount), s') \<and>
      scheduled s' = scheduled s \<and>
      (\<forall>k j. db_get (scrapes s') k = Some j \<longrightarrow> db_get (scrapes s) k = Some j) \<and>
      (\<forall>k j. db_get (scrapes s) k = Some j \<and> db_get (scrapes s') k = None \<longrightarrow>
         expiresAt j < now \<and> (status j = Completed \<or> status j = Failed) \<and>
         (k, j) \<in> set (take 100 (by_expires_lt (scrapes s) now))) \<and>
      (\<forall>d\<in>set (take 100 (by_expires_lt (scrapes s) now)).
         status (snd d) = Completed \<or> status (snd d) = Failed \<longrightarrow>
         db_get (scrapes s') (fst d) = None) \<and>
      (\<forall>k j. db_get (scrapes s) k = Some j \<and> (status j = Pending \<or> status j = Scraping) \<longrightarrow>
         db_get (scrapes s') k = Some j) \<and>
      deletedCount \<le> 100 \<and>
      deletedCount + length (docs (scrapes s')) = length (docs (scrapes s)) \<and>
      deletedFileCount + length (docs (files s')) = length (docs (files s)) \<and>
      (\<forall>k b. db_get (files s') k = Some b \<longrightarrow> db_get (files s) k = Some b) \<and>
      (\<forall>k b. db_get (files s) k = Some b \<and> db_get (files s') k = None \<longrightarrow>
         (\<exists>i j. db_get (scrapes s) i = Some j \<and> db_get (scrapes s') i = None \<and>
            (markdownFileId j = Some k \<or> htmlFileId j = Some k \<or> rawHtmlFileId j = Some k \<or>
             screenshotFileId j = Some k \<or> linksFileId j = Some k \<or>
             imagesFileId j = Some k \<or> extractedJsonFileId j = Some k))) \<and>
      (\<forall>i j k. db_get (scrapes s) i = Some j \<and> db_get (scrapes s') i = None \<and>
         (markdownFileId j = Some k \<or> htmlFileId j = Some k \<or> rawHtmlFileId j = Some k \<or>
          screenshotFileId j = Some k \<or> linksFileId j = Some k \<or>
          imagesFileId j = Some k \<or> extractedJsonFileId j = Some k) \<longrightarrow>
         db_get (files s') k = None))"
proof -
  have a: "CLEANUP_BATCH_SIZE = 100" by (simp add: CLEANUP_BATCH_SIZE_def)
  have b: "\<forall>d\<in>set (take 100 (by_expires_lt (scrapes s) now)).
      db_get (scrapes s) (fst d) = Some (snd d) \<and> expiresAt (snd d) < now"
    using in_by_expires_lt [of _ "scrapes s" now] by (auto dest: in_set_takeD)
  have c: "\<forall>k j. db_get (scrapes s) k = Some j \<and> expiresAt j < now \<and>
      (k, j) \<notin> set (take 100 (by_expires_lt (scrapes s) now)) \<longrightarrow>
      length (take 100 (by_expires_lt (scrapes s) now)) = 100 \<and>
      (\<forall>d\<in>set (take 100 (by_expires_lt (scrapes s) now)).
         expiresAt (snd d) \<le> expiresAt j)"
    using cleanup_batch [of "scrapes s" _ _ now 100] by blast
  have d: "\<exists>deletedCount deletedFileCount s'.
      cleanupExpired now s = Inr ((deletedCount, deletedFileCount), s') \<and>
      scheduled s' = scheduled s \<and>
      (\<forall>k j. db_get (scrapes s') k = Some j \<longrightarrow> db_get (scrapes s) k = Some j) \<and>
      (\<forall>k j. db_get (scrapes s) k = Some j \<and> db_get (scrapes s') k = None \<longrightarrow>
         expiresAt j < now \<and> (status j = Completed \<or> status j = Failed) \<and>
         (k, j) \<in> set (take 100 (by_expires_lt (scrapes s) now))) \<and>
      (\<forall>d\<in>set (take 100 (by_expires_lt (scrapes s) now)).
         status (snd d) = Completed \<or> status (snd d) = Failed \<longrightarrow>
         db_get (scrapes s') (fst d) = None) \<and>
      (\<forall>k j. db_get (scrapes s) k = Some j \<and> (status j = Pending \<or> status j = Scraping) \<longrightarrow>
         db_get (scrapes s') k = Some j) \<and>
      deletedCount \<le> 100 \<and>
      deletedCount + length (docs (scrapes s')) = length (docs (scrapes s)) \<and>
      deletedFileCount + length (docs (files s')) = length (docs (files s)) \<and>
      (\<forall>k b. db_get (files s') k = Some b \<longrightarrow> db_get (files s) k = Some b) \<and>
      (\<forall>k b. db_get (files s) k = Some b \<and> db_get (files s') k = None \<longrightarrow>
         (\<exists>i j. db_get (scrapes s) i = Some j \<and> db_get (scrapes s') i = None \<and>
            (markdownFileId j = Some k \<or> htmlFileId j = Some k \<or> rawHtmlFileId j = Some k \<or>
             screenshotFileId j = Some k \<or> linksFileId j = Some k \<or>
             imagesFileId j = Some k \<or> extractedJsonFileId j = Some k))) \<and>
      (\<forall>i j k. db_get (scrapes s) i = Some j \<and> db_get (scrapes s') i = None \<and>
         (markdownFileId j = Some k \<or> htmlFileId j = Some k \<or> rawHtmlFileId j = Some k \<or>
          screenshotFileId j = Some k \<or> linksFileId j = Some k \<or>
          imagesFileId j = Some k \<or> extractedJsonFileId j = Some k) \<longrightarrow>
         db_get (files s') k = None)"
    using cleanupExpired_char [of now s, THEN conjunct2] unfolding set_fileIds .
  show ?thesis by (intro conjI) (rule a b c d)+
qed

lemma cleanup_example_run:
  "cleanupExpired 1000 cleanup_example =
     Inr ((1, 1),
          \<lparr> scrapes = [None, Some (example_job Pending 500), Some (example_job Failed 2000)],
            files = [None], scheduled = [] \<rparr>)"
  by (simp add: cleanupExpired_def cleanup_example_def by_expires_lt_def docs_def
      CLEANUP_BATCH_SIZE_def example_job_def new_scrape_def fileIds_def List.map_filter_def
      storage_delete_def db_delete_def db_get_def Let_def)

theorem cleanup_exact_witness:
  "cleanupExpired 1000 cleanup_example =
     Inr ((1, 1),
          \<lparr> scrapes = [None, Some (example_job Pending 500), Some (example_job Failed 2000)],
            files = [None], scheduled = [] \<rparr>) \<and>
   db_get (scrapes cleanup_example) 1 = Some (example_job Pending 500) \<and>
   status (example_job Pending 500) = Pending \<and>
   expiresAt (example_job Pending 500) < 1000"
proof -
  have p: "db_get (scrapes cleanup_example) 1 = Some (example_job Pending 500)"
    by (simp add: cleanup_example_def db_get_def)
  have st: "status (example_job Pending 500) = Pending"
    "expiresAt (example_job Pending 500) < 1000"
    by (simp_all add: example_job_def)
  from cleanup_exact [where now = 1000 and s = cleanup_example,
      THEN conjunct2, THEN conjunct2, THEN conjunct2] obtain dc fc s' where
    r: "cleanupExpired 1000 cleanup_example = Inr ((dc, fc), s')" and
    n: "\<forall>k j. db_get (scrapes cleanup_example) k = Some j \<and>
           (status j = Pending \<or> status j = Scraping) \<longrightarrow> db_get (scrapes s') k = Some j"
    by blast
  from n p st have "db_get (scrapes s') 1 = Some (example_job Pending 500)" by blast
  with r cleanup_example_run p st show ?thesis by simp
qed

section \<open>Invalidation\<close>

text \<open>
  Claim C8. On an invalid URL \<open>invalidate\<close> returns \<open>{success: false, invalidatedCount: 0}\<close>
  and changes nothing. On a valid URL it never throws, sets \<open>expiresAt\<close> to \<open>now\<close> on exactly
  the completed documents of the URL's hash whose \<open>expiresAt\<close> is greater than \<open>now\<close>, leaves
  every other document and field as it was (no document is deleted), and returns the
  number of documents it changed. From then on (at any time \<open>now' \<ge> now\<close>) \<open>getCached\<close> for
  the URL returns null whatever the formats, and a second \<open>invalidate\<close> returns the count
  0 and changes nothing.
\<close>

theorem invalidate_expires_cache:
  "(validateUrl env u \<noteq> Valid \<longrightarrow> invalidate env u now s = Inr ((False, 0), s)) \<and>
   (validateUrl env u = Valid \<longrightarrow>
      (\<exists>n s'. normalizeUrl env u = Inr n \<and>
         invalidate env u now s =
           Inr ((True, length (filter (\<lambda>d. urlHash (snd d) = hashUrl env n \<and>
                   status (snd d) = Completed \<and> expiresAt (snd d) > now) (docs (scrapes s)))), s') \<and>
         files s' = files s \<and> scheduled s' = scheduled s \<and>
         length (scrapes s') = length (scrapes s) \<and>
         (\<forall>k. db_get (scrapes s') k =
            (case db_get (scrapes s) k of
               None \<Rightarrow> None
             | Some j \<Rightarrow>
                 if urlHash j = hashUrl env n \<and> status j = Completed \<and> expiresAt j > now
                 then Some (j\<lparr>expiresAt := now\<rparr>) else Some j)) \<and>
         (\<forall>now' fmts. now \<le> now' \<longrightarrow> getCached env u fmts now' s' = Inr None) \<and>
         (\<forall>now'. now \<le> now' \<longrightarrow> invalidate env u now' s' = Inr ((True, 0), s'))))"
proof (intro conjI impI)
  assume "validateUrl env u \<noteq> Valid"
  from invalid_cases [OF this] show "invalidate env u now s = Inr ((False, 0), s)"
    by (auto simp: invalidate_def)
next
  assume v: "validateUrl env u = Valid"
  from valid_normalizes [OF v] obtain n where n: "normalizeUrl env u = Inr n" by blast
  from invalidate_char [OF v n, of now s] obtain s' where
    r: "invalidate env u now s =
           Inr ((True, length (filter (\<lambda>d. urlHash (snd d) = hashUrl env n \<and>
                   status (snd d) = Completed \<and> expiresAt (snd d) > now) (docs (scrapes s)))), s')" and
    f: "files s' = files s \<and> scheduled s' = scheduled s \<and>
         length (scrapes s') = length (scrapes s) \<and>
         (\<forall>k. db_get (scrapes s') k =
            (case db_get (scrapes s) k of
               None \<Rightarrow> None
             | Some j \<Rightarrow>
                 if urlHash j = hashUrl env n \<and> status j = Completed \<and> expiresAt j > now
                 then Some (j\<lparr>expiresAt := now\<rparr>) else Some j))"
    by blast
  have a: "\<forall>now' fmts. now \<le> now' \<longrightarrow> getCached env u fmts now' s' = Inr None"
    using invalidate_then [OF v n r] by blast
  have b: "\<forall>now'. now \<le> now' \<longrightarrow> invalidate env u now' s' = Inr ((True, 0), s')"
    using invalidate_then [OF v n r] by blast
  from n r f a b show "\<exists>n s'. normalizeUrl env u = Inr n \<and>
         invalidate env u now s =
           Inr ((True, length (filter (\<lambda>d. urlHash (snd d) = hashUrl env n \<and>
                   status (snd d) = Completed \<and> expiresAt (snd d) > now) (docs (scrapes s)))), s') \<and>
         files s' = files s \<and> scheduled s' = scheduled s \<and>
         length (scrapes s') = length (scrapes s) \<and>
         (\<forall>k. db_get (scrapes s') k =
            (case db_get (scrapes s) k of
               None \<Rightarrow> None
             | Some j \<Rightarrow>
                 if urlHash j = hashUrl env n \<and> status j = Completed \<and> expiresAt j > now
                 then Some (j\<lparr>expiresAt := now\<rparr>) else Some j)) \<and>
         (\<forall>now' fmts. now \<le> now' \<longrightarrow> getCached env u fmts now' s' = Inr None) \<and>
         (\<forall>now'. now \<le> now' \<longrightarrow> invalidate env u now' s' = Inr ((True, 0), s'))"
    by blast
qed


theorem invalidate_expires_cache_witness:
  "getCached plain_platform example_page None 2000 cached_example =
     Inr (Some (2, example_job Completed 5000)) \<and>
   (\<exists>s'. invalidate plain_platform example_page 2000 cached_example = Inr ((True, 1), s') \<and>
      db_get (scrapes s') 0 = Some (example_job Completed 1500) \<and>
      db_get (scrapes s') 1 = Some (example_job Failed 5000) \<and>
      db_get (scrapes s') 2 = Some (example_job Completed 2000) \<and>
      getCached plain_platform example_page None 2000 s' = Inr None \<and>
      invalidate plain_platform example_page 2000 s' = Inr ((True, 0), s'))"
proof -
  let ?h = "hashUrl plain_platform example_page"
  from invalidate_expires_cache [of plain_platform example_page 2000 cached_example,
      THEN conjunct2, rule_format, OF validateUrl_example_page]
  obtain n s' where
    n: "normalizeUrl plain_platform example_page = Inr n" and
    r: "invalidate plain_platform example_page 2000 cached_example =
           Inr ((True, length (filter (\<lambda>d. urlHash (snd d) = hashUrl plain_platform n \<and>
                   status (snd d) = Completed \<and> expiresAt (snd d) > 2000)
                 (docs (scrapes cached_example)))), s')" and
    g: "\<And>k. db_get (scrapes s') k =
            (case db_get (scrapes cached_example) k of
               None \<Rightarrow> None
             | Some j \<Rightarrow>
                 if urlHash j = hashUrl plain_platform n \<and> status j = Completed \<and> expiresAt j > 2000
                 then Some (j\<lparr>expiresAt := 2000\<rparr>) else Some j)" and
    c: "\<And>now' fmts. 2000 \<le> now' \<Longrightarrow>
          getCached plain_platform example_page fmts now' s' = Inr None" and
    i: "\<And>now'. 2000 \<le> now' \<Longrightarrow>
          invalidate plain_platform example_page now' s' = Inr ((True, 0), s')"
    by blast
  from n have n': "n = example_page" by (simp add: normalizeUrl_example_page)
  have cnt: "length (filter (\<lambda>d. urlHash (snd d) = ?h \<and>
                   status (snd d) = Completed \<and> expiresAt (snd d) > 2000)
                 (docs (scrapes cached_example))) = 1"
    by (simp add: cached_example_def example_store_def docs_def example_job_def new_scrape_def)
  have g0: "db_get (scrapes s') 0 = Some (example_job Completed 1500)"
    unfolding g n'
    by (simp add: cached_example_def example_store_def db_get_def example_job_def new_scrape_def)
  have g1: "db_get (scrapes s') 1 = Some (example_job Failed 5000)"
    unfolding g n'
    by (simp add: cached_example_def example_store_def db_get_def example_job_def new_scrape_def)
  have g2: "db_get (scrapes s') 2 = Some (example_job Completed 2000)"
    unfolding g n'
    by (simp add: cached_example_def example_store_def db_get_def example_job_def new_scrape_def)
  have before: "getCached plain_platform example_page None 2000 cached_example =
     Inr (Some (2, example_job Completed 5000))"
    by (simp add: getCached_valid [OF validateUrl_example_page normalizeUrl_example_page]
        latest_by_url_hash_def by_url_hash_def docs_def cached_example_def example_store_def
        is_cache_hit_def formatsSatisfied_def example_job_def new_scrape_def)
  from r [unfolded n' cnt] g0 g1 g2 c [of 2000 None] i [of 2000] before show ?thesis by auto
qed


section \<open>Hosts that validation lets through\<close>

text \<open>
  Claim C9. \<open>validateUrl\<close> does not reject every private or link-local host. The host name
  of an IPv6 address reaches it in brackets, and of the patterns for such addresses only
  \<^verbatim>\<open>^\[::1\]$\<close> and \<^verbatim>\<open>^\[::\]$\<close> expect the bracket; \<^verbatim>\<open>^fe80:\<close>, \<^verbatim>\<open>^fc00:\<close> and
  \<^verbatim>\<open>^fd[0-9a-f]{2}:\<close> never match. So a URL of at most 2000 characters with the scheme
  http or https whose host is in brackets and is not \<^verbatim>\<open>[::1]\<close> or \<^verbatim>\<open>[::]\<close> is valid,
  whatever the address, and \<open>startScrape\<close> on an empty table creates a job for it and
  throws no validation error.
\<close>

theorem bracketed_host_accepted:
  "length u \<le> MAX_URL_LENGTH \<and> URL_new env u = Some p \<and>
   (protocol p = ''http:'' \<or> protocol p = ''https:'') \<and>
   toLowerCase (hostname p) = CHR ''['' # a @ '']'' \<and> a \<noteq> ''::1'' \<and> a \<noteq> ''::'' \<longrightarrow>
   validateUrl env u = Valid \<and>
   (\<exists>s'. startScrape env u key opts now \<lparr> scrapes = [], files = [], scheduled = [] \<rparr> =
            Inr (0, s'))"
proof
  assume h: "length u \<le> MAX_URL_LENGTH \<and> URL_new env u = Some p \<and>
   (protocol p = ''http:'' \<or> protocol p = ''https:'') \<and>
   toLowerCase (hostname p) = CHR ''['' # a @ '']'' \<and> a \<noteq> ''::1'' \<and> a \<noteq> ''::''"
  then have v: "validateUrl env u = Valid"
    using validateUrl_bracketed [of u env p a] by blast
  from v startScrape_empty [OF v, of key opts now]
  show "validateUrl env u = Valid \<and>
   (\<exists>s'. startScrape env u key opts now \<lparr> scrapes = [], files = [], scheduled = [] \<rparr> =
            Inr (0, s'))"
    by blast
qed

theorem bracketed_host_accepted_witness:
  "rx_test (Regex (rx_str ''fe80:'') False True) ''fe80::1'' \<and>
   \<not> rx_test (Regex (rx_str ''fe80:'') False True) ''[fe80::1]'' \<and>
   validateUrl ipv6_platform link_local_url = Valid \<and>
   (\<exists>s'. startScrape ipv6_platform link_local_url ''key'' no_options 2000
            \<lparr> scrapes = [], files = [], scheduled = [] \<rparr> = Inr (0, s'))"
proof -
  let ?p = "\<lparr> protocol = ''http:'', hostname = ''[fe80::1]'', port = [],
                        pathname = ''/'', search = [] \<rparr>"
  have a: "rx_test (Regex (rx_str ''fe80:'') False True) ''fe80::1''"
    by (simp add: char_matches_def upper_char_def char_tables)
  have b: "\<not> rx_test (Regex (rx_str ''fe80:'') False True) ''[fe80::1]''"
    by (simp add: char_matches_def upper_char_def char_tables)
  have l: "length link_local_url \<le> MAX_URL_LENGTH"
    by (simp add: link_local_url_def MAX_URL_LENGTH_def)
  have u: "URL_new ipv6_platform link_local_url = Some ?p"
    by (simp add: ipv6_platform_def)
  have h: "toLowerCase ''[fe80::1]'' = ''[fe80::1]''"
    by (simp add: toLowerCase_def lower_char_def char_tables)
  have "validateUrl ipv6_platform link_local_url = Valid \<and>
   (\<exists>s'. startScrape ipv6_platform link_local_url ''key'' no_options 2000
            \<lparr> scrapes = [], files = [], scheduled = [] \<rparr> = Inr (0, s'))"
    by (rule bracketed_host_accepted [of link_local_url ipv6_platform ?p "''fe80::1''"
          "''key''" no_options 2000, rule_format])
       (simp add: l u h)
  with a b show ?thesis by blast
qed

section \<open>What a failure leaves unchanged\<close>

text \<open>
  Claim C10. \<open>failScrape\<close> changes no field of any document but status, error and
  errorCode, and creates or deletes no document, file or scheduled function; the failure
  patch of \<open>markStuckJobsFailed\<close> changes only status and error; \<open>markScraping\<close> changes only
  status and scrapingAt. So \<open>expiresAt\<close>, the content fields and the time stamps of a job that
  fails are those it had. A document that \<open>startScrape\<close> creates is pending with
  \<open>expiresAt = now + ttl\<close>, where \<open>ttl\<close> is the requested \<open>ttlMs\<close> or the default, and
  \<open>cleanupExpired\<close> leaves a document alone as long as \<open>now \<le> expiresAt\<close>: a failed job
  becomes eligible for cleanup only when the window set at its creation has passed.
\<close>

theorem failure_keeps_expiry:
  "(\<forall>s'. failScrape i err code s = Inr s' \<longrightarrow>
      files s' = files s \<and> scheduled s' = scheduled s \<and>
      length (scrapes s') = length (scrapes s) \<and>
      (\<forall>k. (db_get (scrapes s') k = None) = (db_get (scrapes s) k = None)) \<and>
      (\<forall>k j j'. db_get (scrapes s) k = Some j \<and> db_get (scrapes s') k = Some j' \<longrightarrow>
         j'\<lparr>status := status j, error := error j, errorCode := errorCode j\<rparr> = j)) \<and>
   (\<forall>n s'. markStuckJobsFailed now s = Inr (n, s') \<longrightarrow>
      files s' = files s \<and> scheduled s' = scheduled s \<and>
      length (scrapes s') = length (scrapes s) \<and>
      (\<forall>k. (db_get (scrapes s') k = None) = (db_get (scrapes s) k = None)) \<and>
      (\<forall>k j j'. db_get (scrapes s) k = Some j \<and> db_get (scrapes s') k = Some j' \<longrightarrow>
         j'\<lparr>status := status j, error := error j\<rparr> = j)) \<and>
   (\<forall>s'. markScraping i now s = Inr s' \<longrightarrow>
      files s' = files s \<and> scheduled s' = scheduled s \<and>
      length (scrapes s') = length (scrapes s) \<and>
      (\<forall>k. (db_get (scrapes s') k = None) = (db_get (scrapes s) k = None)) \<and>
      (\<forall>k j j'. db_get (scrapes s) k = Some j \<and> db_get (scrapes s') k = Some j' \<longrightarrow>
         j'\<lparr>status := status j, scrapingAt := scrapingAt j\<rparr> = j)) \<and>
   (\<forall>i' s'. startScrape env u key opts now s = Inr (i', s') \<and> db_get (scrapes s) i' = None \<longrightarrow>
      (\<exists>j. db_get (scrapes s') i' = Some j \<and> status j = Pending \<and> startedAt j = now \<and>
           expiresAt j =
             now + (case scrape_options.ttlMs opts of None \<Rightarrow> DEFAULT_TTL_MS | Some t \<Rightarrow> t))) \<and>
   (\<forall>r s' k j. cleanupExpired now s = Inr (r, s') \<and> db_get (scrapes s) k = Some j \<and>
      now \<le> expiresAt j \<longrightarrow> db_get (scrapes s') k = Some j)"
proof -
  have a: "\<forall>s'. failScrape i err code s = Inr s' \<longrightarrow>
      files s' = files s \<and> scheduled s' = scheduled s \<and>
      length (scrapes s') = length (scrapes s) \<and>
      (\<forall>k. (db_get (scrapes s') k = None) = (db_get (scrapes s) k = None)) \<and>
      (\<forall>k j j'. db_get (scrapes s) k = Some j \<and> db_get (scrapes s') k = Some j' \<longrightarrow>
         j'\<lparr>status := status j, error := error j, errorCode := errorCode j\<rparr> = j)"
    using failScrape_frame [of i err code s] by blast
  have b: "\<forall>n s'. markStuckJobsFailed now s = Inr (n, s') \<longrightarrow>
      files s' = files s \<and> scheduled s' = scheduled s \<and>
      length (scrapes s') = length (scrapes s) \<and>
      (\<forall>k. (db_get (scrapes s') k = None) = (db_get (scrapes s) k = None)) \<and>
      (\<forall>k j j'. db_get (scrapes s) k = Some j \<and> db_get (scrapes s') k = Some j' \<longrightarrow>
         j'\<lparr>status := status j, error := error j\<rparr> = j)"
    using markStuck_frame [of now s] by blast
  have c: "\<forall>s'. markScraping i now s = Inr s' \<longrightarrow>
      files s' = files s \<and> scheduled s' = scheduled s \<and>
      length (scrapes s') = length (scrapes s) \<and>
      (\<forall>k. (db_get (scrapes s') k = None) = (db_get (scrapes s) k = None)) \<and>
      (\<forall>k j j'. db_get (scrapes s) k = Some j \<and> db_get (scrapes s') k = Some j' \<longrightarrow>
         j'\<lparr>status := status j, scrapingAt := scrapingAt j\<rparr> = j)"
    using markScraping_frame [of i now s] by blast
  have d: "\<forall>i' s'. startScrape env u key opts now s = Inr (i', s') \<and> db_get (scrapes s) i' = None \<longrightarrow>
      (\<exists>j. db_get (scrapes s') i' = Some j \<and> status j = Pending \<and> startedAt j = now \<and>
           expiresAt j =
             now + (case scrape_options.ttlMs opts of None \<Rightarrow> DEFAULT_TTL_MS | Some t \<Rightarrow> t))"
    using startScrape_new_doc [of env u key opts now s] by blast
  have e: "\<forall>r s' k j. cleanupExpired now s = Inr (r, s') \<and> db_get (scrapes s) k = Some j \<and>
      now \<le> expiresAt j \<longrightarrow> db_get (scrapes s') k = Some j"
    using cleanup_keeps_unexpired [of now s] by blast
  show ?thesis
    by (intro conjI) (rule a b c d e)+
qed


lemma example_start:
  "\<exists>a. startScrape plain_platform example_page ''key'' one_minute 1000 (example_store []) =
     Inr (0, \<lparr> scrapes = [Some (new_scrape example_page example_page
                  (hashUrl plain_platform example_page) [''markdown''] 1000 60000 None)],
              files = [], scheduled = [a] \<rparr>)"
  by (simp add: startScrape_unfold [OF validateUrl_example_page normalizeUrl_example_page]
      one_minute_def no_options_def example_store_def latest_by_url_hash_def by_url_hash_def
      docs_def)

theorem failure_keeps_expiry_witness:
  "\<exists>s1 s2 s3 r s4 j.
     db_get (scrapes (example_store [])) 0 = None \<and>
     startScrape plain_platform example_page ''key'' one_minute 1000 (example_store []) =
       Inr (0, s1) \<and>
     markScraping 0 2000 s1 = Inr s2 \<and>
     failScrape 0 ''boom'' None s2 = Inr s3 \<and>
     db_get (scrapes s3) 0 = Some j \<and> status j = Failed \<and> expiresAt j = 1000 + 60000 \<and>
     cleanupExpired 61000 s3 = Inr (r, s4) \<and>
     db_get (scrapes s4) 0 = Some j"
proof -
  let ?j1 = "new_scrape example_page example_page (hashUrl plain_platform example_page)
               [''markdown''] 1000 60000 None"
  let ?j2 = "?j1\<lparr>status := Scraping, scrapingAt := Some 2000\<rparr>"
  let ?j3 = "?j2\<lparr>status := Failed, error := Some ''boom'', errorCode := None\<rparr>"
  from example_start obtain a where
    r1: "startScrape plain_platform example_page ''key'' one_minute 1000 (example_store []) =
       Inr (0, \<lparr> scrapes = [Some ?j1], files = [], scheduled = [a] \<rparr>)"
    by blast
  let ?s1 = "\<lparr> scrapes = [Some ?j1], files = [], scheduled = [a] \<rparr>"
  let ?s2 = "\<lparr> scrapes = [Some ?j2], files = [], scheduled = [a] \<rparr>"
  let ?s3 = "\<lparr> scrapes = [Some ?j3], files = [], scheduled = [a] \<rparr>"
  have e0: "db_get (scrapes (example_store [])) 0 = None"
    by (simp add: example_store_def db_get_def)
  have r2: "markScraping 0 2000 ?s1 = Inr ?s2"
    by (simp add: markScraping_def db_patch_def db_get_def)
  have r3: "failScrape 0 ''boom'' None ?s2 = Inr ?s3"
    by (simp add: failScrape_def db_patch_def db_get_def new_scrape_def)
  have g3: "db_get (scrapes ?s3) 0 = Some ?j3" by (simp add: db_get_def)
  have st: "status ?j3 = Failed" by simp
  note T = failure_keeps_expiry [of 0 "''boom''" None _ _ plain_platform example_page "''key''"
      one_minute]
  note created = T [of "example_store []" 1000, THEN conjunct2, THEN conjunct2, THEN conjunct2,
      THEN conjunct1, rule_format, OF conjI [OF r1 e0]]
  have g1: "db_get (scrapes ?s1) 0 = Some ?j1" by (simp add: db_get_def)
  from created g1 have x1: "expiresAt ?j1 = 1000 + 60000"
    by (simp add: one_minute_def no_options_def)
  have g2: "db_get (scrapes ?s2) 0 = Some ?j2" by (simp add: db_get_def)
  note failed = T [of ?s2 2000, THEN conjunct1, rule_format, OF r3, THEN conjunct2,
      THEN conjunct2, THEN conjunct2, THEN conjunct2, rule_format, OF conjI [OF g2 g3]]
  from failed have "expiresAt (?j3\<lparr>status := status ?j2, error := error ?j2,
      errorCode := errorCode ?j2\<rparr>) = expiresAt ?j2" by (rule arg_cong)
  then have x3: "expiresAt ?j3 = 1000 + 60000" using x1 by simp
  from cleanupExpired_char [of 61000 ?s3] obtain dc fc s4 where
    r4: "cleanupExpired 61000 ?s3 = Inr ((dc, fc), s4)" by blast
  have le: "61000 \<le> expiresAt ?j3" using x3 by simp
  note g4 = T [of ?s3 61000, THEN conjunct2, THEN conjunct2, THEN conjunct2, THEN conjunct2,
      rule_format, OF conjI [OF r4 conjI [OF g3 le]]]
  from e0 r1 r2 r3 g3 st x3 r4 g4 show ?thesis by blast
qed


section \<open>Facts about the transition system\<close>
































section \<open>One active job for a URL\<close>




end
